(* ===== verification/Gw_Prelude.thy ===== *)
theory Gw_Prelude
  imports Main "HOL-Library.Sublist" "HOL-Library.Code_Target_Nat"
begin

text \<open>
  What every component shares: the result type of operations that may throw, the
  development's lemma collections, and generic facts on lists that the JavaScript
  library functions of the source (\<open>filter\<close>, \<open>every\<close>, \<open>some\<close>, \<open>find\<close>, \<open>slice\<close>) reduce to.
\<close>

named_theorems gw_defs "definitions of the model that proofs unfold"
named_theorems gw_frame "fields an operation leaves unchanged"

section \<open>Results: a thrown error or a value\<close>

type_synonym ('e, 'a) result = "'e + 'a"

definition bind_result :: "('e, 'a) result \<Rightarrow> ('a \<Rightarrow> ('e, 'b) result) \<Rightarrow> ('e, 'b) result" where
  "bind_result r f = (case r of Inl e \<Rightarrow> Inl e | Inr x \<Rightarrow> f x)"

lemma bind_result_simps [simp]:
  "bind_result (Inl e) f = Inl e"
  "bind_result (Inr x) f = f x"
  by (simp_all add: bind_result_def)

lemma bind_result_Inr_iff:
  "bind_result r f = Inr y \<longleftrightarrow> (\<exists>x. r = Inr x \<and> f x = Inr y)"
  by (cases r) auto

lemma bind_result_Inl_iff:
  "bind_result r f = Inl e \<longleftrightarrow> r = Inl e \<or> (\<exists>x. r = Inr x \<and> f x = Inl e)"
  by (cases r) auto

lemma bind_result_assoc:
  "bind_result (bind_result r f) g = bind_result r (\<lambda>x. bind_result (f x) g)"
  by (cases r) auto

lemma bind_result_cong [fundef_cong]:
  "r = r' \<Longrightarrow> (\<And>x. r' = Inr x \<Longrightarrow> f x = g x) \<Longrightarrow> bind_result r f = bind_result r' g"
  by (cases r') auto

text \<open>\<open>x ?? d\<close> and \<open>x?.f\<close> of the source, on values that may be absent.\<close>

definition or_default :: "'a option \<Rightarrow> 'a \<Rightarrow> 'a" where
  "or_default x d = (case x of None \<Rightarrow> d | Some v \<Rightarrow> v)"

lemma or_default_simps [simp]:
  "or_default None d = d"
  "or_default (Some v) d = v"
  by (simp_all add: or_default_def)

section \<open>Lists\<close>

text \<open>\<open>Array.prototype.slice(-n)\<close>: the last \<open>n\<close> elements, the whole list for \<open>n = 0\<close>
  (JavaScript reads \<open>slice(-0)\<close> as \<open>slice(0)\<close>).\<close>

definition slice_last :: "nat \<Rightarrow> 'a list \<Rightarrow> 'a list" where
  "slice_last n xs = (if n = 0 then xs else drop (length xs - n) xs)"

lemma set_slice_last: "set (slice_last n xs) \<subseteq> set xs"
  by (auto simp: slice_last_def dest: in_set_dropD)

lemma length_slice_last: "0 < n \<Longrightarrow> length (slice_last n xs) = min n (length xs)"
  by (auto simp: slice_last_def)

lemma suffix_slice_last: "suffix (slice_last n xs) xs"
  by (auto simp: slice_last_def suffix_drop)

text \<open>Removing duplicates as \<open>[...new Set(xs)]\<close> does: the first occurrence is kept.\<close>

fun nub_acc :: "'a list \<Rightarrow> 'a list \<Rightarrow> 'a list" where
  "nub_acc seen [] = []"
| "nub_acc seen (x # xs) =
     (if x \<in> set seen then nub_acc seen xs else x # nub_acc (x # seen) xs)"

definition nub :: "'a list \<Rightarrow> 'a list" where
  "nub xs = nub_acc [] xs"

lemma set_nub_acc: "set (nub_acc seen xs) = set xs - set seen"
  by (induction seen xs rule: nub_acc.induct) auto

lemma set_nub [simp]: "set (nub xs) = set xs"
  by (simp add: nub_def set_nub_acc)

lemma distinct_nub_acc: "distinct (nub_acc seen xs)"
  by (induction seen xs rule: nub_acc.induct) (auto simp: set_nub_acc)

lemma distinct_nub [simp]: "distinct (nub xs)"
  by (simp add: nub_def distinct_nub_acc)

lemma nub_acc_id: "distinct xs \<Longrightarrow> set xs \<inter> set seen = {} \<Longrightarrow> nub_acc seen xs = xs"
  by (induction xs arbitrary: seen) auto

lemma nub_id: "distinct xs \<Longrightarrow> nub xs = xs"
  by (simp add: nub_def nub_acc_id)

lemma find_Some_iff_first:
  "List.find P xs = Some x \<longleftrightarrow> (\<exists>us vs. xs = us @ x # vs \<and> P x \<and> (\<forall>u \<in> set us. \<not> P u))"
proof (induction xs)
  case (Cons y ys)
  show ?case
  proof (cases "P y")
    case True
    then show ?thesis
      by (auto simp: Cons_eq_append_conv)
  next
    case False
    then show ?thesis
      using Cons.IH by (auto simp: Cons_eq_append_conv) (metis set_ConsD)
  qed
qed simp

lemma find_Some_in_set: "List.find P xs = Some x \<Longrightarrow> x \<in> set xs \<and> P x"
  by (induction xs) (auto split: if_splits)

lemma length_filter_strict:
  "x \<in> set xs \<Longrightarrow> P x \<Longrightarrow> \<not> Q x \<Longrightarrow> (\<And>y. Q y \<Longrightarrow> P y) \<Longrightarrow>
     length (filter Q xs) < length (filter P xs)"
proof (induction xs)
  case (Cons y ys)
  have "length (filter Q ys) \<le> length (filter P ys)"
    using Cons.prems(4) by (induction ys) (auto simp: le_Suc_eq)
  with Cons show ?case by auto
qed simp

text \<open>A delimiter that occurs in neither prefix splits a concatenation in one way.\<close>

lemma delim_unique:
  assumes "c \<notin> set a" and "c \<notin> set b" and "a @ c # r = b @ c # s"
  shows "a = b \<and> r = s"
  using assms
proof (induction a arbitrary: b)
  case Nil
  then show ?case by (cases b) auto
next
  case (Cons x a)
  then show ?case by (cases b) auto
qed

lemma delim_eq:
  "c \<notin> set a \<Longrightarrow> c \<notin> set b \<Longrightarrow> a @ c # r = b @ c # s \<longleftrightarrow> a = b \<and> r = s"
  using delim_unique [of c a b r s] by blast

lemma delim_unique_last:
  assumes "c \<notin> set r" and "c \<notin> set s" and "a @ c # r = b @ c # s"
  shows "a = b \<and> r = s"
proof -
  have "rev r @ c # rev a = rev s @ c # rev b"
    using assms(3) by (metis append.assoc append_Cons append_Nil rev.simps(2) rev_append)
  then have "rev r = rev s \<and> rev a = rev b"
    using delim_unique [of c "rev r" "rev s" "rev a" "rev b"] assms(1,2) by simp
  then show ?thesis by simp
qed

lemma append_eq_same_length:
  "length a = length b \<Longrightarrow> a @ r = b @ s \<Longrightarrow> a = b \<and> r = s"
  by simp

text \<open>Maps: a fold of \<open>Map.set\<close> over a list, and reading it back.\<close>

definition map_set :: "('k \<Rightarrow> 'v option) \<Rightarrow> 'k \<Rightarrow> 'v \<Rightarrow> ('k \<Rightarrow> 'v option)" where
  "map_set m k v = (\<lambda>x. if x = k then Some v else m x)"

definition map_del :: "('k \<Rightarrow> 'v option) \<Rightarrow> 'k \<Rightarrow> ('k \<Rightarrow> 'v option)" where
  "map_del m k = (\<lambda>x. if x = k then None else m x)"

lemma map_set_apply [simp]: "map_set m k v x = (if x = k then Some v else m x)"
  by (simp add: map_set_def)

lemma map_del_apply [simp]: "map_del m k x = (if x = k then None else m x)"
  by (simp add: map_del_def)

text \<open>A JavaScript \<open>Map\<close> with its insertion order: setting a present key keeps its place.\<close>

fun alist_set :: "'k \<Rightarrow> 'v \<Rightarrow> ('k \<times> 'v) list \<Rightarrow> ('k \<times> 'v) list" where
  "alist_set k v [] = [(k, v)]"
| "alist_set k v ((k', v') # m) = (if k' = k then (k, v) # m else (k', v') # alist_set k v m)"

definition alist_del :: "'k \<Rightarrow> ('k \<times> 'v) list \<Rightarrow> ('k \<times> 'v) list" where
  "alist_del k m = filter (\<lambda>(k', v). k' \<noteq> k) m"

lemma map_of_alist_set [simp]: "map_of (alist_set k v m) = (map_of m)(k \<mapsto> v)"
  by (induction m) auto

lemma map_of_alist_del [simp]: "map_of (alist_del k m) = (map_of m)(k := None)"
  by (induction m) (auto simp: alist_del_def)

lemma keys_alist_set: "fst ` set (alist_set k v m) = insert k (fst ` set m)"
  by (induction k v m rule: alist_set.induct) (auto simp: image_iff)

lemma distinct_alist_set: "distinct (map fst m) \<Longrightarrow> distinct (map fst (alist_set k v m))"
  by (induction k v m rule: alist_set.induct) (auto simp: keys_alist_set)

lemma distinct_alist_del: "distinct (map fst m) \<Longrightarrow> distinct (map fst (alist_del k m))"
  by (simp add: alist_del_def distinct_map_filter)

text \<open>Sorting with a comparison function, as \<open>Array.prototype.sort\<close> does: stable.\<close>

fun insort_by :: "('a \<Rightarrow> 'a \<Rightarrow> bool) \<Rightarrow> 'a \<Rightarrow> 'a list \<Rightarrow> 'a list" where
  "insort_by le x [] = [x]"
| "insort_by le x (y # ys) = (if le x y then x # y # ys else y # insort_by le x ys)"

definition sort_by :: "('a \<Rightarrow> 'a \<Rightarrow> bool) \<Rightarrow> 'a list \<Rightarrow> 'a list" where
  "sort_by le xs = foldr (insort_by le) xs []"

lemma set_insort_by [simp]: "set (insort_by le x ys) = insert x (set ys)"
  by (induction ys) auto

lemma set_sort_by [simp]: "set (sort_by le xs) = set xs"
  by (induction xs) (auto simp: sort_by_def)

lemma length_insort_by [simp]: "length (insort_by le x ys) = Suc (length ys)"
  by (induction ys) auto

lemma length_sort_by [simp]: "length (sort_by le xs) = length xs"
  by (induction xs) (auto simp: sort_by_def)

lemma sorted_insort_by:
  assumes "\<And>x y. le x y \<or> le y x" "\<And>x y z. le x y \<Longrightarrow> le y z \<Longrightarrow> le x z"
  shows "sorted_wrt le ys \<Longrightarrow> sorted_wrt le (insort_by le x ys)"
proof (induction ys)
  case (Cons y ys)
  then show ?case using assms(1) [of x y] by (auto intro: assms(2))
qed simp

lemma sorted_sort_by:
  assumes "\<And>x y. le x y \<or> le y x" "\<And>x y z. le x y \<Longrightarrow> le y z \<Longrightarrow> le x z"
  shows "sorted_wrt le (sort_by le xs)"
  by (induction xs) (use sorted_insort_by [of le] assms in \<open>auto simp: sort_by_def\<close>)

end
