(* ===== verification/Js_Text.thy ===== *)
theory Js_Text
  imports Gw_Prelude "HOL-Library.Char_ord" "HOL-Library.List_Lexorder"
begin

text \<open>
  The string functions of the JavaScript library that the source calls. A string is a list
  of code units; the model's alphabet is the units 0 to 255, on which every function below
  is the library's (\<open>trim\<close> and \<open>\s\<close> see the no-break space, \<open>toLowerCase\<close> the Latin-1 capitals).
  \<open>Array.prototype.sort\<close> without a comparator is \<open>sort\<close> at the lexicographic order of
  \<open>HOL-Library.List_Lexorder\<close>, which compares code units.
\<close>

section \<open>Characters\<close>

definition code :: "char \<Rightarrow> nat" where
  "code c = of_char c"

definition js_space :: "char \<Rightarrow> bool" where
  "js_space c \<longleftrightarrow> code c \<in> {9, 10, 11, 12, 13, 32, 160}"

definition is_digit :: "char \<Rightarrow> bool" where
  "is_digit c \<longleftrightarrow> 48 \<le> code c \<and> code c \<le> 57"

definition is_letter :: "char \<Rightarrow> bool" where
  "is_letter c \<longleftrightarrow> (65 \<le> code c \<and> code c \<le> 90) \<or> (97 \<le> code c \<and> code c \<le> 122)"

text \<open>\<open>\w\<close> of a regular expression, and the start and rest of an identifier.\<close>

definition word_char :: "char \<Rightarrow> bool" where
  "word_char c \<longleftrightarrow> is_letter c \<or> is_digit c \<or> c = CHR ''_''"

definition lower_char :: "char \<Rightarrow> char" where
  "lower_char c =
     (if (65 \<le> code c \<and> code c \<le> 90) \<or> (192 \<le> code c \<and> code c \<le> 222 \<and> code c \<noteq> 215)
      then char_of (code c + 32) else c)"

definition upper_ascii :: "char \<Rightarrow> char" where
  "upper_ascii c = (if 97 \<le> code c \<and> code c \<le> 122 then char_of (code c - 32) else c)"

definition to_lower :: "string \<Rightarrow> string" where
  "to_lower s = map lower_char s"

definition to_upper :: "string \<Rightarrow> string" where
  "to_upper s = map upper_ascii s"

lemma code_less [simp]: "code c < 256"
  by (simp add: code_def)

lemma code_char_of: "n < 256 \<Longrightarrow> code (char_of n) = n"
  by (simp add: code_def)

lemma code_inject: "code c = code d \<longleftrightarrow> c = d"
  by (simp add: code_def)

lemma lower_char_idem [simp]: "lower_char (lower_char c) = lower_char c"
proof -
  have "code c + 32 < 256" if "65 \<le> code c \<and> code c \<le> 90 \<or> 192 \<le> code c \<and> code c \<le> 222"
    using that by auto
  then show ?thesis
    by (auto simp: lower_char_def code_char_of)
qed

lemma to_lower_idem [simp]: "to_lower (to_lower s) = to_lower s"
  by (simp add: to_lower_def)

lemma length_to_lower [simp]: "length (to_lower s) = length s"
  by (simp add: to_lower_def)

section \<open>Searching and slicing\<close>

definition starts_with :: "string \<Rightarrow> string \<Rightarrow> bool" where
  "starts_with s p \<longleftrightarrow> take (length p) s = p"

definition ends_with :: "string \<Rightarrow> string \<Rightarrow> bool" where
  "ends_with s e \<longleftrightarrow> length e \<le> length s \<and> drop (length s - length e) s = e"

lemma starts_with_prefix: "starts_with s p \<longleftrightarrow> prefix p s"
  unfolding starts_with_def prefix_def
  by (metis append_eq_conv_conj append_take_drop_id)

lemma starts_with_append [simp]: "starts_with (p @ s) p"
  by (simp add: starts_with_def)

fun has_sub :: "string \<Rightarrow> string \<Rightarrow> bool" where
  "has_sub [] p \<longleftrightarrow> p = []"
| "has_sub (c # s) p \<longleftrightarrow> starts_with (c # s) p \<or> has_sub s p"

lemma includes_iff: "has_sub s p \<longleftrightarrow> (\<exists>a b. s = a @ p @ b)"
proof (induction s)
  case (Cons c s)
  show ?case
  proof
    assume "has_sub (c # s) p"
    then consider "starts_with (c # s) p" | "has_sub s p" by auto
    then show "\<exists>a b. c # s = a @ p @ b"
    proof cases
      case 1
      then show ?thesis
        unfolding starts_with_prefix prefix_def by (metis append_Nil)
    next
      case 2
      with Cons.IH show ?thesis by (metis append_Cons)
    qed
  next
    assume "\<exists>a b. c # s = a @ p @ b"
    then obtain a b where ab: "c # s = a @ p @ b" by blast
    show "has_sub (c # s) p"
    proof (cases a)
      case Nil
      with ab have "starts_with (c # s) p" by (metis append_Nil starts_with_append)
      then show ?thesis by simp
    next
      case (Cons d a')
      with ab have "s = a' @ p @ b" by simp
      with Cons.IH show ?thesis by auto
    qed
  qed
qed auto

lemma includes_char: "has_sub s [c] \<longleftrightarrow> c \<in> set s"
  by (induction s) (auto simp: starts_with_def)

fun index_of :: "char \<Rightarrow> string \<Rightarrow> nat option" where
  "index_of c [] = None"
| "index_of c (d # s) = (if c = d then Some 0 else map_option Suc (index_of c s))"

section \<open>Whitespace\<close>

definition trim_start :: "string \<Rightarrow> string" where
  "trim_start s = dropWhile js_space s"

definition trim_end :: "string \<Rightarrow> string" where
  "trim_end s = rev (dropWhile js_space (rev s))"

definition trim :: "string \<Rightarrow> string" where
  "trim s = trim_end (trim_start s)"

lemma trim_id: "(\<And>c. c \<in> set s \<Longrightarrow> \<not> js_space c) \<Longrightarrow> trim s = s"
proof -
  assume no: "\<And>c. c \<in> set s \<Longrightarrow> \<not> js_space c"
  then have "dropWhile js_space s = s" "dropWhile js_space (rev s) = rev s"
    by (auto simp: dropWhile_eq_self_iff hd_rev)
  then show ?thesis by (simp add: trim_def trim_start_def trim_end_def)
qed

lemma trim_end_hd: "s \<noteq> [] \<Longrightarrow> trim_end s \<noteq> [] \<Longrightarrow> hd (trim_end s) = hd s"
proof -
  assume "s \<noteq> []" "trim_end s \<noteq> []"
  obtain t where "rev s = t @ dropWhile js_space (rev s)"
    by (metis takeWhile_dropWhile_id)
  then have "s = trim_end s @ rev t"
    by (metis rev_append rev_rev_ident trim_end_def)
  with \<open>trim_end s \<noteq> []\<close> show ?thesis by (metis hd_append2)
qed

lemma trim_ends_not_space:
  assumes "trim s \<noteq> []"
  shows "\<not> js_space (hd (trim s))" and "\<not> js_space (last (trim s))"
proof -
  let ?t = "trim_start s"
  have nt: "?t \<noteq> []" using assms by (auto simp: trim_def trim_end_def)
  then have "\<not> js_space (hd ?t)"
    by (simp add: trim_start_def hd_dropWhile)
  with nt assms show "\<not> js_space (hd (trim s))"
    by (simp add: trim_def trim_end_hd)
  have "rev (trim s) = dropWhile js_space (rev ?t)"
    by (simp add: trim_def trim_end_def)
  with assms show "\<not> js_space (last (trim s))"
    by (metis hd_dropWhile hd_rev rev_is_Nil_conv)
qed

section \<open>Splitting and joining\<close>

text \<open>\<open>s.split(c)\<close> at a one-character separator; the result is never empty.\<close>

fun split_on :: "char \<Rightarrow> string \<Rightarrow> string list" where
  "split_on c [] = [[]]"
| "split_on c (d # s) =
     (if d = c then [] # split_on c s
      else (case split_on c s of [] \<Rightarrow> [[d]] | w # ws \<Rightarrow> (d # w) # ws))"

fun join :: "string \<Rightarrow> string list \<Rightarrow> string" where
  "join sep [] = []"
| "join sep [w] = w"
| "join sep (w # v # ws) = w @ sep @ join sep (v # ws)"

lemma split_on_nonempty [simp]: "split_on c s \<noteq> []"
  by (induction s) (auto split: list.splits)

lemma split_on_no_sep: "\<forall>w \<in> set (split_on c s). c \<notin> set w"
  by (induction s) (auto split: list.split)

lemma split_on_plain: "c \<notin> set w \<Longrightarrow> split_on c w = [w]"
  by (induction w) auto

lemma split_on_append:
  "c \<notin> set w \<Longrightarrow> split_on c (w @ c # s) = w # split_on c s"
  by (induction w) auto

lemma split_on_join:
  "ws \<noteq> [] \<Longrightarrow> \<forall>w \<in> set ws. c \<notin> set w \<Longrightarrow> split_on c (join [c] ws) = ws"
  by (induction "[c]" ws rule: join.induct) (auto simp: split_on_plain split_on_append)

lemma join_split_on: "join [c] (split_on c s) = s"
proof (induction s)
  case (Cons d s)
  obtain w ws where "split_on c s = w # ws"
    by (metis list.exhaust split_on_nonempty)
  with Cons show ?case by (cases ws) auto
qed simp

lemma hd_split_on: "hd (split_on c s) = takeWhile (\<lambda>d. d \<noteq> c) s"
  by (induction s) (auto split: list.splits)

text \<open>\<open>s.split(/P+/).filter(w => w.length > 0)\<close>: the maximal runs of characters outside \<open>P\<close>.\<close>

fun words_acc :: "(char \<Rightarrow> bool) \<Rightarrow> string \<Rightarrow> string \<Rightarrow> string list" where
  "words_acc P acc [] = (if acc = [] then [] else [rev acc])"
| "words_acc P acc (c # s) =
     (if P c then (if acc = [] then words_acc P [] s else rev acc # words_acc P [] s)
      else words_acc P (c # acc) s)"

definition words_by :: "(char \<Rightarrow> bool) \<Rightarrow> string \<Rightarrow> string list" where
  "words_by P s = words_acc P [] s"

lemma words_acc_props:
  "list_all (\<lambda>c. \<not> P c) acc \<Longrightarrow>
     list_all (\<lambda>w. w \<noteq> [] \<and> list_all (\<lambda>c. \<not> P c) w) (words_acc P acc s)"
  by (induction P acc s rule: words_acc.induct) (simp_all add: list_all_rev)

lemma words_by_props:
  "w \<in> set (words_by P s) \<Longrightarrow> w \<noteq> [] \<and> (\<forall>c \<in> set w. \<not> P c)"
  using words_acc_props [of P "[]" s] by (auto simp: words_by_def list_all_iff)

lemma words_acc_run:
  "(\<forall>c \<in> set w. \<not> P c) \<Longrightarrow> words_acc P acc (w @ s) = words_acc P (rev w @ acc) s"
  by (induction w arbitrary: acc) auto

lemma words_by_join:
  assumes "P c" and "\<forall>w \<in> set ws. w \<noteq> [] \<and> (\<forall>d \<in> set w. \<not> P d)"
  shows "words_by P (join [c] ws) = ws"
  using assms(2)
proof (induction "[c]" ws rule: join.induct)
  case (3 w v ws)
  then show ?case
    using assms(1) by (simp add: words_by_def words_acc_run)
qed (simp_all add: words_by_def words_acc_run [of _ P "[]" "[]", simplified])

text \<open>A text between single quotes, as the messages of the source print names.\<close>

definition quoted :: "string \<Rightarrow> string" where
  "quoted s = CHR 0x27 # s @ [CHR 0x27]"

section \<open>Decimal numerals\<close>

definition digit_char :: "nat \<Rightarrow> char" where
  "digit_char d = char_of (48 + d)"

fun nat_str :: "nat \<Rightarrow> string" where
  "nat_str n = (if n < 10 then [digit_char n] else nat_str (n div 10) @ [digit_char (n mod 10)])"

declare nat_str.simps [simp del]

definition int_str :: "int \<Rightarrow> string" where
  "int_str i = (if i < 0 then ''-'' @ nat_str (nat (- i)) else nat_str (nat i))"

definition nat_of_digits :: "string \<Rightarrow> nat" where
  "nat_of_digits s = foldl (\<lambda>a c. 10 * a + (code c - 48)) 0 s"

lemma code_digit_char: "d < 10 \<Longrightarrow> code (digit_char d) = 48 + d"
  by (simp add: digit_char_def code_char_of)

lemma is_digit_digit_char: "d < 10 \<Longrightarrow> is_digit (digit_char d)"
  by (simp add: is_digit_def code_digit_char)

lemma nat_str_digits: "c \<in> set (nat_str n) \<Longrightarrow> is_digit c"
proof (induction n rule: nat_str.induct)
  case (1 n)
  show ?case
  proof (cases "n < 10")
    case True
    with "1.prems" show ?thesis
      by (simp add: nat_str.simps [of n] is_digit_digit_char)
  next
    case False
    with "1.prems" "1.IH" show ?thesis
      by (auto simp: nat_str.simps [of n] is_digit_digit_char)
  qed
qed

lemma nat_str_0: "nat_str 0 = ''0''"
  by code_simp

lemma nat_str_nonempty [simp]: "nat_str n \<noteq> []"
  by (subst nat_str.simps) simp

lemma nat_of_digits_nat_str [simp]: "nat_of_digits (nat_str n) = n"
proof (induction n rule: nat_str.induct)
  case (1 n)
  show ?case
  proof (cases "n < 10")
    case True
    then show ?thesis
      by (simp add: nat_str.simps [of n] nat_of_digits_def code_digit_char)
  next
    case False
    with "1.IH" have "nat_of_digits (nat_str (n div 10)) = n div 10" by simp
    with False show ?thesis
      by (simp add: nat_str.simps [of n] nat_of_digits_def code_digit_char)
  qed
qed

lemma nat_str_inject [simp]: "nat_str m = nat_str n \<longleftrightarrow> m = n"
  by (metis nat_of_digits_nat_str)

lemma minus_not_digit: "\<not> is_digit (CHR ''-'')"
  by (simp add: is_digit_def code_def)

lemma int_str_inject [simp]: "int_str i = int_str j \<longleftrightarrow> i = j"
proof -
  have *: "''-'' @ s \<noteq> nat_str n" for s n
  proof
    assume "''-'' @ s = nat_str n"
    then have "CHR ''-'' \<in> set (nat_str n)" by (metis in_set_conv_decomp append_Nil append_Cons)
    then show False using nat_str_digits minus_not_digit by blast
  qed
  have [simp]: "CHR ''-'' # s \<noteq> nat_str n" "nat_str n \<noteq> CHR ''-'' # s" for s n
    using * [of s n] by auto
  show ?thesis
    by (auto simp: int_str_def)
qed

lemma int_str_chars: "c \<in> set (int_str i) \<Longrightarrow> is_digit c \<or> c = CHR ''-''"
  by (auto simp: int_str_def split: if_splits dest: nat_str_digits)

lemma int_str_nonempty [simp]: "int_str i \<noteq> []"
  by (simp add: int_str_def)

end
