(* ===== verification/Js_Value.thy ===== *)
theory Js_Value
  imports Js_Text Complex_Main
begin

text \<open>
  JavaScript values as the source handles them once they have come out of a JSON body: numbers
  with their non-finite members, arrays, objects with insertion-ordered own properties, and the
  inherited members that a property read can reach as host values.
  Finite numbers are rationals. Numbers whose shortest decimal form is an integer below
  \<open>10^21\<close> are formatted here; the form of all others (ECMAScript's \<open>Number::toString\<close>, shortest
  round-trip digits) is the parameter \<open>fmt\<close>, constrained by \<open>fmt_ok\<close>.
\<close>

section \<open>Numbers\<close>

datatype js_num = JFin rat | JNegZero | JNaN | JInf | JNegInf

definition is_finite_num :: "js_num \<Rightarrow> bool" where
  "is_finite_num n = (case n of JFin _ \<Rightarrow> True | JNegZero \<Rightarrow> True | _ \<Rightarrow> False)"

definition num_rat :: "js_num \<Rightarrow> rat" where
  "num_rat n = (case n of JFin q \<Rightarrow> q | _ \<Rightarrow> 0)"

definition is_int_rat :: "rat \<Rightarrow> bool" where
  "is_int_rat q \<longleftrightarrow> of_int \<lfloor>q\<rfloor> = q"

definition short_int :: "rat \<Rightarrow> bool" where
  "short_int q \<longleftrightarrow> is_int_rat q \<and> \<bar>q\<bar> < 10 ^ 21"

text \<open>\<open>Number.prototype.toString\<close> and, on finite numbers, \<open>JSON.stringify\<close>.\<close>

definition num_str :: "(rat \<Rightarrow> string) \<Rightarrow> rat \<Rightarrow> string" where
  "num_str fmt q = (if short_int q then int_str \<lfloor>q\<rfloor> else fmt q)"

definition num_to_string :: "(rat \<Rightarrow> string) \<Rightarrow> js_num \<Rightarrow> string" where
  "num_to_string fmt n = (case n of
     JFin q \<Rightarrow> num_str fmt q | JNegZero \<Rightarrow> ''0'' | JNaN \<Rightarrow> ''NaN''
   | JInf \<Rightarrow> ''Infinity'' | JNegInf \<Rightarrow> ''-Infinity'')"

definition num_char :: "char \<Rightarrow> bool" where
  "num_char c \<longleftrightarrow> is_digit c \<or> c \<in> {CHR ''-'', CHR ''+'', CHR ''.'', CHR ''e''}"

text \<open>What the model relies on of the number formatter: distinct numbers print differently, a
  number that is not a short integer prints with a point or an exponent, and only number
  characters occur.\<close>

definition fmt_ok :: "(rat \<Rightarrow> string) \<Rightarrow> bool" where
  "fmt_ok fmt \<longleftrightarrow>
     (\<forall>p q. \<not> short_int p \<longrightarrow> \<not> short_int q \<longrightarrow> fmt p = fmt q \<longrightarrow> p = q) \<and>
     (\<forall>q. \<not> short_int q \<longrightarrow> (CHR ''.'' \<in> set (fmt q) \<or> CHR ''e'' \<in> set (fmt q)) \<and>
        (\<forall>c \<in> set (fmt q). num_char c))"

lemma num_str_inject:
  assumes "fmt_ok fmt" and "num_str fmt p = num_str fmt q"
  shows "p = q"
proof -
  have no: "int_str i \<noteq> fmt r" if "\<not> short_int r" for i r
  proof
    assume eq: "int_str i = fmt r"
    from assms(1) that have "CHR ''.'' \<in> set (fmt r) \<or> CHR ''e'' \<in> set (fmt r)"
      by (simp add: fmt_ok_def)
    then have "CHR ''.'' \<in> set (int_str i) \<or> CHR ''e'' \<in> set (int_str i)"
      by (simp add: eq)
    then show False
      by (auto dest!: int_str_chars simp: is_digit_def code_def)
  qed
  show ?thesis
  proof (cases "short_int p")
    case True
    then have "short_int q" using assms(2) no [of q] by (auto simp: num_str_def split: if_splits)
    with True assms(2) have "\<lfloor>p\<rfloor> = \<lfloor>q\<rfloor>" by (simp add: num_str_def)
    with True \<open>short_int q\<close> show ?thesis
      unfolding short_int_def is_int_rat_def by metis
  next
    case False
    then have "\<not> short_int q" using assms(2) no [of p] by (auto simp: num_str_def split: if_splits)
    with False assms show ?thesis by (auto simp: num_str_def fmt_ok_def)
  qed
qed

lemma num_str_chars: "fmt_ok fmt \<Longrightarrow> c \<in> set (num_str fmt q) \<Longrightarrow> num_char c"
  by (auto simp: num_str_def fmt_ok_def num_char_def split: if_splits dest: int_str_chars)

lemma num_str_nonempty: "fmt_ok fmt \<Longrightarrow> num_str fmt q \<noteq> []"
  by (auto simp: num_str_def fmt_ok_def)

section \<open>Values\<close>

text \<open>The host objects reachable from a JSON value: the two prototypes and their methods.\<close>

datatype js_host = ObjectProto | ArrayProto | ObjectMethod string | ArrayMethod string

datatype jval =
    JUndef
  | JNull
  | JBool bool
  | JNum js_num
  | JStr string
  | JArr "jval list"
  | JObj "(string \<times> jval) list"
  | JHost js_host

definition jint :: "int \<Rightarrow> jval" where
  "jint i = JNum (JFin (of_int i))"

definition is_array :: "jval \<Rightarrow> bool" where
  "is_array v = (case v of JArr _ \<Rightarrow> True | _ \<Rightarrow> False)"

definition as_string :: "jval \<Rightarrow> string option" where
  "as_string v = (case v of JStr s \<Rightarrow> Some s | _ \<Rightarrow> None)"

lemma as_string_simps [simp]:
  "as_string (JStr s) = Some s" "as_string JUndef = None" "as_string JNull = None"
  "as_string (JNum n) = None" "as_string (JBool b) = None" "as_string (JArr xs) = None"
  "as_string (JObj kvs) = None"
  by (simp_all add: as_string_def)

lemma as_string_Some: "as_string v = Some s \<longleftrightarrow> v = JStr s"
  by (cases v) (auto simp: as_string_def)

text \<open>Own property of a plain object, \<open>undefined\<close> when absent; used where the source reads a
  fixed, non-inherited name.\<close>

definition own_prop :: "(string \<times> jval) list \<Rightarrow> string \<Rightarrow> jval" where
  "own_prop kvs k = (case map_of kvs k of Some v \<Rightarrow> v | None \<Rightarrow> JUndef)"

section \<open>Inherited members\<close>

text \<open>Reading a property that an object does not own finds the members of \<open>Object.prototype\<close>,
  and on an array those of \<open>Array.prototype\<close>; the source's \<open>readPath\<close> does not exclude them.\<close>

definition object_methods :: "string list" where
  "object_methods = [''constructor'', ''__defineGetter__'', ''__defineSetter__'',
     ''hasOwnProperty'', ''__lookupGetter__'', ''__lookupSetter__'', ''isPrototypeOf'',
     ''propertyIsEnumerable'', ''toString'', ''valueOf'', ''toLocaleString'']"

definition array_methods :: "string list" where
  "array_methods = [''constructor'', ''at'', ''concat'', ''copyWithin'', ''fill'', ''find'',
     ''findIndex'', ''findLast'', ''findLastIndex'', ''lastIndexOf'', ''pop'', ''push'',
     ''reverse'', ''shift'', ''unshift'', ''slice'', ''sort'', ''splice'', ''includes'',
     ''indexOf'', ''join'', ''keys'', ''entries'', ''values'', ''forEach'', ''filter'',
     ''flat'', ''flatMap'', ''map'', ''every'', ''some'', ''reduce'', ''reduceRight'',
     ''toReversed'', ''toSorted'', ''toSpliced'', ''toLocaleString'', ''toString'', ''with'']"

definition object_proto_get :: "string \<Rightarrow> jval" where
  "object_proto_get k =
     (if k = ''__proto__'' then JHost ObjectProto
      else if k \<in> set object_methods then JHost (ObjectMethod k)
      else JUndef)"

definition array_proto_get :: "string \<Rightarrow> jval" where
  "array_proto_get k =
     (if k = ''__proto__'' then JHost ArrayProto
      else if k \<in> set array_methods then JHost (ArrayMethod k)
      else object_proto_get k)"

text \<open>A canonical array index: \<open>0\<close> or digits without a leading zero.\<close>

definition array_index :: "string \<Rightarrow> nat option" where
  "array_index k =
     (if k \<noteq> [] \<and> list_all is_digit k \<and> (k = ''0'' \<or> hd k \<noteq> CHR ''0'')
      then Some (nat_of_digits k) else None)"

definition js_get :: "jval \<Rightarrow> string \<Rightarrow> jval" where
  "js_get v k = (case v of
     JObj kvs \<Rightarrow> (case map_of kvs k of Some w \<Rightarrow> w | None \<Rightarrow> object_proto_get k)
   | JArr xs \<Rightarrow>
       (case array_index k of
          Some i \<Rightarrow> if i < length xs then xs ! i else JUndef
        | None \<Rightarrow> if k = ''length'' then jint (int (length xs)) else array_proto_get k)
   | JHost ObjectProto \<Rightarrow> (if k = ''__proto__'' then JNull else object_proto_get k)
   | JHost ArrayProto \<Rightarrow>
       (if k = ''__proto__'' then JHost ObjectProto
        else if k = ''length'' then jint 0 else array_proto_get k)
   | _ \<Rightarrow> JUndef)"

text \<open>\<open>typeof v === 'object'\<close>; the methods are functions.\<close>

definition typeof_object :: "jval \<Rightarrow> bool" where
  "typeof_object v = (case v of
     JNull \<Rightarrow> True | JArr _ \<Rightarrow> True | JObj _ \<Rightarrow> True
   | JHost h \<Rightarrow> h = ObjectProto \<or> h = ArrayProto | _ \<Rightarrow> False)"

section \<open>Equality\<close>

definition num_eq :: "js_num \<Rightarrow> js_num \<Rightarrow> bool" where
  "num_eq a b \<longleftrightarrow> a \<noteq> JNaN \<and> b \<noteq> JNaN \<and>
     (a = b \<or> (is_finite_num a \<and> is_finite_num b \<and> num_rat a = num_rat b))"

text \<open>\<open>===\<close>. Arrays and objects compare by identity, which \<open>same\<close> says.\<close>

definition strict_eq :: "bool \<Rightarrow> jval \<Rightarrow> jval \<Rightarrow> bool" where
  "strict_eq same v w = (case v of
     JUndef \<Rightarrow> w = JUndef | JNull \<Rightarrow> w = JNull
   | JBool b \<Rightarrow> w = JBool b | JStr s \<Rightarrow> w = JStr s | JHost h \<Rightarrow> w = JHost h
   | JNum n \<Rightarrow> (case w of JNum m \<Rightarrow> num_eq n m | _ \<Rightarrow> False)
   | _ \<Rightarrow> same \<and> v = w)"

text \<open>The equality of \<open>Array.prototype.includes\<close>: as \<open>===\<close>, but \<open>NaN\<close> equals itself.\<close>

definition same_value_zero :: "jval \<Rightarrow> jval \<Rightarrow> bool" where
  "same_value_zero v w \<longleftrightarrow> strict_eq False v w \<or> (v = JNum JNaN \<and> w = JNum JNaN)"

definition js_includes :: "jval list \<Rightarrow> jval \<Rightarrow> bool" where
  "js_includes xs v \<longleftrightarrow> list_ex (\<lambda>x. same_value_zero x v) xs"

lemma strict_eq_JStr [simp]: "strict_eq same v (JStr s) \<longleftrightarrow> v = JStr s"
  by (cases v) (auto simp: strict_eq_def)

lemma strict_eq_JStr_left [simp]: "strict_eq same (JStr s) v \<longleftrightarrow> v = JStr s"
  by (auto simp: strict_eq_def)

lemma same_value_zero_JStr [simp]: "same_value_zero v (JStr s) \<longleftrightarrow> v = JStr s"
  by (simp add: same_value_zero_def)

lemma same_value_zero_JStr_left [simp]: "same_value_zero (JStr s) v \<longleftrightarrow> v = JStr s"
  by (simp add: same_value_zero_def)

lemma js_includes_JStr: "js_includes xs (JStr s) \<longleftrightarrow> JStr s \<in> set xs"
  by (auto simp: js_includes_def list_ex_iff)

lemma js_includes_strings:
  "js_includes (map JStr ws) v \<longleftrightarrow> (\<exists>w \<in> set ws. v = JStr w)"
  by (auto simp: js_includes_def list_ex_iff)

section \<open>Conversion to string and number\<close>

text \<open>\<open>ToString\<close>; \<open>None\<close> is the \<open>TypeError\<close> of an object whose own \<open>toString\<close> shadows the inherited
  method (JSON cannot supply a callable one). An array element that is null or undefined
  contributes the empty string.\<close>

definition host_string :: "js_host \<Rightarrow> string" where
  "host_string h = (case h of
     ObjectProto \<Rightarrow> ''[object Object]''
   | ArrayProto \<Rightarrow> ''''
   | ObjectMethod k \<Rightarrow>
       ''function '' @ (if k = ''constructor'' then ''Object'' else k) @ ''() { [native code] }''
   | ArrayMethod k \<Rightarrow>
       ''function '' @ (if k = ''constructor'' then ''Array'' else k) @ ''() { [native code] }'')"

fun js_to_string :: "(rat \<Rightarrow> string) \<Rightarrow> jval \<Rightarrow> string option"
and js_elem_string :: "(rat \<Rightarrow> string) \<Rightarrow> jval list \<Rightarrow> string list option" where
  "js_to_string fmt JUndef = Some ''undefined''"
| "js_to_string fmt JNull = Some ''null''"
| "js_to_string fmt (JBool b) = Some (if b then ''true'' else ''false'')"
| "js_to_string fmt (JNum n) = Some (num_to_string fmt n)"
| "js_to_string fmt (JStr s) = Some s"
| "js_to_string fmt (JArr xs) = map_option (join '','') (js_elem_string fmt xs)"
| "js_to_string fmt (JObj kvs) =
     (if ''toString'' \<in> set (map fst kvs) then None else Some ''[object Object]'')"
| "js_to_string fmt (JHost h) = Some (host_string h)"
| "js_elem_string fmt [] = Some []"
| "js_elem_string fmt (x # xs) =
     (case (if x = JUndef \<or> x = JNull then Some '''' else js_to_string fmt x) of
        None \<Rightarrow> None
      | Some s \<Rightarrow> map_option ((#) s) (js_elem_string fmt xs))"

text \<open>\<open>xs.join(sep)\<close>.\<close>

definition js_join :: "(rat \<Rightarrow> string) \<Rightarrow> string \<Rightarrow> jval list \<Rightarrow> string option" where
  "js_join fmt sep xs = map_option (join sep) (js_elem_string fmt xs)"

text \<open>\<open>StringToNumber\<close>: surrounding whitespace is ignored, the empty string is 0, then a decimal
  literal with optional sign, fraction and exponent, \<open>Infinity\<close>, or an unsigned hexadecimal,
  octal or binary literal; anything else is \<open>NaN\<close>.\<close>

definition hex_digit :: "char \<Rightarrow> nat option" where
  "hex_digit c =
     (if is_digit c then Some (code c - 48)
      else if 97 \<le> code c \<and> code c \<le> 102 then Some (code c - 87)
      else if 65 \<le> code c \<and> code c \<le> 70 then Some (code c - 55) else None)"

fun radix_value :: "nat \<Rightarrow> nat \<Rightarrow> string \<Rightarrow> nat option" where
  "radix_value b acc [] = Some acc"
| "radix_value b acc (c # s) =
     (case hex_digit c of
        None \<Rightarrow> None
      | Some d \<Rightarrow> if d < b then radix_value b (b * acc + d) s else None)"

definition parse_exponent :: "string \<Rightarrow> int option" where
  "parse_exponent s =
     (case s of
        [] \<Rightarrow> Some 0
      | c # t \<Rightarrow>
          if c = CHR ''e'' \<or> c = CHR ''E'' then
            (let neg = (t \<noteq> [] \<and> hd t = CHR ''-'');
                 ds = (if t \<noteq> [] \<and> (hd t = CHR ''-'' \<or> hd t = CHR ''+'') then tl t else t)
             in if ds \<noteq> [] \<and> list_all is_digit ds
                then Some (if neg then - int (nat_of_digits ds) else int (nat_of_digits ds))
                else None)
          else None)"

definition ten_power :: "int \<Rightarrow> rat" where
  "ten_power e = (if 0 \<le> e then 10 ^ nat e else 1 / 10 ^ nat (- e))"

definition parse_unsigned_decimal :: "string \<Rightarrow> rat option" where
  "parse_unsigned_decimal s =
     (let ip = takeWhile is_digit s; r = dropWhile is_digit s;
          fp = (if r \<noteq> [] \<and> hd r = CHR ''.'' then takeWhile is_digit (tl r) else []);
          r' = (if r \<noteq> [] \<and> hd r = CHR ''.'' then dropWhile is_digit (tl r) else r)
      in if ip = [] \<and> fp = [] then None
         else map_option
           (\<lambda>e. of_nat (nat_of_digits (ip @ fp)) * ten_power (e - int (length fp)))
           (parse_exponent r'))"

definition js_string_to_num :: "string \<Rightarrow> js_num" where
  "js_string_to_num s =
     (let t = trim s in
      if t = [] then JFin 0
      else if starts_with (to_lower t) ''0x'' \<and> 2 < length t then
        (case radix_value 16 0 (drop 2 t) of None \<Rightarrow> JNaN | Some n \<Rightarrow> JFin (of_nat n))
      else if starts_with (to_lower t) ''0o'' \<and> 2 < length t then
        (case radix_value 8 0 (drop 2 t) of None \<Rightarrow> JNaN | Some n \<Rightarrow> JFin (of_nat n))
      else if starts_with (to_lower t) ''0b'' \<and> 2 < length t then
        (case radix_value 2 0 (drop 2 t) of None \<Rightarrow> JNaN | Some n \<Rightarrow> JFin (of_nat n))
      else if t = ''Infinity'' \<or> t = ''+Infinity'' then JInf
      else if t = ''-Infinity'' then JNegInf
      else if hd t = CHR ''-'' then
        (case parse_unsigned_decimal (tl t) of
           None \<Rightarrow> JNaN | Some q \<Rightarrow> if q = 0 then JNegZero else JFin (- q))
      else
        (case parse_unsigned_decimal (if hd t = CHR ''+'' then tl t else t) of
           None \<Rightarrow> JNaN | Some q \<Rightarrow> JFin q))"

text \<open>\<open>Number(v)\<close>; \<open>None\<close> is a thrown \<open>TypeError\<close>.\<close>

definition js_to_num :: "(rat \<Rightarrow> string) \<Rightarrow> jval \<Rightarrow> js_num option" where
  "js_to_num fmt v = (case v of
     JUndef \<Rightarrow> Some JNaN
   | JNull \<Rightarrow> Some (JFin 0)
   | JBool b \<Rightarrow> Some (JFin (if b then 1 else 0))
   | JNum n \<Rightarrow> Some n
   | _ \<Rightarrow> map_option js_string_to_num (js_to_string fmt v))"

lemma js_to_num_JNum [simp]: "js_to_num fmt (JNum n) = Some n"
  by (simp add: js_to_num_def)

lemma js_to_num_None: "js_to_num fmt v = None \<Longrightarrow> js_to_string fmt v = None"
  by (cases v) (auto simp: js_to_num_def)

end
