(* ===== verification/Iso_Date.thy ===== *)
theory Iso_Date
  imports Js_Text
begin

text \<open>
  \<open>Date.prototype.toISOString\<close>, which the audit chain hashes: a time value (milliseconds since
  1970-01-01 UTC) is split into proleptic Gregorian fields and printed. The lemma
  \<open>iso_string_inject\<close> says that the printed form determines the time value. A \<open>Date\<close> holds
  either a time value of at most \<open>8.64e15\<close> in magnitude or none (an invalid date, on which
  \<open>toISOString\<close> throws a \<open>RangeError\<close>).
\<close>

section \<open>Calendar\<close>

text \<open>Days since 1970-01-01 into year, month and day. Years start in March, so a leap day is the
  last day of its year; an era is 400 years.\<close>

definition era_day :: "int \<Rightarrow> int" where
  "era_day z = (z + 719468) mod 146097"

definition era_century :: "int \<Rightarrow> int" where
  "era_century doe = min 3 (doe div 36524)"

definition century_day :: "int \<Rightarrow> int" where
  "century_day doe = doe - 36524 * era_century doe"

definition quad_day :: "int \<Rightarrow> int" where
  "quad_day doe = century_day doe mod 1461"

definition quad_year :: "int \<Rightarrow> int" where
  "quad_year doe = min 3 (quad_day doe div 365)"

definition year_of_era :: "int \<Rightarrow> int" where
  "year_of_era doe = 100 * era_century doe + 4 * (century_day doe div 1461) + quad_year doe"

definition day_of_year :: "int \<Rightarrow> int" where
  "day_of_year doe = quad_day doe - 365 * quad_year doe"

definition civil_of_days :: "int \<Rightarrow> int \<times> int \<times> int" where
  "civil_of_days z =
     (let era = (z + 719468) div 146097; doe = era_day z; doy = day_of_year doe;
          mp = (5 * doy + 2) div 153; m = (if mp < 10 then mp + 3 else mp - 9)
      in (year_of_era doe + 400 * era + (if m \<le> 2 then 1 else 0), m,
          doy - (153 * mp + 2) div 5 + 1))"

definition days_of_civil :: "int \<times> int \<times> int \<Rightarrow> int" where
  "days_of_civil = (\<lambda>(y, m, d).
     (let y' = (if m \<le> 2 then y - 1 else y); era = y' div 400; yoe = y' mod 400;
          mp = (if m > 2 then m - 3 else m + 9);
          c = yoe div 100; q = (yoe mod 100) div 4; k = yoe mod 4
      in 146097 * era + 36524 * c + 1461 * q + 365 * k + (153 * mp + 2) div 5 + d - 1 - 719468))"

lemma era_day_range: "0 \<le> era_day z \<and> era_day z < 146097"
  by (simp add: era_day_def)

lemma year_parts:
  assumes "0 \<le> doe" and "doe < 146097"
  shows "0 \<le> era_century doe" "era_century doe \<le> 3"
    "0 \<le> century_day doe div 1461" "century_day doe div 1461 \<le> 24"
    "0 \<le> quad_year doe" "quad_year doe \<le> 3"
    "0 \<le> day_of_year doe" "day_of_year doe \<le> 365"
proof -
  show c: "0 \<le> era_century doe" "era_century doe \<le> 3"
    using assms by (auto simp: era_century_def)
  have "36524 * era_century doe \<le> doe"
    using assms unfolding era_century_def by linarith
  moreover have "doe \<le> 36524 * era_century doe + 36524"
    using assms unfolding era_century_def by linarith
  ultimately have cd: "0 \<le> century_day doe" "century_day doe \<le> 36524"
    by (auto simp: century_day_def)
  then show "0 \<le> century_day doe div 1461" "century_day doe div 1461 \<le> 24" by auto
  have q: "0 \<le> quad_day doe" "quad_day doe \<le> 1460"
    by (auto simp: quad_day_def)
  show "0 \<le> quad_year doe" "quad_year doe \<le> 3"
    using q by (auto simp: quad_year_def)
  show "0 \<le> day_of_year doe" "day_of_year doe \<le> 365"
    using q unfolding day_of_year_def quad_year_def by linarith+
qed

lemma mixed_radix_year:
  fixes c q k :: int
  assumes "0 \<le> c" "c \<le> 3" "0 \<le> q" "q \<le> 24" "0 \<le> k" "k \<le> 3"
  shows "(100 * c + 4 * q + k) div 100 = c" "((100 * c + 4 * q + k) mod 100) div 4 = q"
    "(100 * c + 4 * q + k) mod 4 = k" "0 \<le> 100 * c + 4 * q + k" "100 * c + 4 * q + k < 400"
proof -
  have low: "(4 * q + k) div 100 = 0" "(4 * q + k) mod 100 = 4 * q + k"
    using assms by (auto intro: div_pos_pos_trivial mod_pos_pos_trivial)
  have sum: "100 * c + 4 * q + k = (4 * q + k) + 100 * c"
    and sum4: "100 * c + 4 * q + k = 4 * (25 * c + q) + k" by simp_all
  show "(100 * c + 4 * q + k) div 100 = c"
    unfolding sum using low(1) by simp
  show "((100 * c + 4 * q + k) mod 100) div 4 = q"
    unfolding sum mod_mult_self2 low(2) using assms by simp
  show "(100 * c + 4 * q + k) mod 4 = k"
    unfolding sum4 mod_mult_self4 using assms by simp
qed (use assms in auto)

lemma month_start: "0 \<le> doy \<Longrightarrow> (153 * ((5 * doy + 2) div 153) + 2) div 5 \<le> (doy :: int)"
proof -
  have "153 * ((5 * doy + 2) div 153) \<le> 5 * doy + 2" by simp
  then have "(153 * ((5 * doy + 2) div 153) + 2) div 5 \<le> (5 * doy + 4) div 5"
    by (intro zdiv_mono1) auto
  also have "\<dots> = doy" by simp
  finally show ?thesis .
qed

lemma year_of_era_split:
  assumes "0 \<le> doe" and "doe < 146097"
  shows "year_of_era doe div 100 = era_century doe"
    "(year_of_era doe mod 100) div 4 = century_day doe div 1461"
    "year_of_era doe mod 4 = quad_year doe"
    "0 \<le> year_of_era doe" "year_of_era doe < 400"
  unfolding year_of_era_def by (rule mixed_radix_year [OF year_parts(1-6) [OF assms]])+

lemma era_day_parts:
  "doe = 36524 * era_century doe + 1461 * (century_day doe div 1461) + 365 * quad_year doe
     + day_of_year doe"
  by (simp add: day_of_year_def quad_day_def century_day_def minus_mult_div_eq_mod [symmetric])

lemma days_of_civil_of_days: "days_of_civil (civil_of_days z) = z"
proof -
  let ?doe = "era_day z" and ?era = "(z + 719468) div 146097"
  let ?doy = "day_of_year ?doe"
  let ?mp = "(5 * ?doy + 2) div 153"
  let ?m = "if ?mp < 10 then ?mp + 3 else ?mp - 9"
  have r: "0 \<le> ?doe" "?doe < 146097" using era_day_range by auto
  note yp = year_parts [OF r] and ys = year_of_era_split [OF r]
  have mp: "0 \<le> ?mp" "?mp \<le> 11" using yp(7,8) by auto
  have m: "(if 2 < ?m then ?m - 3 else ?m + 9) = ?mp" using mp by auto
  have y: "(if ?m \<le> 2 then year_of_era ?doe + 400 * ?era + (if ?m \<le> 2 then 1 else 0) - 1
      else year_of_era ?doe + 400 * ?era + (if ?m \<le> 2 then 1 else 0)) = year_of_era ?doe + 400 * ?era"
    by simp
  have ye: "(year_of_era ?doe + 400 * ?era) div 400 = ?era"
    "(year_of_era ?doe + 400 * ?era) mod 400 = year_of_era ?doe"
    using ys(4,5) by auto
  have z: "z + 719468 = 146097 * ?era + ?doe"
    by (simp add: era_day_def)
  show ?thesis
    unfolding civil_of_days_def days_of_civil_def Let_def prod.case y m ye ys(1,2,3)
    using z era_day_parts [of ?doe] by linarith
qed

lemma civil_of_days_fields:
  "civil_of_days z = (y, m, d) \<Longrightarrow> 0 \<le> m \<and> 1 \<le> d"
  using year_parts [of "era_day z"] era_day_range [of z] month_start [of "day_of_year (era_day z)"]
  by (auto simp: civil_of_days_def Let_def split: if_splits)

section \<open>Printing\<close>

definition pad :: "nat \<Rightarrow> nat \<Rightarrow> string" where
  "pad w n = replicate (w - length (nat_str n)) (CHR ''0'') @ nat_str n"

lemma nat_of_digits_zeros: "nat_of_digits (replicate k (CHR ''0'') @ s) = nat_of_digits s"
  by (induction k) (simp_all add: nat_of_digits_def code_def)

lemma pad_inject [simp]: "pad w m = pad w n \<longleftrightarrow> m = n"
  by (metis nat_of_digits_nat_str nat_of_digits_zeros pad_def)

lemma pad_digits: "c \<in> set (pad w n) \<Longrightarrow> is_digit c"
  by (auto simp: pad_def is_digit_def code_def dest: nat_str_digits [unfolded is_digit_def code_def])

lemma pad_no_delim:
  "CHR ''-'' \<notin> set (pad w n)" "CHR '':'' \<notin> set (pad w n)" "CHR ''.'' \<notin> set (pad w n)"
  "CHR ''T'' \<notin> set (pad w n)" "CHR ''Z'' \<notin> set (pad w n)" "CHR ''+'' \<notin> set (pad w n)"
  "CHR 0x22 \<notin> set (pad w n)" "CHR 0x5C \<notin> set (pad w n)"
  using pad_digits [of _ w n] by (fastforce simp: is_digit_def code_def)+

definition year_str :: "int \<Rightarrow> string" where
  "year_str y =
     (if 0 \<le> y \<and> y \<le> 9999 then pad 4 (nat y)
      else if 0 < y then ''+'' @ pad 6 (nat y) else ''-'' @ pad 6 (nat (- y)))"

lemma year_str_inject: "year_str y = year_str y' \<longleftrightarrow> y = y'"
proof -
  have "c # s \<noteq> pad 4 n" "pad 4 n \<noteq> c # s" if "c = CHR ''+'' \<or> c = CHR ''-''" for c s n
    using that pad_no_delim(1,6) [of 4 n] by (metis list.set_intros(1))+
  then show ?thesis by (auto simp: year_str_def)
qed

definition iso_string :: "int \<Rightarrow> string" where
  "iso_string t =
     (let days = t div 86400000; ms = t mod 86400000 in
      case civil_of_days days of (y, m, d) \<Rightarrow>
        year_str y @ ''-'' @ pad 2 (nat m) @ ''-'' @ pad 2 (nat d) @ ''T''
        @ pad 2 (nat (ms div 3600000)) @ '':'' @ pad 2 (nat (ms div 60000 mod 60)) @ '':''
        @ pad 2 (nat (ms div 1000 mod 60)) @ ''.'' @ pad 3 (nat (ms mod 1000)) @ ''Z'')"

lemma time_of_day_parts:
  fixes x :: int
  shows "x = 3600000 * (x div 3600000) + 60000 * (x div 60000 mod 60)
    + 1000 * (x div 1000 mod 60) + x mod 1000"
proof -
  have "x div 60000 div 60 = x div 3600000" "x div 1000 div 60 = x div 60000"
    by (simp_all flip: zdiv_zmult2_eq)
  moreover have "x div 60000 = 60 * (x div 60000 div 60) + x div 60000 mod 60"
    "x div 1000 = 60 * (x div 1000 div 60) + x div 1000 mod 60"
    "x = 1000 * (x div 1000) + x mod 1000"
    by simp_all
  ultimately show ?thesis by linarith
qed

lemma time_of_day_split:
  fixes a b :: int
  assumes "a div 3600000 = b div 3600000" "a div 60000 mod 60 = b div 60000 mod 60"
    "a div 1000 mod 60 = b div 1000 mod 60" "a mod 1000 = b mod 1000"
  shows "a = b"
  using time_of_day_parts [of a] time_of_day_parts [of b] assms by linarith

lemma pad_nat_inject: "0 \<le> i \<Longrightarrow> 0 \<le> j \<Longrightarrow> pad w (nat i) = pad w (nat j) \<longleftrightarrow> i = j"
  by (simp add: eq_nat_nat_iff)

lemma iso_string_inject: "iso_string s = iso_string t \<longleftrightarrow> s = t"
proof
  assume eq: "iso_string s = iso_string t"
  obtain y m d where c: "civil_of_days (s div 86400000) = (y, m, d)" by (metis prod_cases3)
  obtain y' m' d' where c': "civil_of_days (t div 86400000) = (y', m', d')" by (metis prod_cases3)
  define a b where ab: "a = s mod 86400000" "b = t mod 86400000"
  have nn: "0 \<le> a" "0 \<le> b" by (simp_all add: ab)
  note strip = delim_unique_last [OF pad_no_delim(1) pad_no_delim(1)]
    delim_unique_last [OF pad_no_delim(2) pad_no_delim(2)]
    delim_unique_last [OF pad_no_delim(3) pad_no_delim(3)]
    delim_unique_last [OF pad_no_delim(4) pad_no_delim(4)]
  have "((((((year_str y @ CHR ''-'' # pad 2 (nat m)) @ CHR ''-'' # pad 2 (nat d))
      @ CHR ''T'' # pad 2 (nat (a div 3600000))) @ CHR '':'' # pad 2 (nat (a div 60000 mod 60)))
      @ CHR '':'' # pad 2 (nat (a div 1000 mod 60))) @ CHR ''.'' # pad 3 (nat (a mod 1000))) @ ''Z''
    = ((((((year_str y' @ CHR ''-'' # pad 2 (nat m')) @ CHR ''-'' # pad 2 (nat d'))
      @ CHR ''T'' # pad 2 (nat (b div 3600000))) @ CHR '':'' # pad 2 (nat (b div 60000 mod 60)))
      @ CHR '':'' # pad 2 (nat (b div 1000 mod 60))) @ CHR ''.'' # pad 3 (nat (b mod 1000))) @ ''Z''"
    using eq unfolding iso_string_def Let_def c c' ab [symmetric] prod.case append_assoc
    by (simp only: append_Cons append_Nil)
  note 0 = this [unfolded append_same_eq]
  note 1 = strip(3) [OF 0]
  note 2 = strip(2) [OF 1 [THEN conjunct1]]
  note 3 = strip(2) [OF 2 [THEN conjunct1]]
  note 4 = strip(4) [OF 3 [THEN conjunct1]]
  note 5 = strip(1) [OF 4 [THEN conjunct1]]
  note 6 = strip(1) [OF 5 [THEN conjunct1]]
  have "0 \<le> m" "0 \<le> m'" "0 \<le> d" "0 \<le> d'"
    using civil_of_days_fields [OF c] civil_of_days_fields [OF c'] by simp_all
  with 5 [THEN conjunct2] 6 have "y = y'" "m = m'" "d = d'"
    by (simp_all only: year_str_inject pad_nat_inject)
  then have days: "s div 86400000 = t div 86400000"
    using c c' by (metis days_of_civil_of_days)
  have "a = b"
  proof (rule time_of_day_split)
    show "a div 3600000 = b div 3600000"
      using 4 [THEN conjunct2] nn by (simp only: pad_nat_inject pos_imp_zdiv_nonneg_iff zero_less_numeral)
    show "a div 60000 mod 60 = b div 60000 mod 60"
      using 3 [THEN conjunct2] by (simp only: pad_nat_inject pos_mod_sign zero_less_numeral)
    show "a div 1000 mod 60 = b div 1000 mod 60"
      using 2 [THEN conjunct2] by (simp only: pad_nat_inject pos_mod_sign zero_less_numeral)
    show "a mod 1000 = b mod 1000"
      using 1 [THEN conjunct2] by (simp only: pad_nat_inject pos_mod_sign zero_less_numeral)
  qed
  with days show "s = t" unfolding ab by (metis mult_div_mod_eq)
qed simp

lemma iso_string_example: "iso_string 1767323045000 = ''2026-01-02T03:04:05.000Z''"
  by code_simp

text \<open>A \<open>Date\<close> object.\<close>

type_synonym js_date = "int option"

definition to_iso :: "js_date \<Rightarrow> (string, string) result" where
  "to_iso d = (case d of
     None \<Rightarrow> Inl ''RangeError: Invalid time value''
   | Some t \<Rightarrow> if \<bar>t\<bar> \<le> 8640000000000000 then Inr (iso_string t)
               else Inl ''RangeError: Invalid time value'')"

lemma to_iso_Inr: "to_iso d = Inr s \<longleftrightarrow> (\<exists>t. d = Some t \<and> \<bar>t\<bar> \<le> 8640000000000000 \<and> s = iso_string t)"
  by (auto simp: to_iso_def split: option.splits)

end
