(* ===== verification/Canonical.thy ===== *)
theory Canonical
  imports Js_Value Iso_Date "HOL-Library.Multiset"
begin

text \<open>
  Canonical JSON and the digests built on it (\<open>packages/shared/src/canonical.ts\<close>). The encoder is
  modelled with its error paths; \<open>json_of\<close> is its specification, the JSON document a value denotes,
  and \<open>print_json\<close> the canonical text of a document. SHA-256 (\<open>node:crypto\<close>) is the parameter
  \<open>sha\<close>, returning the lowercase hexadecimal digest.
\<close>

section \<open>Values\<close>

text \<open>The type \<open>CanonicalValue\<close>. \<open>CBack\<close> is a reference to an enclosing array or object: it is what
  makes a structure circular.\<close>

datatype cval =
    CUndef
  | CNull
  | CBool bool
  | CNum js_num
  | CBig int
  | CStr string
  | CDate js_date
  | CArr "cval list"
  | CObj "(string \<times> cval) list"
  | CBack nat

datatype canon_error = NonFinite | Circular | BadDate

section \<open>String literals: \<open>JSON.stringify\<close> on a string\<close>

definition hex_char :: "nat \<Rightarrow> char" where
  "hex_char d = char_of (if d < 10 then 48 + d else 87 + d)"

definition json_escape :: "char \<Rightarrow> string" where
  "json_escape c =
     (if c = CHR 0x22 then [CHR 0x5C, CHR 0x22]
      else if c = CHR 0x5C then [CHR 0x5C, CHR 0x5C]
      else if code c = 8 then [CHR 0x5C, CHR ''b'']
      else if code c = 9 then [CHR 0x5C, CHR ''t'']
      else if code c = 10 then [CHR 0x5C, CHR ''n'']
      else if code c = 12 then [CHR 0x5C, CHR ''f'']
      else if code c = 13 then [CHR 0x5C, CHR ''r'']
      else if code c < 32
      then [CHR 0x5C, CHR ''u'', CHR ''0'', CHR ''0'', hex_char (code c div 16), hex_char (code c mod 16)]
      else [c])"

definition json_quote :: "string \<Rightarrow> string" where
  "json_quote s = CHR 0x22 # concat (map json_escape s) @ [CHR 0x22]"

section \<open>The encoder\<close>

lemma size_list_sort_key [simp]: "size_list f (sort_key g xs) = size_list f xs"
proof -
  have "mset (map f (sort_key g xs)) = mset (map f xs)"
    by (metis mset_map mset_sort)
  then have "sum_list (map f (sort_key g xs)) = sum_list (map f xs)"
    by (metis sum_mset_sum_list)
  then show ?thesis by (simp add: size_list_conv_sum_list)
qed

text \<open>\<open>encode\<close>: \<open>Inr None\<close> is the returned \<open>undefined\<close>, \<open>Inl\<close> a thrown \<open>TypeError\<close> or \<open>RangeError\<close>.
  Array items are encoded in order, object members in the order of their sorted keys.\<close>

function encode :: "(rat \<Rightarrow> string) \<Rightarrow> cval \<Rightarrow> (canon_error, string option) result"
and encode_items :: "(rat \<Rightarrow> string) \<Rightarrow> cval list \<Rightarrow> (canon_error, string list) result"
and encode_props ::
    "(rat \<Rightarrow> string) \<Rightarrow> (string \<times> cval) list \<Rightarrow> (canon_error, string list) result" where
  "encode fmt CUndef = Inr None"
| "encode fmt CNull = Inr (Some ''null'')"
| "encode fmt (CBool b) = Inr (Some (if b then ''true'' else ''false''))"
| "encode fmt (CNum n) =
     (if \<not> is_finite_num n then Inl NonFinite
      else if n = JNegZero then Inr (Some ''0'') else Inr (Some (num_to_string fmt n)))"
| "encode fmt (CBig i) = Inr (Some (json_quote (int_str i)))"
| "encode fmt (CStr s) = Inr (Some (json_quote s))"
| "encode fmt (CDate d) =
     (case to_iso d of Inl e \<Rightarrow> Inl BadDate | Inr s \<Rightarrow> Inr (Some (json_quote s)))"
| "encode fmt (CBack n) = Inl Circular"
| "encode fmt (CArr xs) =
     bind_result (encode_items fmt xs) (\<lambda>items. Inr (Some (''['' @ join '','' items @ '']'')))"
| "encode fmt (CObj kvs) =
     bind_result (encode_props fmt (sort_key fst kvs))
       (\<lambda>parts. Inr (Some (''{'' @ join '','' parts @ ''}'')))"
| "encode_items fmt [] = Inr []"
| "encode_items fmt (x # xs) =
     bind_result (encode fmt x) (\<lambda>e.
       bind_result (encode_items fmt xs) (\<lambda>es. Inr (or_default e ''null'' # es)))"
| "encode_props fmt [] = Inr []"
| "encode_props fmt ((k, v) # kvs) =
     bind_result (encode fmt v) (\<lambda>e.
       bind_result (encode_props fmt kvs) (\<lambda>ps.
         case e of None \<Rightarrow> Inr ps | Some s \<Rightarrow> Inr ((json_quote k @ '':'' @ s) # ps)))"
  by pat_completeness auto
termination
  by (relation "measure (\<lambda>x. case x of
        Inl (_, v) \<Rightarrow> size v
      | Inr (Inl (_, vs)) \<Rightarrow> size_list size vs
      | Inr (Inr (_, kvs)) \<Rightarrow> size_list (size_prod (\<lambda>_. 0) size) kvs)") auto

definition canonicalize :: "(rat \<Rightarrow> string) \<Rightarrow> cval \<Rightarrow> (canon_error, string) result" where
  "canonicalize fmt v = bind_result (encode fmt v) (\<lambda>out. Inr (or_default out ''null''))"

definition sha256Canonical ::
    "(string \<Rightarrow> string) \<Rightarrow> (rat \<Rightarrow> string) \<Rightarrow> cval \<Rightarrow> (canon_error, string) result" where
  "sha256Canonical sha fmt v = bind_result (canonicalize fmt v) (\<lambda>s. Inr (sha s))"

definition sha256Hex :: "(string \<Rightarrow> string) \<Rightarrow> string \<Rightarrow> string" where
  "sha256Hex sha input = sha input"

definition scopeDigest :: "(string \<Rightarrow> string) \<Rightarrow> string list \<Rightarrow> string" where
  "scopeDigest sha scopes =
     (let normalised = sort (nub (filter (\<lambda>s. 0 < length s) scopes))
      in take 16 (sha256Hex sha (join '' '' normalised)))"

section \<open>Specification: the JSON document a value denotes\<close>

datatype json =
    NNull
  | NBool bool
  | NNum rat
  | NStr string
  | NArr "json list"
  | NObj "(string \<times> json) list"

text \<open>\<open>None\<close>: not representable. The members of an object are a list sorted by key without the
  undefined ones; \<open>JOpt None\<close> at the top is \<open>undefined\<close>.\<close>

fun json_of :: "cval \<Rightarrow> json option option"
and json_items :: "cval list \<Rightarrow> json list option"
and json_props :: "(string \<times> cval) list \<Rightarrow> (string \<times> json) list option" where
  "json_of CUndef = Some None"
| "json_of CNull = Some (Some NNull)"
| "json_of (CBool b) = Some (Some (NBool b))"
| "json_of (CNum n) = (if is_finite_num n then Some (Some (NNum (num_rat n))) else None)"
| "json_of (CBig i) = Some (Some (NStr (int_str i)))"
| "json_of (CStr s) = Some (Some (NStr s))"
| "json_of (CDate d) = (case to_iso d of Inl e \<Rightarrow> None | Inr s \<Rightarrow> Some (Some (NStr s)))"
| "json_of (CBack n) = None"
| "json_of (CArr xs) = map_option (\<lambda>js. Some (NArr js)) (json_items xs)"
| "json_of (CObj kvs) = map_option (\<lambda>ps. Some (NObj (sort_key fst ps))) (json_props kvs)"
| "json_items [] = Some []"
| "json_items (x # xs) =
     (case (json_of x, json_items xs) of
        (Some j, Some js) \<Rightarrow> Some (or_default j NNull # js)
      | _ \<Rightarrow> None)"
| "json_props [] = Some []"
| "json_props ((k, v) # kvs) =
     (case (json_of v, json_props kvs) of
        (Some None, Some ps) \<Rightarrow> Some ps
      | (Some (Some j), Some ps) \<Rightarrow> Some ((k, j) # ps)
      | _ \<Rightarrow> None)"

definition json_value :: "cval \<Rightarrow> json option" where
  "json_value v = map_option (\<lambda>j. or_default j NNull) (json_of v)"

fun print_json :: "(rat \<Rightarrow> string) \<Rightarrow> json \<Rightarrow> string"
and print_items :: "(rat \<Rightarrow> string) \<Rightarrow> json list \<Rightarrow> string list"
and print_members :: "(rat \<Rightarrow> string) \<Rightarrow> (string \<times> json) list \<Rightarrow> string list" where
  "print_json fmt NNull = ''null''"
| "print_json fmt (NBool b) = (if b then ''true'' else ''false'')"
| "print_json fmt (NNum q) = num_str fmt q"
| "print_json fmt (NStr s) = json_quote s"
| "print_json fmt (NArr js) = ''['' @ join '','' (print_items fmt js) @ '']''"
| "print_json fmt (NObj ps) = ''{'' @ join '','' (print_members fmt ps) @ ''}''"
| "print_items fmt [] = []"
| "print_items fmt (j # js) = print_json fmt j # print_items fmt js"
| "print_members fmt [] = []"
| "print_members fmt ((k, j) # ps) =
     (json_quote k @ '':'' @ print_json fmt j) # print_members fmt ps"

lemmas encode_simps = encode.simps encode_items.simps encode_props.simps

section \<open>The encoder meets its specification\<close>

lemma json_props_keys: "json_props kvs = Some ps \<Longrightarrow> set (map fst ps) \<subseteq> set (map fst kvs)"
proof (induction kvs arbitrary: ps)
  case (Cons kv kvs)
  obtain k v where kv: "kv = (k, v)" by (cases kv)
  with Cons.prems obtain j qs where "json_of v = Some j" and qs: "json_props kvs = Some qs"
    and "ps = (case j of None \<Rightarrow> qs | Some x \<Rightarrow> (k, x) # qs)"
    by (auto split: option.splits)
  then show ?case using Cons.IH [OF qs] kv by (auto split: option.splits)
qed simp

lemma insort_key_le_all:
  "\<forall>y \<in> set ys. f x \<le> f y \<Longrightarrow> insort_key f x ys = x # ys"
  by (cases ys) auto

lemma json_props_insort:
  "sorted (map fst kvs) \<Longrightarrow>
     json_props (insort_key fst (k, v) kvs) =
       (case (json_of v, json_props kvs) of
          (Some None, Some ps) \<Rightarrow> Some ps
        | (Some (Some j), Some ps) \<Rightarrow> Some (insort_key fst (k, j) ps)
        | _ \<Rightarrow> None)"
proof (induction kvs)
  case Nil
  then show ?case by (simp split: option.splits)
next
  case (Cons kv kvs)
  obtain k' v' where kv: "kv = (k', v')" by (cases kv)
  have le: "insort_key fst (k, j) ps = (k, j) # ps"
    if "k \<le> k'" and "json_props kvs = Some ps" for j ps
  proof (rule insort_key_le_all)
    show "\<forall>y \<in> set ps. fst (k, j) \<le> fst y"
      using json_props_keys [OF that(2)] Cons.prems that(1) kv by fastforce
  qed
  show ?case
  proof (cases "k \<le> k'")
    case True
    then show ?thesis
      using le kv by (auto split: option.splits)
  next
    case False
    with Cons show ?thesis
      by (auto simp: kv split: option.splits)
  qed
qed

lemma json_props_sort:
  "json_props (sort_key fst kvs) = map_option (sort_key fst) (json_props kvs)"
proof (induction kvs)
  case (Cons kv kvs)
  obtain k v where kv: "kv = (k, v)" by (cases kv)
  have "sorted (map fst (sort_key fst kvs))" by simp
  from json_props_insort [OF this, of k v] Cons show ?case
    by (auto simp: kv split: option.splits)
qed simp

lemma encode_json:
  "json_of v = Some j \<Longrightarrow> encode fmt v = Inr (map_option (print_json fmt) j)"
  "json_items vs = Some js \<Longrightarrow> encode_items fmt vs = Inr (print_items fmt js)"
  "json_props kvs = Some ps \<Longrightarrow> encode_props fmt kvs = Inr (print_members fmt ps)"
proof (induction fmt v and fmt vs and fmt kvs arbitrary: j and js and ps
    rule: encode_encode_items_encode_props.induct)
  case (4 fmt n)
  then show ?case
    by (auto simp: is_finite_num_def num_rat_def num_to_string_def num_str_def int_str_def
        short_int_def is_int_rat_def nat_str_0
        split: if_splits js_num.splits)
next
  case (10 fmt kvs)
  then obtain ps where ps: "json_props kvs = Some ps" "j = Some (NObj (sort_key fst ps))"
    by (auto split: option.splits)
  then have "json_props (sort_key fst kvs) = Some (sort_key fst ps)"
    by (simp add: json_props_sort)
  from "10.IH" [OF this] ps show ?case by simp
next
  case (12 fmt x xs)
  then obtain e es where *: "json_of x = Some e" "json_items xs = Some es" "js = or_default e NNull # es"
    by (auto split: option.splits)
  with 12 show ?case
    by (cases e) (auto simp: or_default_def)
next
  case (14 fmt k v kvs)
  from "14.prems" show ?case
    by (auto split: option.splits simp: "14.IH")
qed (auto split: sum.splits)

lemma encode_fails:
  "json_of v = None \<Longrightarrow> \<exists>e. encode fmt v = Inl e"
  "json_items vs = None \<Longrightarrow> \<exists>e. encode_items fmt vs = Inl e"
  "json_props kvs = None \<Longrightarrow> \<exists>e. encode_props fmt kvs = Inl e"
proof (induction fmt v and fmt vs and fmt kvs rule: encode_encode_items_encode_props.induct)
  case (10 fmt kvs)
  then have "json_props (sort_key fst kvs) = None"
    by (simp add: json_props_sort)
  with "10.IH" show ?case by auto
next
  case (12 fmt x xs)
  then show ?case
    by (cases "json_of x"; cases "json_items xs")
      (auto simp: encode_json(1) dest: encode_json(1) [where fmt = fmt])
next
  case (14 fmt k v kvs)
  then show ?case
    by (cases "json_of v"; cases "json_props kvs")
      (auto simp: encode_json(1) split: option.splits)
qed (auto split: sum.splits if_splits)

lemma canonicalize_json:
  "canonicalize fmt v = Inr s \<longleftrightarrow> (\<exists>j. json_value v = Some j \<and> s = print_json fmt j)"
proof (cases "json_of v")
  case None
  then show ?thesis
    using encode_fails(1) [of v fmt] by (auto simp: canonicalize_def json_value_def)
next
  case (Some j)
  then show ?thesis
    by (cases j) (auto simp: canonicalize_def json_value_def encode_json(1))
qed


section \<open>Canonical texts are uniquely readable\<close>

lemma hex_char_inject: "a < 16 \<Longrightarrow> b < 16 \<Longrightarrow> hex_char a = hex_char b \<longleftrightarrow> a = b"
  by (auto simp: hex_char_def dest!: arg_cong [where f = code] simp: code_char_of split: if_splits)

lemma control_escape_inject:
  assumes "code c < 32" "code d < 32"
    "hex_char (code c div 16) = hex_char (code d div 16)"
    "hex_char (code c mod 16) = hex_char (code d mod 16)"
  shows "c = d"
proof -
  have "code c div 16 = code d div 16" "code c mod 16 = code d mod 16"
    using assms by (simp_all add: hex_char_inject)
  then have "code c = code d" by (metis mult_div_mod_eq)
  then show ?thesis by (simp add: code_inject)
qed

lemma json_escape_nonempty [simp]: "json_escape c \<noteq> []"
  by (simp add: json_escape_def)

lemma json_escape_hd: "hd (json_escape c) \<noteq> CHR 0x22"
  by (simp add: json_escape_def)

lemma json_escape_unique:
  assumes "json_escape c @ x = json_escape d @ y"
  shows "c = d \<and> x = y"
proof -
  have eqc: "c = d" if "code c = n" "code d = n" for n
    using that by (simp add: code_inject [symmetric])
  have q: "code (CHR 0x22) = 34" "code (CHR 0x5C) = 92" by (simp_all add: code_def)
  show ?thesis
    using assms control_escape_inject [of c d] eqc q
    by (simp add: json_escape_def split: if_split_asm)
qed

lemma json_quote_unique:
  "json_quote a @ x = json_quote b @ y \<Longrightarrow> a = b \<and> x = y"
proof (induction a arbitrary: b)
  case Nil
  show ?case
  proof (cases b)
    case (Cons d b')
    with Nil have "hd (json_escape d) = CHR 0x22"
      by (auto simp: json_quote_def dest!: arg_cong [where f = hd])
    then show ?thesis by (simp add: json_escape_hd)
  qed (use Nil in \<open>simp add: json_quote_def\<close>)
next
  case (Cons c a)
  show ?case
  proof (cases b)
    case Nil
    with Cons.prems have "hd (json_escape c) = CHR 0x22"
      by (auto simp: json_quote_def dest!: arg_cong [where f = hd])
    then show ?thesis by (simp add: json_escape_hd)
  next
    case (Cons d b')
    with Cons.prems have
      "json_escape c @ (concat (map json_escape a) @ CHR 0x22 # x)
       = json_escape d @ (concat (map json_escape b') @ CHR 0x22 # y)"
      by (simp add: json_quote_def)
    from json_escape_unique [OF this] have "c = d" "json_quote a @ x = json_quote b' @ y"
      by (simp_all add: json_quote_def)
    with Cons.IH Cons show ?thesis by blast
  qed
qed

definition delimited :: "string \<Rightarrow> bool" where
  "delimited r \<longleftrightarrow> r = [] \<or> hd r = CHR '','' \<or> hd r = CHR '']'' \<or> hd r = CHR ''}''"

lemma delimited_simps [simp]:
  "delimited []" "delimited (CHR '','' # r)" "delimited (CHR '']'' # r)" "delimited (CHR ''}'' # r)"
  by (simp_all add: delimited_def)

lemma num_str_unique:
  assumes "fmt_ok fmt" "delimited r" "delimited s" "num_str fmt p @ r = num_str fmt q @ s"
  shows "p = q \<and> r = s"
proof -
  have stop: "\<not> num_char (hd t)" if "delimited t" "t \<noteq> []" for t
    using that by (auto simp: delimited_def num_char_def is_digit_def code_def)
  have tw: "takeWhile num_char (num_str fmt u @ t) = num_str fmt u" if "delimited t" for u t
    using stop [OF that] num_str_chars [OF assms(1)]
    by (cases t) (auto simp: takeWhile_append2)
  have "num_str fmt p = num_str fmt q"
    using tw [OF assms(2), of p] tw [OF assms(3), of q] assms(4) by simp
  with assms num_str_inject show ?thesis by fastforce
qed

text \<open>The first character of a canonical text tells which kind of value follows.\<close>

fun json_kind :: "json \<Rightarrow> nat" where
  "json_kind NNull = 0"
| "json_kind (NBool b) = (if b then 1 else 2)"
| "json_kind (NNum q) = 3"
| "json_kind (NStr s) = 4"
| "json_kind (NArr js) = 5"
| "json_kind (NObj ps) = 6"

definition char_kind :: "char \<Rightarrow> nat" where
  "char_kind c =
     (if c = CHR ''n'' then 0 else if c = CHR ''t'' then 1 else if c = CHR ''f'' then 2
      else if num_char c then 3 else if c = CHR 0x22 then 4 else if c = CHR ''['' then 5
      else if c = CHR ''{'' then 6 else 7)"

lemma print_json_kind:
  assumes "fmt_ok fmt"
  shows "print_json fmt j \<noteq> [] \<and> char_kind (hd (print_json fmt j)) = json_kind j"
proof (cases j)
  case (NNum q)
  have ne: "num_str fmt q \<noteq> []" by (rule num_str_nonempty [OF assms])
  then have "num_char (hd (num_str fmt q))"
    using num_str_chars [OF assms] hd_in_set by blast
  then have "char_kind (hd (num_str fmt q)) = 3"
    by (auto simp: char_kind_def num_char_def is_digit_def code_def)
  with ne NNum show ?thesis by simp
qed (auto simp: char_kind_def json_quote_def num_char_def is_digit_def code_def)

lemma print_json_same_kind:
  assumes "fmt_ok fmt" and "print_json fmt i @ r = print_json fmt j @ s"
  shows "json_kind i = json_kind j"
  using print_json_kind [OF assms(1), of i] print_json_kind [OF assms(1), of j] assms(2)
  by (metis hd_append2)

lemma print_json_not_close:
  assumes "fmt_ok fmt"
  shows "print_json fmt j @ s \<noteq> CHR '']'' # r" and "print_json fmt j @ s \<noteq> CHR ''}'' # r"
proof -
  have "json_kind j \<noteq> 7" by (cases j) auto
  moreover have "char_kind (CHR '']'') = 7" "char_kind (CHR ''}'') = 7"
    by (simp_all add: char_kind_def num_char_def is_digit_def code_def)
  ultimately show "print_json fmt j @ s \<noteq> CHR '']'' # r" "print_json fmt j @ s \<noteq> CHR ''}'' # r"
    using print_json_kind [OF assms, of j] by (metis hd_append2 list.sel(1))+
qed

lemma join_Cons: "join sep (w # ws) = w @ (if ws = [] then [] else sep @ join sep ws)"
  by (cases ws) auto

lemma print_items_Nil_iff [simp]: "print_items fmt js = [] \<longleftrightarrow> js = []"
  by (cases js) auto

lemma print_members_Nil_iff [simp]: "print_members fmt ps = [] \<longleftrightarrow> ps = []"
  by (cases ps) auto

lemma print_json_unique:
  "fmt_ok fmt \<Longrightarrow> print_json fmt i @ r = print_json fmt j @ s \<Longrightarrow> delimited r \<Longrightarrow> delimited s
      \<Longrightarrow> i = j \<and> r = s"
  "fmt_ok fmt \<Longrightarrow>
     join '','' (print_items fmt xs) @ CHR '']'' # r = join '','' (print_items fmt js) @ CHR '']'' # s
      \<Longrightarrow> xs = js \<and> r = s"
  "fmt_ok fmt \<Longrightarrow>
     join '','' (print_members fmt ps) @ CHR ''}'' # r = join '','' (print_members fmt qs) @ CHR ''}'' # s
      \<Longrightarrow> ps = qs \<and> r = s"
proof (induction fmt i and fmt xs and fmt ps arbitrary: j r s and js r s and qs r s
    rule: print_json_print_items_print_members.induct)
  case (1 fmt)
  with print_json_same_kind [OF "1.prems"(1,2)] show ?case by (cases j) (auto split: if_splits)
next
  case (2 fmt b)
  with print_json_same_kind [OF "2.prems"(1,2)] show ?case by (cases j) (auto split: if_splits)
next
  case (3 fmt q)
  obtain q' where j: "j = NNum q'"
    using print_json_same_kind [OF "3.prems"(1,2)] by (cases j) (auto split: if_splits)
  with "3.prems" num_str_unique [of fmt r s q q'] show ?case by simp
next
  case (4 fmt t)
  obtain t' where j: "j = NStr t'"
    using print_json_same_kind [OF "4.prems"(1,2)] by (cases j) (auto split: if_splits)
  with "4.prems" json_quote_unique [of t r t' s] show ?case by simp
next
  case (5 fmt xs)
  obtain js where j: "j = NArr js"
    using print_json_same_kind [OF "5.prems"(1,2)] by (cases j) (auto split: if_splits)
  with "5.IH" [of r js s] "5.prems" show ?case by simp
next
  case (6 fmt ps)
  obtain qs where j: "j = NObj qs"
    using print_json_same_kind [OF "6.prems"(1,2)] by (cases j) (auto split: if_splits)
  with "6.IH" [of r qs s] "6.prems" show ?case by simp
next
  case (7 fmt)
  then show ?case
    using print_json_not_close [OF "7.prems"(1)] by (cases js) (auto simp: join_Cons dest: sym)
next
  case (8 fmt x xs)
  show ?case
  proof (cases js)
    case Nil
    with "8.prems" print_json_not_close [OF "8.prems"(1)] show ?thesis
      by (auto simp: join_Cons)
  next
    case (Cons y ys)
    let ?t = "\<lambda>zs u. (if zs = [] then [] else '','' @ join '','' (print_items fmt zs)) @ CHR '']'' # u"
    have eq: "print_json fmt x @ ?t xs r = print_json fmt y @ ?t ys s"
      using "8.prems"(2) Cons by (simp add: join_Cons split: if_splits)
    have d: "delimited (?t zs u)" for zs u by simp
    have xy: "x = y" and t: "?t xs r = ?t ys s"
      using "8.IH"(1) [OF "8.prems"(1) eq d d] by simp_all
    have "xs = ys \<and> r = s"
    proof (cases "xs = [] \<or> ys = []")
      case True
      then show ?thesis using t by (cases "xs = []"; cases "ys = []") simp_all
    next
      case False
      then have "join '','' (print_items fmt xs) @ CHR '']'' # r
          = join '','' (print_items fmt ys) @ CHR '']'' # s"
        using t by simp
      then show ?thesis by (rule "8.IH"(2) [OF "8.prems"(1)])
    qed
    with xy Cons show ?thesis by simp
  qed
next
  case (9 fmt)
  then show ?case
    by (cases qs) (auto simp: join_Cons json_quote_def)
next
  case (10 fmt k x ps)
  show ?case
  proof (cases qs)
    case Nil
    with "10.prems" show ?thesis by (auto simp: join_Cons json_quote_def)
  next
    case (Cons q qs')
    obtain l y where q: "q = (l, y)" by (cases q)
    let ?t = "\<lambda>zs u. (if zs = [] then [] else '','' @ join '','' (print_members fmt zs)) @ CHR ''}'' # u"
    have "json_quote k @ CHR '':'' # print_json fmt x @ ?t ps r
        = json_quote l @ CHR '':'' # print_json fmt y @ ?t qs' s"
      using "10.prems"(2) Cons q by (simp add: join_Cons split: if_splits)
    from json_quote_unique [OF this] have kl: "k = l"
      and eq: "print_json fmt x @ ?t ps r = print_json fmt y @ ?t qs' s" by simp_all
    have d: "delimited (?t zs u)" for zs u by simp
    have xy: "x = y" and t: "?t ps r = ?t qs' s"
      using "10.IH"(1) [OF "10.prems"(1) eq d d] by simp_all
    have "ps = qs' \<and> r = s"
    proof (cases "ps = [] \<or> qs' = []")
      case True
      then show ?thesis using t by (cases "ps = []"; cases "qs' = []") simp_all
    next
      case False
      then have "join '','' (print_members fmt ps) @ CHR ''}'' # r
          = join '','' (print_members fmt qs') @ CHR ''}'' # s"
        using t by simp
      then show ?thesis by (rule "10.IH"(2) [OF "10.prems"(1)])
    qed
    with kl xy Cons q show ?thesis by simp
  qed
qed

lemma print_json_inject: "fmt_ok fmt \<Longrightarrow> print_json fmt i = print_json fmt j \<longleftrightarrow> i = j"
  using print_json_unique(1) [of fmt i "[]" j "[]"] by auto

section \<open>Scope digests\<close>

lemma sort_nub: "sort (nub xs) = sorted_list_of_set (set xs)"
  by (metis List.finite_set distinct_nub distinct_sort set_nub set_sort sorted_distinct_set_unique
      sorted_list_of_set.distinct_sorted_key_list_of_set sorted_list_of_set.set_sorted_key_list_of_set
      sorted_list_of_set.sorted_sorted_key_list_of_set sorted_sort)

definition scope_text :: "string list \<Rightarrow> string" where
  "scope_text scopes = join '' '' (sort (nub (filter (\<lambda>s. 0 < length s) scopes)))"

lemma scopeDigest_text: "scopeDigest sha scopes = take 16 (sha (scope_text scopes))"
  by (simp add: scopeDigest_def scope_text_def sha256Hex_def Let_def)

lemma scope_text_cong:
  "set (filter (\<lambda>s. s \<noteq> []) xs) = set (filter (\<lambda>s. s \<noteq> []) ys) \<Longrightarrow> scope_text xs = scope_text ys"
  by (simp add: scope_text_def sort_nub)

text \<open>Scopes contain no space (they come out of a space-separated list), so the text that is
  digested determines the set of scopes.\<close>

lemma scope_text_words:
  assumes "\<forall>s \<in> set xs. CHR '' '' \<notin> set s"
  shows "words_by (\<lambda>c. c = CHR '' '') (scope_text xs)
    = sorted_list_of_set (set (filter (\<lambda>s. s \<noteq> []) xs))"
proof -
  have "words_by (\<lambda>c. c = CHR '' '') (join [CHR '' ''] (sort (nub (filter (\<lambda>s. s \<noteq> []) xs))))
      = sort (nub (filter (\<lambda>s. s \<noteq> []) xs))"
    by (rule words_by_join) (use assms in auto)
  then show ?thesis by (simp add: scope_text_def sort_nub)
qed

lemma scope_text_inject:
  assumes "\<forall>s \<in> set xs. CHR '' '' \<notin> set s" "\<forall>s \<in> set ys. CHR '' '' \<notin> set s"
    and "scope_text xs = scope_text ys"
  shows "set (filter (\<lambda>s. s \<noteq> []) xs) = set (filter (\<lambda>s. s \<noteq> []) ys)"
  using scope_text_words [OF assms(1)] scope_text_words [OF assms(2)] assms(3)
  by (metis List.finite_set sorted_list_of_set.set_sorted_key_list_of_set)

section \<open>A number format\<close>

text \<open>An instance of the formatter, printing a number that is not a short integer as a quotient
  with a point: it satisfies \<open>fmt_ok\<close> and is what the witnesses evaluate with.\<close>

definition ratio_fmt :: "rat \<Rightarrow> string" where
  "ratio_fmt q = (case quotient_of q of (n, d) \<Rightarrow> int_str n @ ''.'' @ int_str d)"

lemma ratio_fmt_ok: "fmt_ok ratio_fmt"
proof -
  have nodot: "CHR ''.'' \<notin> set (int_str i)" for i
    by (auto dest!: int_str_chars simp: is_digit_def code_def)
  have "p = q" if "ratio_fmt p = ratio_fmt q" for p q
  proof -
    obtain a b c d where pq: "quotient_of p = (a, b)" "quotient_of q = (c, d)"
      by (metis surj_pair)
    with that have "int_str a @ CHR ''.'' # int_str b = int_str c @ CHR ''.'' # int_str d"
      by (simp add: ratio_fmt_def)
    from delim_unique [OF nodot nodot this] pq show ?thesis
      by (simp add: quotient_of_inject)
  qed
  moreover have "CHR ''.'' \<in> set (ratio_fmt q) \<and> (\<forall>c \<in> set (ratio_fmt q). num_char c)" for q
    by (cases "quotient_of q") (auto simp: ratio_fmt_def num_char_def dest: int_str_chars)
  ultimately show ?thesis by (auto simp: fmt_ok_def)
qed

section \<open>Properties\<close>

text \<open>C28: the canonical encoder against its specification. A value encodes exactly when it denotes a
  JSON document (no non-finite number, no invalid date, no cycle anywhere), and then its text is
  the canonical print of that document.\<close>

theorem canonicalize_spec:
  "canonicalize fmt v = Inr s \<longleftrightarrow> (\<exists>j. json_value v = Some j \<and> s = print_json fmt j)"
  by (rule canonicalize_json)

text \<open>Canonical texts identify documents. Two values have the same canonical text exactly when
  they denote the same document, so neither key order nor undefined members show in a hash, and
  nothing else is lost by it.\<close>

theorem canonical_text_identifies:
  assumes "fmt_ok fmt" and "canonicalize fmt v = Inr s"
  shows "canonicalize fmt w = Inr s \<longleftrightarrow> json_value w = json_value v"
  using assms(2) by (auto simp: canonicalize_json print_json_inject [OF assms(1)])

theorem canonical_text_identifies_witness:
  "canonicalize ratio_fmt (CObj [(''b'', CNum (JFin 1)), (''a'', CArr [CUndef]), (''c'', CUndef)]) =
     Inr (concat [''{'', json_quote ''a'', '':[null],'', json_quote ''b'', '':1}''])"
proof -
  have "canonicalize ratio_fmt (CObj [(''a'', CArr [CNull]), (''b'', CNum (JFin 1))]) =
      Inr (concat [''{'', json_quote ''a'', '':[null],'', json_quote ''b'', '':1}''])"
    by code_simp
  from canonical_text_identifies [OF ratio_fmt_ok this] show ?thesis
    by (simp add: json_value_def)
qed

text \<open>The scope digest depends on the set of scopes only, and determines it, as long as the
  sixteen characters kept of the digest do not collide on the two texts.\<close>

theorem scopeDigest_identifies_scopes:
  assumes "\<forall>s \<in> set xs. CHR '' '' \<notin> set s" "\<forall>s \<in> set ys. CHR '' '' \<notin> set s"
    and "inj_on (\<lambda>t. take 16 (sha t)) {scope_text xs, scope_text ys}"
  shows "scopeDigest sha xs = scopeDigest sha ys \<longleftrightarrow>
    set (filter (\<lambda>s. s \<noteq> []) xs) = set (filter (\<lambda>s. s \<noteq> []) ys)"
proof
  assume "scopeDigest sha xs = scopeDigest sha ys"
  then have "scope_text xs = scope_text ys"
    unfolding scopeDigest_text by (rule inj_onD [OF assms(3)]) simp_all
  then show "set (filter (\<lambda>s. s \<noteq> []) xs) = set (filter (\<lambda>s. s \<noteq> []) ys)"
    by (rule scope_text_inject [OF assms(1,2)])
qed (metis scope_text_cong scopeDigest_text)

theorem scopeDigest_identifies_scopes_witness:
  "scopeDigest rev [''write'', ''read'', ''write''] = scopeDigest rev [''read'', '''', ''write''] \<and>
     scopeDigest rev [''read''] \<noteq> scopeDigest rev [''write'']"
proof -
  have "distinct (map (\<lambda>t. take 16 (rev t)) [scope_text [''read''], scope_text [''write'']])"
    by code_simp
  then have inj: "inj_on (\<lambda>t. take 16 (rev t)) {scope_text [''read''], scope_text [''write'']}"
    by (simp add: inj_on_def)
  have same: "scope_text [''write'', ''read'', ''write''] = scope_text [''read'', '''', ''write'']"
    by code_simp
  have differ: "scopeDigest rev [''read''] \<noteq> scopeDigest rev [''write'']"
    by (subst scopeDigest_identifies_scopes [OF _ _ inj]) simp_all
  have "scopeDigest rev [''write'', ''read'', ''write''] = scopeDigest rev [''read'', '''', ''write'']"
    by (subst scopeDigest_identifies_scopes) (simp_all add: same insert_commute)
  with differ show ?thesis by blast
qed

end
