(* ===== verification/Audit_Chain.thy ===== *)
theory Audit_Chain
  imports Canonical
begin

text \<open>
  The hash chain of the audit log (\<open>packages/audit/src/hash.ts\<close>): the canonical text of a row, its
  hash over the hash before it, and the verification of a link and of a chain. The locale
  \<open>hash_chain\<close> states what makes a list of links tamper evident, over an abstract text of a row;
  it is interpreted on the model's \<open>canonicalRow\<close>.
\<close>

section \<open>Rows and links\<close>

datatype decision = Allow | Deny

definition decision_str :: "decision \<Rightarrow> string" where
  "decision_str d = (case d of Allow \<Rightarrow> ''allow'' | Deny \<Rightarrow> ''deny'')"

lemma decision_str_inject [simp]: "decision_str d = decision_str d' \<longleftrightarrow> d = d'"
  by (cases d; cases d') (simp_all add: decision_str_def)

record audit_row =
  row_id :: string
  row_ts :: js_date
  row_tenantId :: string
  row_userId :: string
  row_actorTokenJti :: string
  row_mcpServer :: string
  row_toolName :: string
  row_argumentsHash :: string
  row_decision :: decision
  row_denyReason :: "string option"
  row_latencyMs :: js_num
  row_traceId :: "string option"

record chain_link = audit_row +
  lk_prevHash :: string
  lk_rowHash :: string
  lk_seq :: "nat option"

datatype break_reason = Row_hash_mismatch | Prev_hash_mismatch | Ordering_violation

record verification_break =
  brk_seq :: "nat option"
  brk_id :: string
  brk_tenantId :: string
  brk_reason :: break_reason
  brk_expected :: string
  brk_actual :: string

record chain_result =
  res_valid :: bool
  res_checked :: nat
  res_break :: "verification_break option"

section \<open>Hashing\<close>

definition CHAIN_DOMAIN :: string where
  "CHAIN_DOMAIN = ''mcpgateway:audit:v1''"

definition genesis_text :: "string \<Rightarrow> string" where
  "genesis_text tenantId = CHAIN_DOMAIN @ '':genesis:'' @ tenantId"

definition genesisHash :: "(string \<Rightarrow> string) \<Rightarrow> string \<Rightarrow> string" where
  "genesisHash sha tenantId = sha256Hex sha (genesis_text tenantId)"

definition opt_cstr :: "string option \<Rightarrow> cval" where
  "opt_cstr x = (case x of None \<Rightarrow> CNull | Some s \<Rightarrow> CStr s)"

definition row_value :: "'a audit_row_scheme \<Rightarrow> string \<Rightarrow> (string \<times> cval) list" where
  "row_value row iso_ts =
     [(''actor_token_jti'', CStr (row_actorTokenJti row)),
      (''arguments_hash'', CStr (row_argumentsHash row)),
      (''decision'', CStr (decision_str (row_decision row))),
      (''deny_reason'', opt_cstr (row_denyReason row)),
      (''id'', CStr (row_id row)),
      (''latency_ms'', CNum (row_latencyMs row)),
      (''mcp_server'', CStr (row_mcpServer row)),
      (''tenant_id'', CStr (row_tenantId row)),
      (''tool_name'', CStr (row_toolName row)),
      (''trace_id'', opt_cstr (row_traceId row)),
      (''ts'', CStr iso_ts),
      (''user_id'', CStr (row_userId row))]"

definition canonicalRow ::
    "(rat \<Rightarrow> string) \<Rightarrow> 'a audit_row_scheme \<Rightarrow> (canon_error, string) result" where
  "canonicalRow fmt row =
     (case to_iso (row_ts row) of
        Inl e \<Rightarrow> Inl BadDate
      | Inr iso_ts \<Rightarrow> canonicalize fmt (CObj (row_value row iso_ts)))"

definition computeRowHash ::
    "(string \<Rightarrow> string) \<Rightarrow> (rat \<Rightarrow> string) \<Rightarrow> string \<Rightarrow> 'a audit_row_scheme \<Rightarrow>
       (canon_error, string) result" where
  "computeRowHash sha fmt prevHash row =
     bind_result (canonicalRow fmt row) (\<lambda>c. Inr (sha256Hex sha (prevHash @ c)))"

section \<open>Verification\<close>

definition verifyLink ::
    "(string \<Rightarrow> string) \<Rightarrow> (rat \<Rightarrow> string) \<Rightarrow> chain_link \<Rightarrow> string \<Rightarrow>
       (canon_error, verification_break option) result" where
  "verifyLink sha fmt link expectedPrevHash =
     (if lk_prevHash link \<noteq> expectedPrevHash then
        Inr (Some \<lparr>brk_seq = lk_seq link, brk_id = row_id link, brk_tenantId = row_tenantId link,
          brk_reason = Prev_hash_mismatch, brk_expected = expectedPrevHash,
          brk_actual = lk_prevHash link\<rparr>)
      else bind_result (computeRowHash sha fmt (lk_prevHash link) link) (\<lambda>recomputed.
        if recomputed \<noteq> lk_rowHash link then
          Inr (Some \<lparr>brk_seq = lk_seq link, brk_id = row_id link, brk_tenantId = row_tenantId link,
            brk_reason = Row_hash_mismatch, brk_expected = recomputed,
            brk_actual = lk_rowHash link\<rparr>)
        else Inr None))"

fun verify_from ::
    "(string \<Rightarrow> string) \<Rightarrow> (rat \<Rightarrow> string) \<Rightarrow> string \<Rightarrow> nat \<Rightarrow> chain_link list \<Rightarrow>
       (canon_error, chain_result) result" where
  "verify_from sha fmt expected checked [] =
     Inr \<lparr>res_valid = True, res_checked = checked, res_break = None\<rparr>"
| "verify_from sha fmt expected checked (link # links) =
     bind_result (verifyLink sha fmt link expected) (\<lambda>failure.
       case failure of
         Some b \<Rightarrow> Inr \<lparr>res_valid = False, res_checked = checked, res_break = Some b\<rparr>
       | None \<Rightarrow> verify_from sha fmt (lk_rowHash link) (checked + 1) links)"

definition verifyChain ::
    "(string \<Rightarrow> string) \<Rightarrow> (rat \<Rightarrow> string) \<Rightarrow> string \<Rightarrow> chain_link list \<Rightarrow>
       (canon_error, chain_result) result" where
  "verifyChain sha fmt tenantId links = verify_from sha fmt (genesisHash sha tenantId) 0 links"

section \<open>Chains in the abstract\<close>

text \<open>A link of an abstract chain: the previous hash, the row, its hash. \<open>pre h r\<close> is the text that
  is hashed for row \<open>r\<close> after hash \<open>h\<close>, if there is one.\<close>

fun well_linked ::
    "(string \<Rightarrow> 'r \<Rightarrow> string option) \<Rightarrow> (string \<Rightarrow> string) \<Rightarrow> string \<Rightarrow>
       (string \<times> 'r \<times> string) list \<Rightarrow> bool" where
  "well_linked pre dig h [] = True"
| "well_linked pre dig h ((p, r, x) # ls) =
     (p = h \<and> map_option dig (pre h r) = Some x \<and> well_linked pre dig x ls)"

definition head_hash :: "string \<Rightarrow> (string \<times> 'r \<times> string) list \<Rightarrow> string" where
  "head_hash h ls = last (h # map (snd \<circ> snd) ls)"

definition link_texts ::
    "(string \<Rightarrow> 'r \<Rightarrow> string option) \<Rightarrow> (string \<times> 'r \<times> string) list \<Rightarrow> string set" where
  "link_texts pre ls = {t. \<exists>(p, r, x) \<in> set ls. pre p r = Some t}"

lemma head_hash_simps [simp]:
  "head_hash h [] = h"
  "head_hash h ((p, r, x) # ls) = head_hash x ls"
  "head_hash h (ls @ [(p, r, x)]) = x"
  by (simp_all add: head_hash_def)

lemma well_linked_append:
  "well_linked pre dig h (ls @ ms) \<longleftrightarrow>
     well_linked pre dig h ls \<and> well_linked pre dig (head_hash h ls) ms"
  by (induction pre dig h ls rule: well_linked.induct) auto

lemma link_texts_simps [simp]:
  "link_texts pre [] = {}"
  "link_texts pre (ls @ ms) = link_texts pre ls \<union> link_texts pre ms"
  "link_texts pre [(p, r, x)] = set_option (pre p r)"
  by (auto simp: link_texts_def)

text \<open>The contract between a chain and the text its rows hash to, in an environment \<open>e\<close> (a digest
  and a number format) that meets its documentation (\<open>good e\<close>): hashes are recognisable, the text
  of a link determines the hash before it and the row's content, and no link's text is the text
  of a chain's root.\<close>

locale hash_chain =
  fixes good :: "'e \<Rightarrow> bool"
    and hashy :: "string \<Rightarrow> bool"
    and dig :: "'e \<Rightarrow> string \<Rightarrow> string"
    and pre :: "'e \<Rightarrow> string \<Rightarrow> 'r \<Rightarrow> string option"
    and root :: "'t \<Rightarrow> string"
    and content :: "'r \<Rightarrow> 'c"
  assumes dig_hashy: "good e \<Longrightarrow> hashy (dig e s)"
    and pre_inject: "good e \<Longrightarrow> hashy h \<Longrightarrow> hashy h' \<Longrightarrow> pre e h r = Some t \<Longrightarrow> pre e h' r' = Some t
      \<Longrightarrow> h = h' \<and> content r = content r'"
    and pre_root: "hashy h \<Longrightarrow> pre e h r \<noteq> Some (root tn)"
    and root_inject: "root tn = root tn' \<Longrightarrow> tn = tn'"
begin

lemma head_hashy:
  assumes "good e" "hashy h" "well_linked (pre e) (dig e) h ls"
  shows "hashy (head_hash h ls)"
  using assms(2,3)
proof (induction ls arbitrary: h)
  case (Cons l ls)
  obtain p r x where [simp]: "l = (p, r, x)" by (cases l)
  from Cons.prems have "hashy x" using dig_hashy [OF assms(1)] by auto
  with Cons show ?case by simp
qed simp

lemma last_link:
  assumes "good e" "well_linked (pre e) (dig e) (dig e (root tn)) (ls @ [(p, r, x)])"
  obtains t where "p = head_hash (dig e (root tn)) ls" "hashy p" "pre e p r = Some t" "x = dig e t"
    and "well_linked (pre e) (dig e) (dig e (root tn)) ls"
  using assms head_hashy [OF assms(1) dig_hashy [OF assms(1)], of "root tn" ls]
  by (auto simp: well_linked_append)

theorem same_head_same_chain:
  assumes "good e"
    and "well_linked (pre e) (dig e) (dig e (root tn)) ls"
    and "well_linked (pre e) (dig e) (dig e (root tn')) ls'"
    and "inj_on (dig e)
      ({root tn, root tn'} \<union> link_texts (pre e) ls \<union> link_texts (pre e) ls')"
    and "head_hash (dig e (root tn)) ls = head_hash (dig e (root tn')) ls'"
  shows "tn = tn' \<and>
    map (\<lambda>(p, r, x). (p, content r, x)) ls = map (\<lambda>(p, r, x). (p, content r, x)) ls'"
  using assms(2-5)
proof (induction ls arbitrary: ls' rule: rev_induct)
  case Nil
  show ?case
  proof (cases ls' rule: rev_cases)
    case Nil
    have "root tn = root tn'"
      by (rule inj_onD [OF Nil.prems(3)]) (use Nil.prems(4) Nil in auto)
    with Nil show ?thesis by (simp add: root_inject)
  next
    case (snoc ms l)
    obtain p r x where l: "l = (p, r, x)" by (cases l)
    from Nil.prems(2) snoc l obtain t
      where t: "hashy p" "pre e p r = Some t" "x = dig e t"
      using last_link [OF assms(1), of tn' ms p r x] by auto
    have "root tn = t"
      by (rule inj_onD [OF Nil.prems(3)]) (use Nil.prems(4) snoc l t in auto)
    with t show ?thesis using pre_root by blast
  qed
next
  case (snoc l ls)
  obtain p r x where l: "l = (p, r, x)" by (cases l)
  with snoc.prems(1) obtain t
    where t: "p = head_hash (dig e (root tn)) ls" "hashy p" "pre e p r = Some t" "x = dig e t"
      and wl: "well_linked (pre e) (dig e) (dig e (root tn)) ls"
    using last_link [OF assms(1), of tn ls p r x] by auto
  show ?case
  proof (cases ls' rule: rev_cases)
    case Nil
    have "root tn' = t"
      by (rule inj_onD [OF snoc.prems(3)]) (use snoc.prems(4) Nil l t in auto)
    with t show ?thesis using pre_root by blast
  next
    case (snoc ms l')
    obtain p' r' x' where l': "l' = (p', r', x')" by (cases l')
    with snoc.prems(2) snoc obtain t'
      where t': "p' = head_hash (dig e (root tn')) ms" "hashy p'" "pre e p' r' = Some t'"
        "x' = dig e t'" and wl': "well_linked (pre e) (dig e) (dig e (root tn')) ms"
      using last_link [OF assms(1), of tn' ms p' r' x'] by auto
    have "t = t'"
      by (rule inj_onD [OF snoc.prems(3)]) (use snoc.prems(4) \<open>ls' = ms @ [l']\<close> l l' t t' in auto)
    with t t' have same: "p = p' \<and> content r = content r'"
      using pre_inject [OF assms(1)] by blast
    have "inj_on (dig e) ({root tn, root tn'} \<union> link_texts (pre e) ls \<union> link_texts (pre e) ms)"
      by (rule inj_on_subset [OF snoc.prems(3)]) (auto simp: snoc)
    from snoc.IH [OF wl wl' this] same t(1) t'(1)
    have "tn = tn' \<and>
      map (\<lambda>(p, r, x). (p, content r, x)) ls = map (\<lambda>(p, r, x). (p, content r, x)) ms" by simp
    with same \<open>t = t'\<close> t t' show ?thesis by (simp add: snoc l l')
  qed
qed

end

section \<open>What a row's text determines\<close>

text \<open>The content of a row that its canonical text determines: everything, with \<open>-0\<close> and \<open>0\<close>
  milliseconds printed alike.\<close>

definition row_content :: "'a audit_row_scheme \<Rightarrow> audit_row" where
  "row_content r = audit_row.truncate r\<lparr>row_latencyMs := JFin (num_rat (row_latencyMs r))\<rparr>"

definition opt_json :: "string option \<Rightarrow> json" where
  "opt_json x = (case x of None \<Rightarrow> NNull | Some s \<Rightarrow> NStr s)"

lemma opt_json_inject [simp]: "opt_json x = opt_json y \<longleftrightarrow> x = y"
  by (cases x; cases y) (simp_all add: opt_json_def)

lemma json_of_opt_cstr [simp]: "json_of (opt_cstr x) = Some (Some (opt_json x))"
  by (cases x) (simp_all add: opt_cstr_def opt_json_def)

definition row_json :: "'a audit_row_scheme \<Rightarrow> string \<Rightarrow> (string \<times> json) list" where
  "row_json row iso_ts =
     [(''actor_token_jti'', NStr (row_actorTokenJti row)),
      (''arguments_hash'', NStr (row_argumentsHash row)),
      (''decision'', NStr (decision_str (row_decision row))),
      (''deny_reason'', opt_json (row_denyReason row)),
      (''id'', NStr (row_id row)),
      (''latency_ms'', NNum (num_rat (row_latencyMs row))),
      (''mcp_server'', NStr (row_mcpServer row)),
      (''tenant_id'', NStr (row_tenantId row)),
      (''tool_name'', NStr (row_toolName row)),
      (''trace_id'', opt_json (row_traceId row)),
      (''ts'', NStr iso_ts),
      (''user_id'', NStr (row_userId row))]"

lemma row_json_keys: "sorted (map fst (row_json row iso_ts))"
proof -
  have "map fst (row_json row iso_ts) =
    [''actor_token_jti'', ''arguments_hash'', ''decision'', ''deny_reason'', ''id'', ''latency_ms'',
     ''mcp_server'', ''tenant_id'', ''tool_name'', ''trace_id'', ''ts'', ''user_id'']"
    by (simp add: row_json_def)
  then show ?thesis by (simp add: less_eq_char_def less_char_def)
qed

lemma canonicalRow_text:
  "canonicalRow fmt row = Inr s \<longleftrightarrow>
     (\<exists>t. row_ts row = Some t \<and> \<bar>t\<bar> \<le> 8640000000000000 \<and> is_finite_num (row_latencyMs row) \<and>
        s = print_json fmt (NObj (row_json row (iso_string t))))"
proof -
  have "json_value (CObj (row_value row i)) =
      (if is_finite_num (row_latencyMs row) then Some (NObj (row_json row i)) else None)" for i
    using sorted_sort_id [of "map fst (row_json row i)"] row_json_keys [of row i]
      sort_key_id_if_sorted
    by (simp add: json_value_def row_value_def row_json_def)
  then show ?thesis
    by (auto simp: canonicalRow_def canonicalize_json to_iso_def
        split: option.splits if_splits)
qed

lemma canonicalRow_inject:
  assumes "fmt_ok fmt" "canonicalRow fmt r = Inr s" "canonicalRow fmt r' = Inr s"
  shows "row_content r = row_content r'"
proof -
  from assms(2) obtain t where t: "row_ts r = Some t"
    "s = print_json fmt (NObj (row_json r (iso_string t)))" by (auto simp: canonicalRow_text)
  from assms(3) obtain t' where t': "row_ts r' = Some t'"
    "s = print_json fmt (NObj (row_json r' (iso_string t')))" by (auto simp: canonicalRow_text)
  from t(2) t'(2) have "row_json r (iso_string t) = row_json r' (iso_string t')"
    by (metis print_json_inject [OF assms(1)] json.inject(5))
  with t(1) t'(1) show ?thesis
    by (simp add: row_json_def row_content_def audit_row.defs iso_string_inject)
qed

section \<open>The chain of the model\<close>

definition hex_lower :: "char \<Rightarrow> bool" where
  "hex_lower c \<longleftrightarrow> is_digit c \<or> (97 \<le> code c \<and> code c \<le> 102)"

definition is_digest :: "string \<Rightarrow> bool" where
  "is_digest s \<longleftrightarrow> length s = 64 \<and> list_all hex_lower s"

text \<open>A digest and a number format as documented: \<open>createHash('sha256').digest('hex')\<close> is 64
  lowercase hexadecimal characters.\<close>

definition digest_env :: "(string \<Rightarrow> string) \<times> (rat \<Rightarrow> string) \<Rightarrow> bool" where
  "digest_env e \<longleftrightarrow> (\<forall>s. is_digest (fst e s)) \<and> fmt_ok (snd e)"

definition row_text :: "(string \<Rightarrow> string) \<times> (rat \<Rightarrow> string) \<Rightarrow> string \<Rightarrow> audit_row \<Rightarrow> string option" where
  "row_text e h r = (case canonicalRow (snd e) r of Inl _ \<Rightarrow> None | Inr c \<Rightarrow> Some (h @ c))"

lemma canonicalRow_start: "canonicalRow fmt r = Inr c \<Longrightarrow> \<exists>t. c = CHR ''{'' # t"
  by (auto simp: canonicalRow_text)

lemma is_digest_no_brace: "is_digest h \<Longrightarrow> CHR ''{'' \<notin> set h"
  by (auto simp: is_digest_def list_all_iff hex_lower_def is_digit_def code_def)

lemma row_text_inject:
  assumes "fmt_ok (snd e)" "is_digest h" "is_digest h'"
    and "row_text e h r = Some t" "row_text e h' r' = Some t"
  shows "h = h' \<and> row_content r = row_content r'"
proof -
  obtain c c' where c: "canonicalRow (snd e) r = Inr c" "canonicalRow (snd e) r' = Inr c'"
    and eq: "h @ c = h' @ c'"
    using assms(4,5) by (auto simp: row_text_def split: sum.splits)
  then have "h = h' \<and> c = c'"
    using assms(2,3) by (simp add: is_digest_def)
  with c canonicalRow_inject [OF assms(1)] show ?thesis by blast
qed

lemma row_text_not_genesis:
  assumes "is_digest h" shows "row_text e h r \<noteq> Some (genesis_text tn)"
proof
  assume "row_text e h r = Some (genesis_text tn)"
  then obtain c where "h @ c = genesis_text tn"
    by (auto simp: row_text_def split: sum.splits)
  then have "hd (h @ c) = CHR ''m''" by (simp add: genesis_text_def CHAIN_DOMAIN_def)
  moreover have "hd (h @ c) = hd h" "hex_lower (hd h)"
    using assms by (cases h; auto simp: is_digest_def)+
  moreover have "\<not> hex_lower (CHR ''m'')" by (simp add: hex_lower_def is_digit_def code_def)
  ultimately show False by simp
qed

lemma genesis_text_inject [simp]: "genesis_text tn = genesis_text tn' \<longleftrightarrow> tn = tn'"
  by (simp add: genesis_text_def)

interpretation audit: hash_chain digest_env is_digest "\<lambda>e. sha256Hex (fst e)" row_text genesis_text
  row_content
  by unfold_locales
    (auto simp: digest_env_def sha256Hex_def row_text_not_genesis dest: row_text_inject [rotated 3])

definition abs_link :: "chain_link \<Rightarrow> string \<times> audit_row \<times> string" where
  "abs_link l = (lk_prevHash l, audit_row.truncate l, lk_rowHash l)"

definition linked_from ::
    "(string \<Rightarrow> string) \<Rightarrow> (rat \<Rightarrow> string) \<Rightarrow> string \<Rightarrow> chain_link list \<Rightarrow> bool" where
  "linked_from sha fmt h ls \<longleftrightarrow>
     well_linked (row_text (sha, fmt)) (sha256Hex sha) h (map abs_link ls)"

text \<open>The texts that were hashed to build a tenant's chain, its genesis text included.\<close>

definition chain_texts ::
    "(rat \<Rightarrow> string) \<Rightarrow> string \<Rightarrow> chain_link list \<Rightarrow> string set" where
  "chain_texts fmt tenantId ls =
     insert (genesis_text tenantId) (set (concat (map (\<lambda>l.
       case canonicalRow fmt l of Inl _ \<Rightarrow> [] | Inr c \<Rightarrow> [lk_prevHash l @ c]) ls)))"

lemma canonicalRow_truncate [simp]: "canonicalRow fmt (audit_row.truncate l) = canonicalRow fmt l"
proof -
  have "row_value (audit_row.truncate l) = row_value l" "row_ts (audit_row.truncate l) = row_ts l"
    by (simp_all add: fun_eq_iff row_value_def audit_row.defs)
  then show ?thesis by (simp only: canonicalRow_def)
qed

lemma row_content_truncate [simp]: "row_content (audit_row.truncate l) = row_content l"
  by (simp add: row_content_def audit_row.defs)

lemma chain_texts_link_texts:
  "chain_texts fmt tn ls =
     insert (genesis_text tn) (link_texts (row_text (sha, fmt)) (map abs_link ls))"
  by (induction ls)
    (auto simp: chain_texts_def link_texts_def abs_link_def row_text_def split: sum.splits)

lemma verifyLink_None:
  "verifyLink sha fmt l h = Inr None \<longleftrightarrow>
     lk_prevHash l = h \<and> computeRowHash sha fmt h l = Inr (lk_rowHash l)"
  by (auto simp: verifyLink_def bind_result_Inr_iff)

lemma linked_from_simps [simp]:
  "linked_from sha fmt h []"
  "linked_from sha fmt h (l # ls) \<longleftrightarrow>
     verifyLink sha fmt l h = Inr None \<and> linked_from sha fmt (lk_rowHash l) ls"
  by (auto simp: linked_from_def verifyLink_None abs_link_def row_text_def computeRowHash_def
      bind_result_def split: sum.splits)

lemma verify_from_valid:
  "verify_from sha fmt h n ls = Inr \<lparr>res_valid = True, res_checked = m, res_break = b\<rparr> \<longleftrightarrow>
     linked_from sha fmt h ls \<and> m = n + length ls \<and> b = None"
  by (induction ls arbitrary: h n)
    (auto simp: bind_result_Inr_iff split: option.splits)

text \<open>The head of a list of links: the hash the next row commits to.\<close>

definition chain_head :: "string \<Rightarrow> chain_link list \<Rightarrow> string" where
  "chain_head h ls = last (h # map lk_rowHash ls)"

lemma chain_head_simps [simp]:
  "chain_head h [] = h" "chain_head h (l # ls) = chain_head (lk_rowHash l) ls"
  "chain_head h (ls @ [l]) = lk_rowHash l"
  by (simp_all add: chain_head_def)

lemma chain_head_abs: "head_hash h (map abs_link ls) = chain_head h ls"
  by (induction ls arbitrary: h) (auto simp: abs_link_def)

lemma chain_head_append: "chain_head h (ls @ ms) = chain_head (chain_head h ls) ms"
  by (induction ls arbitrary: h) auto

lemma linked_from_append:
  "linked_from sha fmt h (ls @ ms) \<longleftrightarrow>
     linked_from sha fmt h ls \<and> linked_from sha fmt (chain_head h ls) ms"
  by (induction ls arbitrary: h) auto

lemma verify_from_break:
  "verify_from sha fmt h n ls = Inr \<lparr>res_valid = False, res_checked = m, res_break = b\<rparr> \<longleftrightarrow>
     (\<exists>us l vs x. ls = us @ l # vs \<and> linked_from sha fmt h us \<and> m = n + length us \<and> b = Some x \<and>
        verifyLink sha fmt l (chain_head h us) = Inr (Some x))"
proof (induction ls arbitrary: h n)
  case (Cons l ls)
  have split: "(\<exists>us k vs x. l # ls = us @ k # vs \<and> P us k x) \<longleftrightarrow>
      (\<exists>x. P [] l x) \<or> (\<exists>us k vs x. ls = us @ k # vs \<and> P (l # us) k x)" for P
    by (auto simp: Cons_eq_append_conv)
  show ?case
  proof (cases "verifyLink sha fmt l h")
    case (Inr r)
    then show ?thesis
      unfolding split using Cons.IH [of "lk_rowHash l" "n + 1"] by (cases r) auto
  qed (unfold split, simp)
qed simp

lemma verifyChain_linked:
  "verifyChain sha fmt tn ls = Inr r \<Longrightarrow> res_valid r \<Longrightarrow>
     linked_from sha fmt (genesisHash sha tn) ls \<and> r = \<lparr>res_valid = True, res_checked = length ls, res_break = None\<rparr>"
  using verify_from_valid [of sha fmt "genesisHash sha tn" 0 ls "res_checked r" "res_break r"]
  by (cases r) (auto simp: verifyChain_def)

lemma linked_same_head:
  assumes "digest_env (sha, fmt)"
    and "linked_from sha fmt (genesisHash sha tn) ls" "linked_from sha fmt (genesisHash sha tn') ls'"
    and "inj_on sha (chain_texts fmt tn ls \<union> chain_texts fmt tn' ls')"
    and "chain_head (genesisHash sha tn) ls = chain_head (genesisHash sha tn') ls'"
  shows "tn = tn' \<and>
    map (\<lambda>l. (lk_prevHash l, row_content l, lk_rowHash l)) ls =
    map (\<lambda>l. (lk_prevHash l, row_content l, lk_rowHash l)) ls'"
proof -
  let ?e = "(sha, fmt)"
  have "inj_on (sha256Hex (fst ?e))
      ({genesis_text tn, genesis_text tn'} \<union> link_texts (row_text ?e) (map abs_link ls)
        \<union> link_texts (row_text ?e) (map abs_link ls'))"
    using assms(4) by (simp add: chain_texts_link_texts [where sha = sha] sha256Hex_def [abs_def]
        insert_commute Un_assoc)
  from audit.same_head_same_chain [OF assms(1), of tn "map abs_link ls" tn' "map abs_link ls'", OF _ _ this]
  have "tn = tn' \<and> map (\<lambda>(p, r, x). (p, row_content r, x)) (map abs_link ls)
      = map (\<lambda>(p, r, x). (p, row_content r, x)) (map abs_link ls')"
    using assms(2,3,5) by (simp add: linked_from_def genesisHash_def chain_head_abs)
  moreover have "(\<lambda>(p, r, x). (p, row_content r, x)) \<circ> abs_link
      = (\<lambda>l. (lk_prevHash l, row_content l, lk_rowHash l))"
    by (simp add: abs_link_def fun_eq_iff)
  ultimately show ?thesis by simp
qed

section \<open>A digest to evaluate with\<close>

text \<open>A function of the right shape, used only where a statement is evaluated at concrete rows.\<close>

fun text_len :: "int \<Rightarrow> string \<Rightarrow> int" where
  "text_len n [] = n"
| "text_len n (c # s) = text_len (n + 1) s"

definition len_digest :: "string \<Rightarrow> string" where
  "len_digest s = pad 64 (nat (text_len 0 s mod 1000))"

lemma is_digest_len_digest: "is_digest (len_digest s)"
proof -
  have "length (nat_str n) \<le> 3" if "n < 1000" for n
    using that by (simp add: nat_str.simps [of n] nat_str.simps [of "n div 10"]
        nat_str.simps [of "n div 10 div 10"])
  moreover have "nat (text_len 0 s mod 1000) < 1000" by (simp add: nat_less_iff)
  ultimately have "length (nat_str (nat (text_len 0 s mod 1000))) \<le> 3" by blast
  then have "length (len_digest s) = 64" by (simp add: len_digest_def pad_def)
  moreover have "list_all hex_lower (len_digest s)"
    by (auto simp: len_digest_def list_all_iff hex_lower_def dest: pad_digits)
  ultimately show ?thesis by (simp add: is_digest_def)
qed

lemma digest_env_example: "digest_env (len_digest, ratio_fmt)"
  by (simp add: digest_env_def is_digest_len_digest ratio_fmt_ok)

definition demo_row :: "string \<Rightarrow> audit_row" where
  "demo_row tool = \<lparr>row_id = ''e1'', row_ts = Some 1767323045000, row_tenantId = ''acme'',
     row_userId = ''ada'', row_actorTokenJti = ''j1'', row_mcpServer = ''salesforce'',
     row_toolName = tool, row_argumentsHash = ''a0'', row_decision = Allow,
     row_denyReason = None, row_latencyMs = JFin 12, row_traceId = None\<rparr>"

definition demo_link :: "string \<Rightarrow> string \<Rightarrow> string \<Rightarrow> chain_link" where
  "demo_link prev tool hash =
     audit_row.extend (demo_row tool) \<lparr>lk_prevHash = prev, lk_rowHash = hash, lk_seq = Some 1\<rparr>"

definition demo_chain :: "chain_link list" where
  "demo_chain = [demo_link (pad 64 32) ''q'' (pad 64 299),
     demo_link (pad 64 299) ''query'' (pad 64 303)]"

lemma demo_chain_verifies:
  "verifyChain len_digest ratio_fmt ''acme'' demo_chain =
     Inr \<lparr>res_valid = True, res_checked = 2, res_break = None\<rparr>"
  by code_simp

lemma inj_on_distinct: "distinct (map f xs) \<Longrightarrow> inj_on f (set xs)"
  by (simp add: distinct_map)

lemma demo_chain_inj: "inj_on len_digest (chain_texts ratio_fmt ''acme'' demo_chain)"
proof -
  have "distinct (map len_digest (genesis_text ''acme'' # concat (map (\<lambda>l.
       case canonicalRow ratio_fmt l of Inl _ \<Rightarrow> [] | Inr c \<Rightarrow> [lk_prevHash l @ c]) demo_chain)))"
    by code_simp
  from inj_on_distinct [OF this] show ?thesis by (simp only: chain_texts_def list.set)
qed

section \<open>Properties\<close>

text \<open>C26: verification of a chain in full. A run that does not throw reports the chain valid with
  all its rows counted exactly when every row follows from the hash before it, starting at the
  tenant's genesis hash; otherwise it reports the first link that does not hold, after the longest
  prefix that does, and counts that prefix.\<close>

theorem verifyChain_first_break:
  "verifyChain sha fmt tn ls = Inr r \<longleftrightarrow>
     linked_from sha fmt (genesisHash sha tn) ls \<and>
       r = \<lparr>res_valid = True, res_checked = length ls, res_break = None\<rparr> \<or>
     (\<exists>us l vs b. ls = us @ l # vs \<and> linked_from sha fmt (genesisHash sha tn) us \<and>
        verifyLink sha fmt l (chain_head (genesisHash sha tn) us) = Inr (Some b) \<and>
        r = \<lparr>res_valid = False, res_checked = length us, res_break = Some b\<rparr>)"
proof (cases r)
  case (fields v n b)
  then show ?thesis
    using verify_from_valid [of sha fmt "genesisHash sha tn" 0 ls n b]
      verify_from_break [of sha fmt "genesisHash sha tn" 0 ls n b]
    by (cases v) (auto simp: verifyChain_def)
qed

text \<open>C4: tamper evidence. Two logs that verify and end in the same head hash belong to the same
  tenant and hold the same rows in the same order, as long as the digest has no collision among
  the texts that were hashed: no row can be altered, removed, inserted, reordered or moved to
  another tenant's log without the head hash changing.\<close>

theorem audit_chain_tamper_evident:
  assumes "digest_env (sha, fmt)"
    and "verifyChain sha fmt tn ls = Inr r" "res_valid r"
    and "verifyChain sha fmt tn' ls' = Inr r'" "res_valid r'"
    and "inj_on sha (chain_texts fmt tn ls \<union> chain_texts fmt tn' ls')"
    and "chain_head (genesisHash sha tn) ls = chain_head (genesisHash sha tn') ls'"
  shows "tn = tn' \<and>
    map (\<lambda>l. (lk_prevHash l, row_content l, lk_rowHash l)) ls =
    map (\<lambda>l. (lk_prevHash l, row_content l, lk_rowHash l)) ls'"
  using linked_same_head assms verifyChain_linked by blast

theorem audit_chain_tamper_evident_witness:
  "map (\<lambda>l. (lk_prevHash l, row_content l, lk_rowHash l)) demo_chain =
     map (\<lambda>l. (lk_prevHash l, row_content l, lk_rowHash l)) demo_chain \<and> demo_chain \<noteq> []"
  using audit_chain_tamper_evident [OF digest_env_example demo_chain_verifies _ demo_chain_verifies]
    demo_chain_inj
  by (simp add: demo_chain_def)

text \<open>An edit in place is reported at the edited row. Replacing the row at a position of a
  verified log by one with other content, its stored hashes kept, makes verification fail at
  exactly that position with a row hash mismatch.\<close>

theorem edited_row_reported:
  assumes "digest_env (sha, fmt)"
    and "verifyChain sha fmt tn (us @ l # vs) = Inr r" "res_valid r"
    and "lk_prevHash l' = lk_prevHash l" "lk_rowHash l' = lk_rowHash l"
    and "row_content l' \<noteq> row_content l"
    and "canonicalRow fmt l = Inr c" "canonicalRow fmt l' = Inr c'"
    and "inj_on sha {lk_prevHash l @ c, lk_prevHash l @ c'}"
  shows "\<exists>b. verifyChain sha fmt tn (us @ l' # vs) =
      Inr \<lparr>res_valid = False, res_checked = length us, res_break = Some b\<rparr> \<and>
    brk_reason b = Row_hash_mismatch \<and> brk_id b = row_id l' \<and> brk_actual b = lk_rowHash l'"
proof -
  let ?h = "chain_head (genesisHash sha tn) us"
  from verifyChain_linked [OF assms(2,3)]
  have lk: "linked_from sha fmt (genesisHash sha tn) us" "verifyLink sha fmt l ?h = Inr None"
    by (auto simp: linked_from_append)
  have "fmt_ok fmt" using assms(1) by (simp add: digest_env_def)
  then have "c \<noteq> c'" using canonicalRow_inject assms(6-8) by metis
  then have "sha (lk_prevHash l @ c) \<noteq> sha (lk_prevHash l @ c')"
    using inj_onD [OF assms(9)] by auto
  with lk(2) assms(4,5,7,8) obtain b where
    b: "verifyLink sha fmt l' ?h = Inr (Some b)" "brk_reason b = Row_hash_mismatch"
      "brk_id b = row_id l'" "brk_actual b = lk_rowHash l'"
    by (auto simp: verifyLink_None) (auto simp: verifyLink_def computeRowHash_def sha256Hex_def)
  with lk(1) have "verify_from sha fmt (genesisHash sha tn) 0 (us @ l' # vs) =
      Inr \<lparr>res_valid = False, res_checked = length us, res_break = Some b\<rparr>"
    by (auto simp: verify_from_break)
  with b show ?thesis by (auto simp: verifyChain_def)
qed

definition demo_edited :: chain_link where
  "demo_edited = (demo_chain ! 1)\<lparr>row_toolName := ''delete_all''\<rparr>"

theorem edited_row_reported_witness:
  "\<exists>b. verifyChain len_digest ratio_fmt ''acme'' ([demo_chain ! 0] @ demo_edited # []) =
      Inr \<lparr>res_valid = False, res_checked = 1, res_break = Some b\<rparr> \<and>
    brk_reason b = Row_hash_mismatch \<and> brk_id b = row_id demo_edited \<and>
    brk_actual b = lk_rowHash demo_edited"
proof -
  let ?l = "demo_chain ! 1"
  define c c' where "c = projr (canonicalRow ratio_fmt ?l)"
    and "c' = projr (canonicalRow ratio_fmt demo_edited)"
  have c: "canonicalRow ratio_fmt ?l = Inr c" "canonicalRow ratio_fmt demo_edited = Inr c'"
    unfolding c_def c'_def by code_simp+
  have "distinct (map len_digest [lk_prevHash ?l @ c, lk_prevHash ?l @ c'])"
    unfolding c_def c'_def by code_simp
  then have inj: "inj_on len_digest {lk_prevHash ?l @ c, lk_prevHash ?l @ c'}"
    using inj_on_distinct by fastforce
  have chain: "[demo_chain ! 0] @ ?l # [] = demo_chain"
    by (simp add: demo_chain_def)
  have differs: "row_content demo_edited \<noteq> row_content ?l"
    by (simp add: row_content_def demo_edited_def demo_chain_def demo_link_def demo_row_def
        audit_row.defs)
  from edited_row_reported [OF digest_env_example, of "''acme''" "[demo_chain ! 0]" ?l "[]" _
      demo_edited c c', unfolded chain, OF demo_chain_verifies _ _ _ differs c inj]
  show ?thesis by (simp add: demo_edited_def)
qed

end
