(* ===== verification/Audit_Log.thy ===== *)
theory Audit_Log
  imports Audit_Chain
begin

text \<open>
  The audit log in its database: the writer's transaction (\<open>packages/audit/src/writer.ts\<close>) and the
  verifier that walks a tenant's rows in batches and cross-checks the recorded head
  (\<open>packages/audit/src/verifier.ts\<close>), over the tables of \<open>packages/shared/src/db/schema.ts\<close>.

  The lock that \<open>SELECT ... FOR UPDATE\<close> takes on the tenant's head makes an append one step. What
  the database refuses on its own account (an id that is not a UUID, a timestamp or number out of
  its column's range, a NUL in a text) is the parameter \<open>refuses\<close>, and for the captured payload
  \<open>refuses_json\<close>; ids and the clock are arguments.
\<close>

section \<open>Tables\<close>

record raw_row =
  rw_seq :: nat
  rw_id :: string
  rw_ts :: js_date
  rw_tenant_id :: string
  rw_user_id :: string
  rw_actor_token_jti :: string
  rw_mcp_server :: string
  rw_tool_name :: string
  rw_arguments_hash :: string
  rw_decision :: string
  rw_deny_reason :: "string option"
  rw_latency_ms :: js_num
  rw_trace_id :: "string option"
  rw_prev_hash :: string
  rw_row_hash :: string

record audit_db =
  db_heads :: "string \<Rightarrow> (string \<times> nat) option"
  db_events :: "raw_row list"
  db_payloads :: "(string \<times> string \<times> string) list"
  db_next_seq :: nat

definition empty_audit_db :: audit_db where
  "empty_audit_db = \<lparr>db_heads = (\<lambda>_. None), db_events = [], db_payloads = [], db_next_seq = 1\<rparr>"

text \<open>A value of a \<open>char(64)\<close> column reads back padded with spaces.\<close>

definition char64 :: "string \<Rightarrow> string" where
  "char64 s = s @ replicate (64 - length s) (CHR '' '')"

section \<open>\<open>JSON.stringify\<close>\<close>

datatype stringify_error = BigIntSerialised | CircularSerialised

fun json_stringify :: "(rat \<Rightarrow> string) \<Rightarrow> cval \<Rightarrow> (stringify_error, string option) result"
and stringify_items :: "(rat \<Rightarrow> string) \<Rightarrow> cval list \<Rightarrow> (stringify_error, string list) result"
and stringify_props ::
    "(rat \<Rightarrow> string) \<Rightarrow> (string \<times> cval) list \<Rightarrow> (stringify_error, string list) result" where
  "json_stringify fmt CUndef = Inr None"
| "json_stringify fmt CNull = Inr (Some ''null'')"
| "json_stringify fmt (CBool b) = Inr (Some (if b then ''true'' else ''false''))"
| "json_stringify fmt (CNum n) =
     Inr (Some (if is_finite_num n then num_to_string fmt n else ''null''))"
| "json_stringify fmt (CBig i) = Inl BigIntSerialised"
| "json_stringify fmt (CStr s) = Inr (Some (json_quote s))"
| "json_stringify fmt (CDate d) =
     Inr (Some (case to_iso d of Inl _ \<Rightarrow> ''null'' | Inr s \<Rightarrow> json_quote s))"
| "json_stringify fmt (CBack n) = Inl CircularSerialised"
| "json_stringify fmt (CArr xs) =
     bind_result (stringify_items fmt xs) (\<lambda>items. Inr (Some (''['' @ join '','' items @ '']'')))"
| "json_stringify fmt (CObj kvs) =
     bind_result (stringify_props fmt kvs) (\<lambda>parts. Inr (Some (''{'' @ join '','' parts @ ''}'')))"
| "stringify_items fmt [] = Inr []"
| "stringify_items fmt (x # xs) =
     bind_result (json_stringify fmt x) (\<lambda>e.
       bind_result (stringify_items fmt xs) (\<lambda>es. Inr (or_default e ''null'' # es)))"
| "stringify_props fmt [] = Inr []"
| "stringify_props fmt ((k, v) # kvs) =
     bind_result (json_stringify fmt v) (\<lambda>e.
       bind_result (stringify_props fmt kvs) (\<lambda>ps.
         case e of None \<Rightarrow> Inr ps | Some s \<Rightarrow> Inr ((json_quote k @ '':'' @ s) # ps)))"

section \<open>The writer\<close>

record append_input =
  in_tenantId :: string
  in_userId :: string
  in_actorTokenJti :: string
  in_mcpServer :: string
  in_toolName :: string
  in_arguments :: cval
  in_decision :: decision
  in_denyReason :: "string option"
  in_latencyMs :: js_num
  in_traceId :: "string option"
  in_occurredAt :: "js_date option"
  in_capturePayload :: "bool option"

record appended_row =
  app_id :: string
  app_seq :: nat
  app_prevHash :: string
  app_rowHash :: string
  app_ts :: js_date

datatype append_error =
    Not_canonical canon_error
  | Not_serialisable stringify_error
  | Database_error

text \<open>\<open>Math.max(0, Math.round(x))\<close>; half rounds up.\<close>

definition round_latency :: "js_num \<Rightarrow> js_num" where
  "round_latency n = (case n of
     JFin q \<Rightarrow> JFin (of_int (max 0 \<lfloor>q + 1 / 2\<rfloor>))
   | JNegZero \<Rightarrow> JFin 0 | JNegInf \<Rightarrow> JFin 0 | JInf \<Rightarrow> JInf | JNaN \<Rightarrow> JNaN)"

definition input_row :: "string \<Rightarrow> js_date \<Rightarrow> string \<Rightarrow> append_input \<Rightarrow> audit_row" where
  "input_row newId now argumentsHash input =
     \<lparr>row_id = newId, row_ts = or_default (in_occurredAt input) now,
      row_tenantId = in_tenantId input, row_userId = in_userId input,
      row_actorTokenJti = in_actorTokenJti input, row_mcpServer = in_mcpServer input,
      row_toolName = in_toolName input, row_argumentsHash = argumentsHash,
      row_decision = in_decision input, row_denyReason = in_denyReason input,
      row_latencyMs = round_latency (in_latencyMs input), row_traceId = in_traceId input\<rparr>"

definition stored_row :: "nat \<Rightarrow> audit_row \<Rightarrow> string \<Rightarrow> string \<Rightarrow> raw_row" where
  "stored_row n row prevHash rowHash =
     \<lparr>rw_seq = n, rw_id = row_id row, rw_ts = row_ts row, rw_tenant_id = row_tenantId row,
      rw_user_id = row_userId row, rw_actor_token_jti = row_actorTokenJti row,
      rw_mcp_server = row_mcpServer row, rw_tool_name = row_toolName row,
      rw_arguments_hash = char64 (row_argumentsHash row),
      rw_decision = decision_str (row_decision row), rw_deny_reason = row_denyReason row,
      rw_latency_ms = row_latencyMs row, rw_trace_id = row_traceId row,
      rw_prev_hash = char64 prevHash, rw_row_hash = char64 rowHash\<rparr>"

text \<open>The transaction. A failure anywhere in it leaves the three tables as they were; only the
  sequence that numbers the rows has moved once the insert was attempted.\<close>

definition append_tx ::
    "(string \<Rightarrow> string) \<Rightarrow> (rat \<Rightarrow> string) \<Rightarrow> (raw_row \<Rightarrow> bool) \<Rightarrow> (string \<Rightarrow> bool) \<Rightarrow> bool \<Rightarrow>
       cval \<Rightarrow> audit_row \<Rightarrow> audit_db \<Rightarrow> audit_db \<times> (append_error, nat \<times> string \<times> string) result" where
  "append_tx sha fmt refuses refuses_json capture args row db =
     (let tn = row_tenantId row;
          (prevHash, len) = or_default (db_heads db tn) (char64 (genesisHash sha tn), 0)
      in case computeRowHash sha fmt prevHash row of
           Inl e \<Rightarrow> (db, Inl (Not_canonical e))
         | Inr rowHash \<Rightarrow>
             (let n = db_next_seq db; raw = stored_row n row prevHash rowHash;
                  numbered = db\<lparr>db_next_seq := n + 1\<rparr>;
                  inserted = numbered\<lparr>db_heads := map_set (db_heads db) tn (char64 rowHash, len + 1),
                    db_events := db_events db @ [raw]\<rparr>
              in if refuses raw \<or> rw_id raw \<in> set (map rw_id (db_events db))
                 then (numbered, Inl Database_error)
                 else if \<not> capture then (inserted, Inr (n, prevHash, rowHash))
                 else case json_stringify fmt args of
                     Inl e \<Rightarrow> (numbered, Inl (Not_serialisable e))
                   | Inr None \<Rightarrow> (numbered, Inl Database_error)
                   | Inr (Some payload) \<Rightarrow>
                       if refuses_json payload \<or> row_id row \<in> set (map fst (db_payloads db))
                       then (numbered, Inl Database_error)
                       else (inserted\<lparr>db_payloads :=
                               db_payloads db @ [(row_id row, tn, payload)]\<rparr>,
                             Inr (n, prevHash, rowHash))))"

definition audit_append ::
    "(string \<Rightarrow> string) \<Rightarrow> (rat \<Rightarrow> string) \<Rightarrow> (raw_row \<Rightarrow> bool) \<Rightarrow> (string \<Rightarrow> bool) \<Rightarrow> bool \<Rightarrow>
       string \<Rightarrow> js_date \<Rightarrow> append_input \<Rightarrow> audit_db \<Rightarrow>
       audit_db \<times> (append_error, appended_row) result" where
  "audit_append sha fmt refuses refuses_json capturePayloads newId now input db =
     (case sha256Canonical sha fmt (in_arguments input) of
        Inl e \<Rightarrow> (db, Inl (Not_canonical e))
      | Inr argumentsHash \<Rightarrow>
          (let row = input_row newId now argumentsHash input;
               capture = or_default (in_capturePayload input) capturePayloads
           in case append_tx sha fmt refuses refuses_json capture (in_arguments input) row db of
                (db', Inl e) \<Rightarrow> (db', Inl e)
              | (db', Inr (n, prevHash, rowHash)) \<Rightarrow>
                  (db', Inr \<lparr>app_id = newId, app_seq = n, app_prevHash = prevHash,
                     app_rowHash = rowHash, app_ts = row_ts row\<rparr>)))"

section \<open>The verifier\<close>

definition toLink :: "raw_row \<Rightarrow> chain_link" where
  "toLink raw =
     \<lparr>row_id = rw_id raw, row_ts = rw_ts raw, row_tenantId = rw_tenant_id raw,
      row_userId = rw_user_id raw, row_actorTokenJti = rw_actor_token_jti raw,
      row_mcpServer = rw_mcp_server raw, row_toolName = rw_tool_name raw,
      row_argumentsHash = trim (rw_arguments_hash raw),
      row_decision = (if rw_decision raw = ''deny'' then Deny else Allow),
      row_denyReason = rw_deny_reason raw, row_latencyMs = rw_latency_ms raw,
      row_traceId = rw_trace_id raw, lk_prevHash = trim (rw_prev_hash raw),
      lk_rowHash = trim (rw_row_hash raw), lk_seq = Some (rw_seq raw)\<rparr>"

record chain_verification =
  cv_tenantId :: string
  cv_valid :: bool
  cv_rowsChecked :: nat
  cv_firstBreak :: "verification_break option"
  cv_headHash :: string
  cv_recordedHeadHash :: "string option"

text \<open>The walk's variables.\<close>

record walk =
  wk_expected :: string
  wk_after :: nat
  wk_checked :: nat
  wk_break :: "verification_break option"
  wk_last :: "nat option"

definition select_page :: "audit_db \<Rightarrow> string \<Rightarrow> nat \<Rightarrow> nat \<Rightarrow> raw_row list" where
  "select_page db tn afterSeq batchSize =
     take batchSize (sort_key rw_seq
       (filter (\<lambda>r. rw_tenant_id r = tn \<and> afterSeq < rw_seq r) (db_events db)))"

definition seq_order_violated :: "nat \<Rightarrow> nat option \<Rightarrow> bool" where
  "seq_order_violated n lst = (case lst of None \<Rightarrow> False | Some m \<Rightarrow> n \<le> m)"

fun walk_rows ::
    "(string \<Rightarrow> string) \<Rightarrow> (rat \<Rightarrow> string) \<Rightarrow> string \<Rightarrow> raw_row list \<Rightarrow> walk \<Rightarrow>
       (canon_error, walk) result" where
  "walk_rows sha fmt tn [] w = Inr w"
| "walk_rows sha fmt tn (raw # rows) w =
     (let link = toLink raw; n = rw_seq raw in
      if seq_order_violated n (wk_last w) then
        Inr (w\<lparr>wk_break := Some \<lparr>brk_seq = Some n, brk_id = row_id link, brk_tenantId = tn,
          brk_reason = Ordering_violation, brk_expected = ''> '' @ nat_str (the (wk_last w)),
          brk_actual = nat_str n\<rparr>\<rparr>)
      else bind_result (verifyLink sha fmt link (wk_expected w)) (\<lambda>failure.
        case failure of
          Some b \<Rightarrow> Inr (w\<lparr>wk_last := Some n, wk_break := Some b\<rparr>)
        | None \<Rightarrow> walk_rows sha fmt tn rows
            (w\<lparr>wk_last := Some n, wk_expected := lk_rowHash link,
               wk_checked := wk_checked w + 1, wk_after := n\<rparr>)))"

definition walk_next :: "raw_row \<Rightarrow> walk \<Rightarrow> walk" where
  "walk_next raw w = w\<lparr>wk_last := Some (rw_seq raw), wk_expected := lk_rowHash (toLink raw),
     wk_checked := wk_checked w + 1, wk_after := rw_seq raw\<rparr>"

lemma walk_next_simps [simp]:
  "wk_last (walk_next raw w) = Some (rw_seq raw)"
  "wk_expected (walk_next raw w) = lk_rowHash (toLink raw)"
  "wk_checked (walk_next raw w) = wk_checked w + 1"
  "wk_after (walk_next raw w) = rw_seq raw"
  "wk_break (walk_next raw w) = wk_break w"
  by (simp_all add: walk_next_def)

lemma walk_rows_Cons:
  "\<not> seq_order_violated (rw_seq raw) (wk_last w) \<Longrightarrow>
     walk_rows sha fmt tn (raw # rows) w =
       bind_result (verifyLink sha fmt (toLink raw) (wk_expected w)) (\<lambda>failure.
         case failure of
           Some b \<Rightarrow> Inr (w\<lparr>wk_last := Some (rw_seq raw), wk_break := Some b\<rparr>)
         | None \<Rightarrow> walk_rows sha fmt tn rows (walk_next raw w))"
  by (simp only: walk_rows.simps Let_def walk_next_def if_False)

lemma walk_rows_Cons_ok:
  "walk_rows sha fmt tn (raw # rows) w = Inr w' \<Longrightarrow> wk_break w' = None \<Longrightarrow>
     \<not> seq_order_violated (rw_seq raw) (wk_last w) \<and>
     verifyLink sha fmt (toLink raw) (wk_expected w) = Inr None \<and>
     walk_rows sha fmt tn rows (walk_next raw w) = Inr w'"
  by (cases "verifyLink sha fmt (toLink raw) (wk_expected w)";
      cases "projr (verifyLink sha fmt (toLink raw) (wk_expected w))")
    (auto simp: Let_def walk_next_def split: if_split_asm)

declare walk_rows.simps(2) [simp del]

lemma walk_rows_after:
  "walk_rows sha fmt tn rows w = Inr w' \<Longrightarrow> wk_break w' = None \<Longrightarrow>
     wk_after w' = (if rows = [] then wk_after w else rw_seq (last rows))"
proof (induction rows arbitrary: w)
  case (Cons raw rows)
  from walk_rows_Cons_ok [OF Cons.prems] have "walk_rows sha fmt tn rows (walk_next raw w) = Inr w'"
    by blast
  from Cons.IH [OF this Cons.prems(2)] show ?case by simp
qed simp

lemma select_page_after: "r \<in> set (select_page db tn n b) \<Longrightarrow> rw_tenant_id r = tn \<and> n < rw_seq r"
  by (auto simp: select_page_def dest!: in_set_takeD)

lemma select_page_subset: "set (select_page db tn n b) \<subseteq> set (db_events db)"
  by (auto simp: select_page_def dest!: in_set_takeD)

function walk_pages ::
    "(string \<Rightarrow> string) \<Rightarrow> (rat \<Rightarrow> string) \<Rightarrow> audit_db \<Rightarrow> string \<Rightarrow> nat \<Rightarrow> walk \<Rightarrow>
       (canon_error, walk) result" where
  "walk_pages sha fmt db tn batchSize w =
     (let rows = select_page db tn (wk_after w) batchSize in
      if rows = [] then Inr w
      else bind_result (walk_rows sha fmt tn rows w) (\<lambda>w'.
        if wk_break w' \<noteq> None then Inr w'
        else if length rows < batchSize then Inr w'
        else walk_pages sha fmt db tn batchSize w'))"
  by pat_completeness auto
termination
proof (relation "measure (\<lambda>(sha, fmt, db, tn, b, w).
    length (filter (\<lambda>r. rw_tenant_id r = tn \<and> wk_after w < rw_seq r) (db_events db)))", goal_cases)
  case (2 sha fmt db tn b w rows w')
  let ?raw = "last (select_page db tn (wk_after w) b)"
  have raw: "?raw \<in> set (db_events db)" "rw_tenant_id ?raw = tn" "wk_after w < rw_seq ?raw"
    using 2 select_page_after [of ?raw] select_page_subset last_in_set by blast+
  have after: "wk_after w' = rw_seq ?raw"
    using 2 walk_rows_after by auto
  have "length (filter (\<lambda>r. rw_tenant_id r = tn \<and> wk_after w' < rw_seq r) (db_events db))
      < length (filter (\<lambda>r. rw_tenant_id r = tn \<and> wk_after w < rw_seq r) (db_events db))"
    by (rule length_filter_strict [OF raw(1)]) (use raw after in auto)
  then show ?case by simp
qed simp

declare walk_pages.simps [simp del]

definition start_walk :: "(string \<Rightarrow> string) \<Rightarrow> string \<Rightarrow> walk" where
  "start_walk sha tn = \<lparr>wk_expected = genesisHash sha tn, wk_after = 0, wk_checked = 0,
     wk_break = None, wk_last = None\<rparr>"

definition verifyTenantChain ::
    "(string \<Rightarrow> string) \<Rightarrow> (rat \<Rightarrow> string) \<Rightarrow> audit_db \<Rightarrow> string \<Rightarrow> nat option \<Rightarrow>
       (canon_error, chain_verification) result" where
  "verifyTenantChain sha fmt db tn batch =
     bind_result (walk_pages sha fmt db tn (or_default batch 1000) (start_walk sha tn)) (\<lambda>w.
       let recorded = map_option (\<lambda>(h, _). trim h) (db_heads db tn);
           expected = wk_expected w;
           truncated = (wk_break w = None \<and> recorded \<noteq> None \<and> recorded \<noteq> Some expected)
       in Inr \<lparr>cv_tenantId = tn,
            cv_valid = (wk_break w = None \<and> \<not> truncated),
            cv_rowsChecked = wk_checked w,
            cv_firstBreak =
              (if truncated
               then Some \<lparr>brk_seq = None, brk_id = ''(chain tail)'', brk_tenantId = tn,
                 brk_reason = Prev_hash_mismatch, brk_expected = the recorded,
                 brk_actual = expected\<rparr>
               else wk_break w),
            cv_headHash = expected, cv_recordedHeadHash = recorded\<rparr>)"

fun verify_each ::
    "(string \<Rightarrow> string) \<Rightarrow> (rat \<Rightarrow> string) \<Rightarrow> audit_db \<Rightarrow> nat option \<Rightarrow> string list \<Rightarrow>
       (canon_error, chain_verification list) result" where
  "verify_each sha fmt db batch [] = Inr []"
| "verify_each sha fmt db batch (tn # tns) =
     bind_result (verifyTenantChain sha fmt db tn batch) (\<lambda>r.
       bind_result (verify_each sha fmt db batch tns) (\<lambda>rs. Inr (r # rs)))"

definition verifyAllChains ::
    "(string \<Rightarrow> string) \<Rightarrow> (rat \<Rightarrow> string) \<Rightarrow> audit_db \<Rightarrow> nat option \<Rightarrow>
       (canon_error, chain_verification list) result" where
  "verifyAllChains sha fmt db batch =
     verify_each sha fmt db batch (sort (nub (map rw_tenant_id (db_events db))))"

section \<open>The batches together are one walk\<close>

text \<open>A tenant's rows in the order the verifier reads them.\<close>

definition rows_after :: "audit_db \<Rightarrow> string \<Rightarrow> nat \<Rightarrow> raw_row list" where
  "rows_after db tn n =
     sort_key rw_seq (filter (\<lambda>r. rw_tenant_id r = tn \<and> n < rw_seq r) (db_events db))"

lemma walk_rows_append:
  "wk_break w = None \<Longrightarrow> walk_rows sha fmt tn (xs @ ys) w =
     bind_result (walk_rows sha fmt tn xs w) (\<lambda>w'.
       if wk_break w' \<noteq> None then Inr w' else walk_rows sha fmt tn ys w')"
proof (induction xs arbitrary: w)
  case (Cons x xs)
  then have IH: "walk_rows sha fmt tn (xs @ ys) (walk_next x w) =
     bind_result (walk_rows sha fmt tn xs (walk_next x w)) (\<lambda>w'.
       if wk_break w' \<noteq> None then Inr w' else walk_rows sha fmt tn ys w')" by simp
  show ?case
  proof (cases "seq_order_violated (rw_seq x) (wk_last w)")
    case True
    then show ?thesis by (simp add: walk_rows.simps(2) Let_def)
  next
    case False
    with IH show ?thesis
      by (cases "verifyLink sha fmt (toLink x) (wk_expected w)";
          cases "projr (verifyLink sha fmt (toLink x) (wk_expected w))")
        (simp_all add: walk_rows_Cons)
  qed
qed simp

lemma rows_after_filter:
  "n \<le> m \<Longrightarrow> rows_after db tn m = filter (\<lambda>r. m < rw_seq r) (rows_after db tn n)"
  by (auto simp: rows_after_def filter_sort intro!: arg_cong [where f = "sort_key rw_seq"] filter_cong)

lemma rows_after_strict:
  assumes "distinct (map rw_seq (rows_after db tn 0))"
  shows "sorted (map rw_seq (rows_after db tn n))" "distinct (map rw_seq (rows_after db tn n))"
proof -
  show "sorted (map rw_seq (rows_after db tn n))" by (simp add: rows_after_def)
  show "distinct (map rw_seq (rows_after db tn n))"
    using assms rows_after_filter [of 0 n db tn] by (simp add: distinct_map_filter)
qed

lemma filter_above:
  fixes f :: "'a \<Rightarrow> nat"
  assumes "xs = us @ x # vs" "sorted (map f xs)" "distinct (map f xs)"
  shows "filter (\<lambda>r. f x < f r) xs = vs"
proof -
  have "\<forall>r \<in> set us. \<not> f x < f r" "\<forall>r \<in> set vs. f x < f r"
    using assms by (auto simp: sorted_append order.order_iff_strict)
  then show ?thesis using assms(1) by (auto simp: filter_empty_conv filter_id_conv)
qed

lemma rows_after_split:
  assumes "distinct (map rw_seq (rows_after db tn 0))" and "select_page db tn n b \<noteq> []"
  shows "rows_after db tn n = select_page db tn n b @
    (if length (select_page db tn n b) < b then []
     else rows_after db tn (rw_seq (last (select_page db tn n b))))"
proof -
  let ?all = "rows_after db tn n" and ?page = "select_page db tn n b"
  have page: "?page = take b ?all" by (simp add: select_page_def rows_after_def)
  show ?thesis
  proof (cases "length ?page < b")
    case True
    with page show ?thesis by simp
  next
    case False
    let ?k = "rw_seq (last ?page)"
    have split: "?all = butlast ?page @ last ?page # drop b ?all"
      using assms(2) page by (metis append.assoc append_Cons append_Nil append_butlast_last_id
          append_take_drop_id)
    have "n \<le> ?k"
      using select_page_after [of "last ?page"] assms(2) last_in_set by fastforce
    then have "rows_after db tn ?k = drop b ?all"
      using filter_above [OF split rows_after_strict [OF assms(1)]] by (simp add: rows_after_filter)
    with False page show ?thesis by simp
  qed
qed

lemma walk_pages_rows:
  assumes "distinct (map rw_seq (rows_after db tn 0))" "0 < b"
  shows "wk_break w = None \<Longrightarrow>
    walk_pages sha fmt db tn b w = walk_rows sha fmt tn (rows_after db tn (wk_after w)) w"
  using assms
proof (induction sha fmt db tn b w rule: walk_pages.induct)
  case (1 sha fmt db tn b w)
  let ?page = "select_page db tn (wk_after w) b"
  show ?case
  proof (cases "?page = []")
    case True
    then have "rows_after db tn (wk_after w) = []"
      using \<open>0 < b\<close> by (simp add: select_page_def rows_after_def)
    with True show ?thesis by (simp add: walk_pages.simps)
  next
    case False
    let ?rest = "\<lambda>w'. if length ?page < b then [] else rows_after db tn (wk_after w')"
    have next_page: "(if length ?page < b then Inr w' else walk_pages sha fmt db tn b w')
        = walk_rows sha fmt tn (?rest w') w'"
      if "walk_rows sha fmt tn ?page w = Inr w'" "wk_break w' = None" for w'
      using "1.IH" [OF refl False that(1)] that "1.prems" by simp
    have "walk_pages sha fmt db tn b w = bind_result (walk_rows sha fmt tn ?page w) (\<lambda>w'.
        if wk_break w' \<noteq> None then Inr w' else walk_rows sha fmt tn (?rest w') w')"
      using False next_page
      by (subst walk_pages.simps, unfold Let_def, simp only: if_False)
        (intro bind_result_cong if_cong refl; simp)
    also have "\<dots> = bind_result (walk_rows sha fmt tn ?page w) (\<lambda>w'.
        if wk_break w' \<noteq> None then Inr w' else walk_rows sha fmt tn
          (if length ?page < b then [] else rows_after db tn (rw_seq (last ?page))) w')"
      using walk_rows_after [of sha fmt tn ?page w] False by (intro bind_result_cong) auto
    also have "\<dots> = walk_rows sha fmt tn (rows_after db tn (wk_after w)) w"
      using rows_after_split [OF "1.prems"(2) False] walk_rows_append [OF "1.prems"(1)] by metis
    finally show ?thesis .
  qed
qed

definition walk_agrees ::
    "string \<Rightarrow> nat \<Rightarrow> raw_row list \<Rightarrow> (canon_error, walk) result \<Rightarrow>
       (canon_error, chain_result) result \<Rightarrow> bool" where
  "walk_agrees h n rows walked verified =
     (case walked of
        Inl e \<Rightarrow> verified = Inl e
      | Inr w \<Rightarrow> n \<le> wk_checked w
          \<and> wk_expected w = chain_head h (map toLink (take (wk_checked w - n) rows))
          \<and> verified = Inr \<lparr>res_valid = (wk_break w = None), res_checked = wk_checked w,
              res_break = wk_break w\<rparr>)"

lemma walk_agrees_Cons:
  "walk_agrees (lk_rowHash (toLink r)) (n + 1) rows walked verified \<Longrightarrow>
     walk_agrees h n (r # rows) walked verified"
  by (auto simp: walk_agrees_def Suc_le_eq Suc_diff_Suc [symmetric] split: sum.splits)

lemma walk_rows_verify:
  assumes "sorted (map rw_seq rows)" "distinct (map rw_seq rows)" "wk_break w = None"
    and "\<forall>r \<in> set rows. \<not> seq_order_violated (rw_seq r) (wk_last w)"
  shows "walk_agrees (wk_expected w) (wk_checked w) rows (walk_rows sha fmt tn rows w)
    (verify_from sha fmt (wk_expected w) (wk_checked w) (map toLink rows))"
  using assms
proof (induction rows arbitrary: w)
  case Nil
  then show ?case by (simp add: walk_agrees_def)
next
  case (Cons r rows)
  have "\<not> seq_order_violated (rw_seq r') (wk_last (walk_next r w))" if "r' \<in> set rows" for r'
  proof -
    have "rw_seq r \<le> rw_seq r'" "rw_seq r \<noteq> rw_seq r'" using Cons.prems(1,2) that by auto
    then show ?thesis by (simp add: seq_order_violated_def)
  qed
  then have IH: "walk_agrees (lk_rowHash (toLink r)) (wk_checked w + 1) rows
      (walk_rows sha fmt tn rows (walk_next r w))
      (verify_from sha fmt (lk_rowHash (toLink r)) (wk_checked w + 1) (map toLink rows))"
    using Cons.IH [of "walk_next r w"] Cons.prems(1-3) by simp
  have ok: "\<not> seq_order_violated (rw_seq r) (wk_last w)" using Cons.prems(4) by simp
  show ?case
  proof (cases "verifyLink sha fmt (toLink r) (wk_expected w)")
    case (Inr x)
    then show ?thesis
      using walk_agrees_Cons [OF IH] ok
      by (cases x) (simp_all add: walk_rows_Cons walk_agrees_def [of _ _ _ "Inr _"])
  qed (simp add: walk_rows_Cons ok walk_agrees_def)
qed

text \<open>The report on a tenant, given the verification of all its rows as one chain.\<close>

definition tenant_report ::
    "(string \<Rightarrow> string) \<Rightarrow> audit_db \<Rightarrow> string \<Rightarrow> chain_result \<Rightarrow> chain_verification" where
  "tenant_report sha db tn r =
     (let recorded = map_option (\<lambda>(h, _). trim h) (db_heads db tn);
          expected = chain_head (genesisHash sha tn)
            (map toLink (take (res_checked r) (rows_after db tn 0)));
          truncated = (res_break r = None \<and> recorded \<noteq> None \<and> recorded \<noteq> Some expected)
      in \<lparr>cv_tenantId = tn, cv_valid = (res_break r = None \<and> \<not> truncated),
          cv_rowsChecked = res_checked r,
          cv_firstBreak =
            (if truncated
             then Some \<lparr>brk_seq = None, brk_id = ''(chain tail)'', brk_tenantId = tn,
               brk_reason = Prev_hash_mismatch, brk_expected = the recorded,
               brk_actual = expected\<rparr>
             else res_break r),
          cv_headHash = expected, cv_recordedHeadHash = recorded\<rparr>)"

lemma verifyTenantChain_walk:
  assumes "distinct (map rw_seq (rows_after db tn 0))" "0 < or_default batch 1000"
  shows "verifyTenantChain sha fmt db tn batch =
    bind_result (verifyChain sha fmt tn (map toLink (rows_after db tn 0)))
      (\<lambda>r. Inr (tenant_report sha db tn r))"
proof -
  let ?w = "start_walk sha tn" and ?rows = "rows_after db tn 0"
  have w: "wk_expected ?w = genesisHash sha tn" "wk_checked ?w = 0" "wk_after ?w = 0"
      "wk_break ?w = None" "wk_last ?w = None"
    by (simp_all add: start_walk_def)
  have pages: "walk_pages sha fmt db tn (or_default batch 1000) ?w = walk_rows sha fmt tn ?rows ?w"
    using walk_pages_rows [OF assms w(4)] w by simp
  have "walk_agrees (genesisHash sha tn) 0 ?rows (walk_rows sha fmt tn ?rows ?w)
      (verifyChain sha fmt tn (map toLink ?rows))"
    using walk_rows_verify [OF rows_after_strict [OF assms(1)], of ?w 0] w
    by (simp add: verifyChain_def seq_order_violated_def)
  then show ?thesis
    unfolding verifyTenantChain_def pages tenant_report_def
    by (cases "walk_rows sha fmt tn ?rows ?w")
      (simp_all add: walk_agrees_def Let_def del: not_None_eq)
qed

section \<open>What the writer leaves in the tables\<close>

lemma hex_not_space: "hex_lower c \<Longrightarrow> \<not> js_space c"
  by (auto simp: hex_lower_def js_space_def is_digit_def)

lemma trim_digest [simp]: "is_digest h \<Longrightarrow> trim h = h"
  by (rule trim_id) (auto simp: is_digest_def list_all_iff hex_not_space)

lemma char64_digest [simp]: "is_digest h \<Longrightarrow> char64 h = h"
  by (simp add: char64_def is_digest_def)

lemma digest_env_sha: "digest_env (sha, fmt) \<Longrightarrow> is_digest (sha256Hex sha s)"
  by (simp add: digest_env_def sha256Hex_def)

lemma toLink_stored_row:
  assumes "is_digest (row_argumentsHash row)" "is_digest p" "is_digest h"
  shows "audit_row.truncate (toLink (stored_row n row p h)) = row"
    and "lk_prevHash (toLink (stored_row n row p h)) = p"
    and "lk_rowHash (toLink (stored_row n row p h)) = h"
  using assms
  by (cases row; cases "row_decision row";
      simp add: toLink_def stored_row_def audit_row.defs decision_str_def)+

definition tenant_rows :: "audit_db \<Rightarrow> string \<Rightarrow> raw_row list" where
  "tenant_rows db tn = filter (\<lambda>r. rw_tenant_id r = tn) (db_events db)"

definition audit_ok :: "(string \<Rightarrow> string) \<Rightarrow> (rat \<Rightarrow> string) \<Rightarrow> audit_db \<Rightarrow> bool" where
  "audit_ok sha fmt db \<longleftrightarrow>
     sorted_wrt (<) (map rw_seq (db_events db)) \<and> 0 < db_next_seq db \<and>
     (\<forall>r \<in> set (db_events db). 0 < rw_seq r \<and> rw_seq r < db_next_seq db) \<and>
     (\<forall>tn. linked_from sha fmt (genesisHash sha tn) (map toLink (tenant_rows db tn)) \<and>
        or_default (db_heads db tn) (genesisHash sha tn, 0) =
          (chain_head (genesisHash sha tn) (map toLink (tenant_rows db tn)),
           length (tenant_rows db tn)))"

lemma audit_ok_empty: "audit_ok sha fmt empty_audit_db"
  by (simp add: audit_ok_def empty_audit_db_def tenant_rows_def)

lemma rows_after_tenant_rows: "audit_ok sha fmt db \<Longrightarrow> rows_after db tn 0 = tenant_rows db tn"
proof -
  assume ok: "audit_ok sha fmt db"
  then have "filter (\<lambda>r. rw_tenant_id r = tn \<and> 0 < rw_seq r) (db_events db) = tenant_rows db tn"
    unfolding tenant_rows_def by (intro filter_cong) (auto simp: audit_ok_def)
  moreover have "sorted (map rw_seq (tenant_rows db tn))"
    using ok by (simp add: audit_ok_def tenant_rows_def strict_sorted_iff sorted_filter)
  ultimately show ?thesis by (simp add: rows_after_def sort_key_id_if_sorted)
qed

lemma audit_ok_distinct: "audit_ok sha fmt db \<Longrightarrow> distinct (map rw_seq (rows_after db tn 0))"
  by (simp add: rows_after_tenant_rows)
    (simp add: audit_ok_def tenant_rows_def strict_sorted_iff distinct_map_filter)

lemma chain_head_digest:
  assumes "digest_env (sha, fmt)" "linked_from sha fmt (genesisHash sha tn) ls"
  shows "is_digest (chain_head (genesisHash sha tn) ls)"
  using audit.head_hashy [OF assms(1), of "genesisHash sha tn" "map abs_link ls"]
    digest_env_sha [OF assms(1)] assms(2)
  by (simp add: linked_from_def chain_head_abs genesisHash_def)

text \<open>The link an append adds, and the state it leaves.\<close>

definition append_state :: "audit_db \<Rightarrow> audit_row \<Rightarrow> string \<Rightarrow> string \<Rightarrow> nat \<Rightarrow> audit_db" where
  "append_state db row prevHash rowHash len =
     db\<lparr>db_next_seq := db_next_seq db + 1,
        db_heads := map_set (db_heads db) (row_tenantId row) (char64 rowHash, len + 1),
        db_events := db_events db @ [stored_row (db_next_seq db) row prevHash rowHash]\<rparr>"

lemma append_tx_cases:
  assumes "append_tx sha fmt refuses refuses_json capture args row db = (db', res)"
  obtains (failed) e n where "res = Inl e" "db' = db\<lparr>db_next_seq := n\<rparr>" "db_next_seq db \<le> n"
  | (appended) prevHash len rowHash ps where
      "(prevHash, len) = or_default (db_heads db (row_tenantId row))
         (char64 (genesisHash sha (row_tenantId row)), 0)"
      "computeRowHash sha fmt prevHash row = Inr rowHash"
      "res = Inr (db_next_seq db, prevHash, rowHash)"
      "db' = append_state db row prevHash rowHash len\<lparr>db_payloads := ps\<rparr>"
      "ps = db_payloads db \<or> (\<exists>p. capture \<and> json_stringify fmt args = Inr (Some p) \<and>
         ps = db_payloads db @ [(row_id row, row_tenantId row, p)])"
      "\<not> refuses (stored_row (db_next_seq db) row prevHash rowHash)"
      "row_id row \<notin> set (map rw_id (db_events db))"
proof -
  obtain prevHash len where
    pl: "(prevHash, len) = or_default (db_heads db (row_tenantId row))
         (char64 (genesisHash sha (row_tenantId row)), 0)" by (metis surj_pair)
  have failing: thesis if "res = Inl e" "db' = db" for e
    by (rule failed [of e "db_next_seq db"]) (use that in auto)
  have numbered: thesis if "res = Inl e" "db' = db\<lparr>db_next_seq := db_next_seq db + 1\<rparr>" for e
    by (rule failed [of e "db_next_seq db + 1"]) (use that in auto)
  show thesis
  proof (cases "computeRowHash sha fmt prevHash row")
    case (Inl e)
    have "append_tx sha fmt refuses refuses_json capture args row db = (db, Inl (Not_canonical e))"
      unfolding append_tx_def Let_def pl [symmetric] by (simp add: Inl)
    with assms show thesis by (intro failing) auto
  next
    case (Inr rowHash)
    let ?raw = "stored_row (db_next_seq db) row prevHash rowHash"
    have rw: "rw_id ?raw = row_id row" by (simp add: stored_row_def)
    have tx: "append_tx sha fmt refuses refuses_json capture args row db =
        (if refuses ?raw \<or> rw_id ?raw \<in> set (map rw_id (db_events db))
         then (db\<lparr>db_next_seq := db_next_seq db + 1\<rparr>, Inl Database_error)
         else if \<not> capture then (append_state db row prevHash rowHash len, Inr (db_next_seq db, prevHash, rowHash))
         else case json_stringify fmt args of
             Inl e \<Rightarrow> (db\<lparr>db_next_seq := db_next_seq db + 1\<rparr>, Inl (Not_serialisable e))
           | Inr None \<Rightarrow> (db\<lparr>db_next_seq := db_next_seq db + 1\<rparr>, Inl Database_error)
           | Inr (Some payload) \<Rightarrow>
               if refuses_json payload \<or> row_id row \<in> set (map fst (db_payloads db))
               then (db\<lparr>db_next_seq := db_next_seq db + 1\<rparr>, Inl Database_error)
               else (append_state db row prevHash rowHash len\<lparr>db_payloads :=
                       db_payloads db @ [(row_id row, row_tenantId row, payload)]\<rparr>,
                     Inr (db_next_seq db, prevHash, rowHash)))"
      unfolding append_tx_def append_state_def Let_def pl [symmetric] by (simp add: Inr)
    have same: "append_state db row prevHash rowHash len =
        append_state db row prevHash rowHash len\<lparr>db_payloads := db_payloads db\<rparr>"
      by (simp add: append_state_def)
    have committed: thesis
      if "res = Inr (db_next_seq db, prevHash, rowHash)"
        "db' = append_state db row prevHash rowHash len\<lparr>db_payloads := ps\<rparr>"
        "ps = db_payloads db \<or> (\<exists>p. capture \<and> json_stringify fmt args = Inr (Some p) \<and>
           ps = db_payloads db @ [(row_id row, row_tenantId row, p)])"
        "\<not> refuses ?raw" "row_id row \<notin> set (map rw_id (db_events db))" for ps
      by (rule appended [OF pl Inr that])
    consider (bad) "refuses ?raw \<or> row_id row \<in> set (map rw_id (db_events db))"
      | (plain) "\<not> refuses ?raw" "row_id row \<notin> set (map rw_id (db_events db))" "\<not> capture"
      | (cap) "\<not> refuses ?raw" "row_id row \<notin> set (map rw_id (db_events db))" capture by blast
    then show thesis
    proof cases
      case bad
      with assms tx show ?thesis by (intro numbered) (auto simp: rw)
    next
      case plain
      then have "res = Inr (db_next_seq db, prevHash, rowHash)"
        "db' = append_state db row prevHash rowHash len"
        using assms unfolding tx rw by simp_all
      then show ?thesis using plain by (intro committed [of "db_payloads db"]) (simp_all flip: same)
    next
      case cap
      show ?thesis
      proof (cases "\<exists>p. json_stringify fmt args = Inr (Some p) \<and>
          \<not> (refuses_json p \<or> row_id row \<in> set (map fst (db_payloads db)))")
        case True
        then obtain p where p: "json_stringify fmt args = Inr (Some p)"
          "\<not> (refuses_json p \<or> row_id row \<in> set (map fst (db_payloads db)))" by blast
        with assms cap show ?thesis unfolding tx rw
          by (intro committed [of "db_payloads db @ [(row_id row, row_tenantId row, p)]"]) simp_all
      next
        case False
        then obtain e where "res = Inl e" "db' = db\<lparr>db_next_seq := db_next_seq db + 1\<rparr>"
          using assms cap unfolding tx rw
          by (auto split: sum.split_asm option.split_asm if_split_asm)
        then show ?thesis by (rule numbered)
      qed
    qed
  qed
qed

lemma tenant_rows_append_state:
  "tenant_rows (append_state db row p h len\<lparr>db_payloads := ps\<rparr>) tn =
     tenant_rows db tn @ (if tn = row_tenantId row then [stored_row (db_next_seq db) row p h] else [])"
  by (simp add: tenant_rows_def append_state_def stored_row_def)

lemma audit_ok_appended:
  assumes env: "digest_env (sha, fmt)" and ok: "audit_ok sha fmt db"
    and head: "(p, len) = or_default (db_heads db (row_tenantId row))
      (char64 (genesisHash sha (row_tenantId row)), 0)"
    and hash: "computeRowHash sha fmt p row = Inr h"
    and args: "is_digest (row_argumentsHash row)"
  shows "audit_ok sha fmt (append_state db row p h len\<lparr>db_payloads := ps\<rparr>)"
    and "p = chain_head (genesisHash sha (row_tenantId row))
      (map toLink (tenant_rows db (row_tenantId row)))"
proof -
  let ?tn = "row_tenantId row" and ?raw = "stored_row (db_next_seq db) row p h"
  let ?db = "append_state db row p h len\<lparr>db_payloads := ps\<rparr>"
  have gen: "is_digest (genesisHash sha tn)" for tn
    by (simp add: genesisHash_def digest_env_sha [OF env])
  have lk: "linked_from sha fmt (genesisHash sha tn) (map toLink (tenant_rows db tn))"
    and hd: "or_default (db_heads db tn) (genesisHash sha tn, 0) =
      (chain_head (genesisHash sha tn) (map toLink (tenant_rows db tn)),
        length (tenant_rows db tn))" for tn
    using ok by (simp_all add: audit_ok_def)
  have p: "p = chain_head (genesisHash sha ?tn) (map toLink (tenant_rows db ?tn))"
    and len: "len = length (tenant_rows db ?tn)"
    using head hd [of ?tn] by (simp_all add: gen)
  then show "p = chain_head (genesisHash sha ?tn) (map toLink (tenant_rows db ?tn))" by simp
  have dp: "is_digest p" using chain_head_digest [OF env lk] p by simp
  have dh: "is_digest h"
    using hash digest_env_sha [OF env] by (auto simp: computeRowHash_def bind_result_Inr_iff)
  note link = toLink_stored_row [OF args dp dh, of "db_next_seq db"]
  have canon: "canonicalRow fmt (toLink ?raw) = canonicalRow fmt row"
    using canonicalRow_truncate [of fmt "toLink ?raw"] link(1) by simp
  have verified: "verifyLink sha fmt (toLink ?raw) p = Inr None"
    using hash canon link by (simp add: verifyLink_None computeRowHash_def)
  have seqs: "sorted_wrt (<) (map rw_seq (db_events db))" "0 < db_next_seq db"
    "\<forall>r \<in> set (db_events db). 0 < rw_seq r \<and> rw_seq r < db_next_seq db"
    using ok by (auto simp: audit_ok_def)
  have "sorted_wrt (<) (map rw_seq (db_events ?db)) \<and> 0 < db_next_seq ?db \<and>
      (\<forall>r \<in> set (db_events ?db). 0 < rw_seq r \<and> rw_seq r < db_next_seq ?db)"
    using seqs by (auto simp: append_state_def sorted_wrt_append stored_row_def)
  moreover have "linked_from sha fmt (genesisHash sha tn) (map toLink (tenant_rows ?db tn))" for tn
    using lk [of tn] verified p by (simp add: tenant_rows_append_state linked_from_append)
  moreover have "or_default (db_heads ?db tn) (genesisHash sha tn, 0) =
      (chain_head (genesisHash sha tn) (map toLink (tenant_rows ?db tn)),
        length (tenant_rows ?db tn))" for tn
  proof (cases "tn = ?tn")
    case True
    then show ?thesis
      using dh len link(3) by (simp add: tenant_rows_append_state) (simp add: append_state_def)
  next
    case False
    then show ?thesis
      using hd [of tn] by (simp add: tenant_rows_append_state) (simp add: append_state_def)
  qed
  ultimately show "audit_ok sha fmt ?db" by (simp add: audit_ok_def)
qed

lemma audit_ok_append:
  assumes "digest_env (sha, fmt)" "audit_ok sha fmt db"
  shows "audit_ok sha fmt
    (fst (audit_append sha fmt refuses refuses_json capturePayloads newId now input db))"
proof (cases "sha256Canonical sha fmt (in_arguments input)")
  case (Inl e)
  then show ?thesis using assms by (simp add: audit_append_def)
next
  case (Inr ah)
  then have ah: "is_digest ah"
    using digest_env_sha [OF assms(1)]
    by (auto simp: sha256Canonical_def bind_result_Inr_iff sha256Hex_def)
  let ?row = "input_row newId now ah input"
  let ?cap = "or_default (in_capturePayload input) capturePayloads"
  obtain db' res where tx:
    "append_tx sha fmt refuses refuses_json ?cap (in_arguments input) ?row db = (db', res)"
    by (metis surj_pair)
  have "fst (audit_append sha fmt refuses refuses_json capturePayloads newId now input db) = db'"
    by (simp add: audit_append_def Inr tx split: sum.split)
  moreover have "audit_ok sha fmt db'"
    using tx
  proof (cases rule: append_tx_cases)
    case (failed e n)
    with assms(2) show ?thesis by (auto simp: audit_ok_def tenant_rows_def)
  next
    case (appended p len h ps)
    then show ?thesis
      using audit_ok_appended(1) [OF assms appended(1,2)] ah by (simp add: input_row_def)
  qed
  ultimately show ?thesis by simp
qed

text \<open>The logs that appends produce, whatever the order, the tenants and the failures.\<close>

inductive audit_reachable ::
    "(string \<Rightarrow> string) \<Rightarrow> (rat \<Rightarrow> string) \<Rightarrow> audit_db \<Rightarrow> bool" for sha fmt where
  start: "audit_reachable sha fmt empty_audit_db"
| append: "audit_reachable sha fmt db \<Longrightarrow>
     audit_reachable sha fmt
       (fst (audit_append sha fmt refuses refuses_json capturePayloads newId now input db))"

lemma audit_reachable_ok:
  "audit_reachable sha fmt db \<Longrightarrow> digest_env (sha, fmt) \<Longrightarrow> audit_ok sha fmt db"
  by (induction rule: audit_reachable.induct) (auto intro: audit_ok_empty audit_ok_append)

lemma appended_log_report:
  assumes "digest_env (sha, fmt)" "audit_ok sha fmt db" "0 < or_default batch 1000"
  shows "verifyTenantChain sha fmt db tn batch = Inr
    (let h = chain_head (genesisHash sha tn) (map toLink (tenant_rows db tn))
     in \<lparr>cv_tenantId = tn, cv_valid = True, cv_rowsChecked = length (tenant_rows db tn),
         cv_firstBreak = None, cv_headHash = h,
         cv_recordedHeadHash = (if db_heads db tn = None then None else Some h)\<rparr>)"
proof -
  let ?h = "chain_head (genesisHash sha tn) (map toLink (tenant_rows db tn))"
  have lk: "linked_from sha fmt (genesisHash sha tn) (map toLink (tenant_rows db tn))"
    and hd: "or_default (db_heads db tn) (genesisHash sha tn, 0) = (?h, length (tenant_rows db tn))"
    using assms(2) by (simp_all add: audit_ok_def)
  have "verifyChain sha fmt tn (map toLink (tenant_rows db tn)) =
      Inr \<lparr>res_valid = True, res_checked = length (tenant_rows db tn), res_break = None\<rparr>"
    using lk by (simp add: verifyChain_def verify_from_valid)
  then have report: "verifyTenantChain sha fmt db tn batch =
      Inr (tenant_report sha db tn
        \<lparr>res_valid = True, res_checked = length (tenant_rows db tn), res_break = None\<rparr>)"
    using verifyTenantChain_walk [OF audit_ok_distinct [OF assms(2)] assms(3)]
    by (simp add: rows_after_tenant_rows [OF assms(2)])
  show ?thesis
  proof (cases "db_heads db tn")
    case None
    then show ?thesis
      unfolding report tenant_report_def by (simp add: rows_after_tenant_rows [OF assms(2)] Let_def)
  next
    case (Some x)
    then have "x = (?h, length (tenant_rows db tn))" using hd by simp
    then show ?thesis
      using chain_head_digest [OF assms(1) lk] Some
      unfolding report tenant_report_def by (simp add: rows_after_tenant_rows [OF assms(2)] Let_def)
  qed
qed

lemma report_valid:
  assumes "distinct (map rw_seq (rows_after db tn 0))" "0 < or_default batch 1000"
    and "verifyTenantChain sha fmt db tn batch = Inr cv" "cv_valid cv"
  shows "linked_from sha fmt (genesisHash sha tn) (map toLink (rows_after db tn 0)) \<and>
    (db_heads db tn = Some (h, n) \<longrightarrow>
       trim h = chain_head (genesisHash sha tn) (map toLink (rows_after db tn 0)))"
proof -
  obtain r where r: "verifyChain sha fmt tn (map toLink (rows_after db tn 0)) = Inr r"
    "cv = tenant_report sha db tn r"
    using assms(3) unfolding verifyTenantChain_walk [OF assms(1,2)] by (auto simp: bind_result_Inr_iff)
  with assms(4) have "res_break r = None" by (simp add: tenant_report_def Let_def)
  then have "res_valid r"
    using r(1) verify_from_break [of sha fmt "genesisHash sha tn" 0 "map toLink (rows_after db tn 0)"
        "res_checked r" None]
    by (cases r) (auto simp: verifyChain_def)
  from verifyChain_linked [OF r(1) this] r(2) assms(4) show ?thesis
    by (auto simp: tenant_report_def Let_def)
qed

section \<open>A log to evaluate with\<close>

definition demo_input :: append_input where
  "demo_input = \<lparr>in_tenantId = ''acme'', in_userId = ''ada'', in_actorTokenJti = ''j1'',
     in_mcpServer = ''crm'', in_toolName = ''q'', in_arguments = CObj [(''k'', CNull)],
     in_decision = Deny, in_denyReason = Some ''no'', in_latencyMs = JFin (5 / 2),
     in_traceId = None, in_occurredAt = None, in_capturePayload = Some True\<rparr>"

definition demo_db :: audit_db where
  "demo_db = fst (audit_append len_digest ratio_fmt (\<lambda>_. False) (\<lambda>_. False) False ''e1'' (Some 0)
     demo_input empty_audit_db)"

lemma demo_db_reachable: "audit_reachable len_digest ratio_fmt demo_db"
  unfolding demo_db_def by (intro audit_reachable.intros)

lemma demo_db_rows: "map rw_latency_ms (tenant_rows demo_db ''acme'') = [JFin 3]"
  "map fst (db_payloads demo_db) = [''e1'']"
  "map_option snd (db_heads demo_db ''acme'') = Some 1"
  by code_simp+

section \<open>Properties\<close>

text \<open>An append commits as a whole or not at all. When it returns a row, the row is stored last,
  under the next sequence number and after the recorded head, and the head moves to its hash;
  when it throws, heads, events and payloads are untouched.\<close>

theorem audit_append_atomic:
  "case audit_append sha fmt refuses refuses_json capturePayloads newId now input db of
     (db', Inl e) \<Rightarrow>
       db_heads db' = db_heads db \<and> db_events db' = db_events db \<and> db_payloads db' = db_payloads db
   | (db', Inr a) \<Rightarrow>
       (\<exists>ah len. sha256Canonical sha fmt (in_arguments input) = Inr ah \<and>
          (app_prevHash a, len) = or_default (db_heads db (in_tenantId input))
            (char64 (genesisHash sha (in_tenantId input)), 0) \<and>
          computeRowHash sha fmt (app_prevHash a) (input_row newId now ah input) = Inr (app_rowHash a) \<and>
          db_heads db' = map_set (db_heads db) (in_tenantId input) (char64 (app_rowHash a), len + 1) \<and>
          db_events db' = db_events db @
            [stored_row (app_seq a) (input_row newId now ah input) (app_prevHash a) (app_rowHash a)] \<and>
          app_id a = newId \<and> newId \<notin> set (map rw_id (db_events db)) \<and>
          app_seq a = db_next_seq db \<and> db_next_seq db' = db_next_seq db + 1)"
proof (cases "sha256Canonical sha fmt (in_arguments input)")
  case (Inl e)
  then show ?thesis by (simp add: audit_append_def)
next
  case (Inr ah)
  let ?row = "input_row newId now ah input"
  let ?cap = "or_default (in_capturePayload input) capturePayloads"
  obtain db' res where tx:
    "append_tx sha fmt refuses refuses_json ?cap (in_arguments input) ?row db = (db', res)"
    by (metis surj_pair)
  have [simp]: "row_tenantId ?row = in_tenantId input" "row_id ?row = newId"
    by (simp_all add: input_row_def)
  from tx show ?thesis
  proof (cases rule: append_tx_cases)
    case (failed e n)
    then show ?thesis using tx Inr by (simp add: audit_append_def)
  next
    case (appended p len h ps)
    then have "audit_append sha fmt refuses refuses_json capturePayloads newId now input db =
        (append_state db ?row p h len\<lparr>db_payloads := ps\<rparr>, Inr \<lparr>app_id = newId,
           app_seq = db_next_seq db, app_prevHash = p, app_rowHash = h, app_ts = row_ts ?row\<rparr>)"
      using tx Inr by (simp add: audit_append_def Let_def)
    then show ?thesis
      using appended(1,2,7) by (simp add: Inr append_state_def) metis
  qed
qed

text \<open>C16: what the writer appends, the verifier accepts. After any sequence of appends, for any
  tenants and including failed ones, the verification of each tenant reports its chain valid with
  every one of its rows checked, whatever the batch size.\<close>

theorem appended_log_verifies:
  assumes "digest_env (sha, fmt)" and "audit_reachable sha fmt db" and "0 < or_default batch 1000"
  shows "\<exists>cv. verifyTenantChain sha fmt db tn batch = Inr cv \<and> cv_valid cv \<and>
    cv_rowsChecked cv = length (tenant_rows db tn) \<and> cv_firstBreak cv = None"
  using appended_log_report [OF assms(1) audit_reachable_ok [OF assms(2,1)] assms(3), of tn]
  by (simp add: Let_def)

theorem appended_log_verifies_witness:
  "\<exists>cv. verifyTenantChain len_digest ratio_fmt demo_db ''acme'' None = Inr cv \<and> cv_valid cv \<and>
     cv_rowsChecked cv = 1 \<and> cv_firstBreak cv = None"
proof -
  have "length (tenant_rows demo_db ''acme'') = 1"
    using arg_cong [OF demo_db_rows(1), of length] by simp
  with appended_log_verifies [OF digest_env_example demo_db_reachable, of None "''acme''"]
  show ?thesis by simp
qed

text \<open>C27: reading in batches changes nothing. With distinct sequence numbers and a positive batch
  size, the batched walk with its head comparison reports what verifying all the tenant's rows as
  one chain gives.\<close>

theorem verifyTenantChain_unbatched:
  assumes "distinct (map rw_seq (rows_after db tn 0))" and "0 < or_default batch 1000"
  shows "verifyTenantChain sha fmt db tn batch =
    bind_result (verifyChain sha fmt tn (map toLink (rows_after db tn 0)))
      (\<lambda>r. Inr (tenant_report sha db tn r))"
  by (rule verifyTenantChain_walk [OF assms])

theorem verifyTenantChain_unbatched_witness:
  "verifyTenantChain len_digest ratio_fmt demo_db ''acme'' (Some 1) =
    bind_result (verifyChain len_digest ratio_fmt ''acme'' (map toLink (rows_after demo_db ''acme'' 0)))
      (\<lambda>r. Inr (tenant_report len_digest demo_db ''acme'' r))"
  using verifyTenantChain_unbatched [of demo_db "''acme''" "Some 1"]
    audit_ok_distinct [OF audit_reachable_ok [OF demo_db_reachable digest_env_example]]
  by simp

text \<open>C17: the recorded head pins the log. If the tables are changed after the appends in any way that
  keeps the tenant's recorded head (rows edited, deleted, cut from the tail, inserted, renumbered)
  and the verification still reports the chain valid, the tenant's rows have the same contents in
  the same order, as long as the digest has no collision among the texts of the two logs.\<close>

theorem recorded_head_pins_log:
  assumes "digest_env (sha, fmt)" and "audit_reachable sha fmt db"
    and "db_heads db tn \<noteq> None" and "db_heads db' tn = db_heads db tn"
    and "distinct (map rw_seq (rows_after db' tn 0))" and "0 < or_default batch 1000"
    and "verifyTenantChain sha fmt db' tn batch = Inr cv" and "cv_valid cv"
    and "inj_on sha (chain_texts fmt tn (map toLink (tenant_rows db tn)) \<union>
      chain_texts fmt tn (map toLink (rows_after db' tn 0)))"
  shows "map row_content (map toLink (rows_after db' tn 0)) =
    map row_content (map toLink (tenant_rows db tn))"
proof -
  let ?g = "genesisHash sha tn" and ?ls = "map toLink (tenant_rows db tn)"
    and ?ls' = "map toLink (rows_after db' tn 0)"
  have ok: "audit_ok sha fmt db" by (rule audit_reachable_ok [OF assms(2,1)])
  then have lk: "linked_from sha fmt ?g ?ls"
    and hd: "or_default (db_heads db tn) (?g, 0) = (chain_head ?g ?ls, length ?ls)"
    by (simp_all add: audit_ok_def)
  obtain h n where h: "db_heads db tn = Some (h, n)" using assms(3) by auto
  have "h = chain_head ?g ?ls" using hd h by simp
  then have "trim h = chain_head ?g ?ls" using chain_head_digest [OF assms(1) lk] by simp
  moreover from report_valid [OF assms(5-8), of h n] assms(4) h
  have "linked_from sha fmt ?g ?ls'" "trim h = chain_head ?g ?ls'" by auto
  ultimately have "map (\<lambda>l. (lk_prevHash l, row_content l, lk_rowHash l)) ?ls =
      map (\<lambda>l. (lk_prevHash l, row_content l, lk_rowHash l)) ?ls'"
    using linked_same_head [OF assms(1) lk _ assms(9)] by simp
  from arg_cong [OF this, of "map (\<lambda>(p, c, h). c)"] show ?thesis
    by (simp add: comp_def)
qed

theorem recorded_head_pins_log_witness:
  "map row_content (map toLink (rows_after (demo_db\<lparr>db_payloads := []\<rparr>) ''acme'' 0)) =
    map row_content (map toLink (tenant_rows demo_db ''acme''))"
proof -
  let ?db' = "demo_db\<lparr>db_payloads := []\<rparr>"
  have ok: "audit_ok len_digest ratio_fmt demo_db"
    by (rule audit_reachable_ok [OF demo_db_reachable digest_env_example])
  then have ok': "audit_ok len_digest ratio_fmt ?db'"
    by (simp add: audit_ok_def tenant_rows_def)
  have same: "map toLink (rows_after ?db' ''acme'' 0) = map toLink (tenant_rows demo_db ''acme'')"
    using rows_after_tenant_rows [OF ok'] by (simp add: tenant_rows_def)
  have "distinct (map len_digest (genesis_text ''acme'' # concat (map (\<lambda>l.
       case canonicalRow ratio_fmt l of Inl _ \<Rightarrow> [] | Inr c \<Rightarrow> [lk_prevHash l @ c])
         (map toLink (tenant_rows demo_db ''acme'')))))"
    by code_simp
  from inj_on_distinct [OF this]
  have inj: "inj_on len_digest (chain_texts ratio_fmt ''acme'' (map toLink (tenant_rows demo_db ''acme'')))"
    by (simp only: chain_texts_def list.set)
  have "db_heads demo_db ''acme'' \<noteq> None" using demo_db_rows(3) by auto
  from recorded_head_pins_log [OF digest_env_example demo_db_reachable this, of ?db' None,
      OF _ audit_ok_distinct [OF ok'] _ appended_log_report [OF digest_env_example ok']] inj
  show ?thesis by (simp add: same Let_def)
qed

end
