(* ===== verification/Audit_Reader.thy ===== *)
theory Audit_Reader
  imports Audit_Log
begin

text \<open>
  The read side of the audit log (\<open>packages/audit/src/reader.ts\<close>): the filters of the console's
  table, its paging and its views, and the aggregates of the overview page. The SQL the source
  sends is modelled as list operations on the events table; the order in which a \<open>GROUP BY\<close>
  emits groups of equal count is the parameter \<open>emit\<close>.
\<close>

section \<open>Filters\<close>

record audit_query =
  aq_tenantId :: "string option"
  aq_userId :: "string option"
  aq_toolName :: "string option"
  aq_mcpServer :: "string option"
  aq_decision :: "decision option"
  aq_from :: "js_date option"
  aq_to :: "js_date option"
  aq_search :: "string option"
  aq_limit :: "int option"
  aq_offset :: "int option"

record audit_view =
  av_id :: string
  av_seq :: nat
  av_ts :: string
  av_tenantId :: string
  av_userId :: string
  av_userName :: "string option"
  av_actorTokenJti :: string
  av_mcpServer :: string
  av_toolName :: string
  av_argumentsHash :: string
  av_decision :: decision
  av_denyReason :: "string option"
  av_latencyMs :: js_num
  av_traceId :: "string option"
  av_prevHash :: string
  av_rowHash :: string

record audit_page =
  pg_rows :: "audit_view list"
  pg_total :: nat

text \<open>A string option that is present and not empty: what \<open>if (query.x)\<close> tests.\<close>

definition given :: "string option \<Rightarrow> bool" where
  "given x = (case x of None \<Rightarrow> False | Some s \<Rightarrow> s \<noteq> [])"

definition field_filter :: "string option \<Rightarrow> string \<Rightarrow> bool" where
  "field_filter wanted actual \<longleftrightarrow> \<not> given wanted \<or> wanted = Some actual"

text \<open>\<open>ILIKE\<close>: \<open>%\<close> is any text, \<open>_\<close> any character, a backslash quotes the next one; letters
  compare without case. The first argument bounds the steps, one for each character of the pattern
  and of the text.\<close>

fun like_match :: "nat \<Rightarrow> string \<Rightarrow> string \<Rightarrow> bool" where
  "like_match 0 pat s = False"
| "like_match (Suc n) pat s =
     (case pat of
        [] \<Rightarrow> s = []
      | c # pat' \<Rightarrow>
          if c = CHR ''%'' then
            like_match n pat' s \<or> (case s of [] \<Rightarrow> False | _ # s' \<Rightarrow> like_match n pat s')
          else if c = CHR ''_'' then (case s of [] \<Rightarrow> False | _ # s' \<Rightarrow> like_match n pat' s')
          else if c = CHR 0x5C then
            (case (pat', s) of (q # pat'', d # s') \<Rightarrow> q = d \<and> like_match n pat'' s' | _ \<Rightarrow> False)
          else (case s of [] \<Rightarrow> False | d # s' \<Rightarrow> c = d \<and> like_match n pat' s'))"

definition ilike :: "string \<Rightarrow> string \<Rightarrow> bool" where
  "ilike s pat = like_match (Suc (length pat + length s)) (to_lower pat) (to_lower s)"

definition search_filter :: "string option \<Rightarrow> raw_row \<Rightarrow> string option \<Rightarrow> bool" where
  "search_filter query r userName \<longleftrightarrow> \<not> given query \<or>
     (let pattern = ''%'' @ the query @ ''%'' in
      ilike (rw_user_id r) pattern \<or> ilike (rw_tool_name r) pattern \<or>
      ilike (or_default (rw_deny_reason r) '''') pattern \<or> ilike (or_default userName '''') pattern)"

definition date_le :: "js_date \<Rightarrow> js_date \<Rightarrow> bool" where
  "date_le a b = (case (a, b) of (Some x, Some y) \<Rightarrow> x \<le> y | _ \<Rightarrow> False)"

definition buildFilters :: "audit_query \<Rightarrow> (string \<Rightarrow> string option) \<Rightarrow> raw_row \<Rightarrow> bool" where
  "buildFilters query userName r \<longleftrightarrow>
     field_filter (aq_tenantId query) (rw_tenant_id r) \<and>
     field_filter (aq_userId query) (rw_user_id r) \<and>
     field_filter (aq_toolName query) (rw_tool_name r) \<and>
     field_filter (aq_mcpServer query) (rw_mcp_server r) \<and>
     field_filter (map_option decision_str (aq_decision query)) (rw_decision r) \<and>
     (case aq_from query of None \<Rightarrow> True | Some d \<Rightarrow> date_le d (rw_ts r)) \<and>
     (case aq_to query of None \<Rightarrow> True | Some d \<Rightarrow> date_le (rw_ts r) d) \<and>
     search_filter (aq_search query) r (userName (rw_user_id r))"

section \<open>Pages\<close>

definition event_time :: "raw_row \<Rightarrow> int" where
  "event_time r = or_default (rw_ts r) 0"

text \<open>\<open>ORDER BY ts DESC, seq DESC\<close>: two stable sorts.\<close>

definition newest_first :: "raw_row list \<Rightarrow> raw_row list" where
  "newest_first rows = sort_key (\<lambda>r. - event_time r) (sort_key (\<lambda>r. - int (rw_seq r)) rows)"

definition toView :: "(string \<Rightarrow> string option) \<Rightarrow> raw_row \<Rightarrow> (string, audit_view) result" where
  "toView userName raw =
     bind_result (to_iso (rw_ts raw)) (\<lambda>iso_ts. Inr
       \<lparr>av_id = rw_id raw, av_seq = rw_seq raw, av_ts = iso_ts, av_tenantId = rw_tenant_id raw,
        av_userId = rw_user_id raw, av_userName = userName (rw_user_id raw),
        av_actorTokenJti = rw_actor_token_jti raw, av_mcpServer = rw_mcp_server raw,
        av_toolName = rw_tool_name raw, av_argumentsHash = trim (rw_arguments_hash raw),
        av_decision = (if rw_decision raw = ''deny'' then Deny else Allow),
        av_denyReason = rw_deny_reason raw, av_latencyMs = rw_latency_ms raw,
        av_traceId = rw_trace_id raw, av_prevHash = trim (rw_prev_hash raw),
        av_rowHash = trim (rw_row_hash raw)\<rparr>)"

fun map_result :: "('a \<Rightarrow> ('e, 'b) result) \<Rightarrow> 'a list \<Rightarrow> ('e, 'b list) result" where
  "map_result f [] = Inr []"
| "map_result f (x # xs) =
     bind_result (f x) (\<lambda>y. bind_result (map_result f xs) (\<lambda>ys. Inr (y # ys)))"

definition page_limit :: "int option \<Rightarrow> nat" where
  "page_limit l = nat (min (max (or_default l 50) 1) 500)"

definition page_offset :: "int option \<Rightarrow> nat" where
  "page_offset off = nat (max (or_default off 0) 0)"

definition bound_iso :: "js_date option \<Rightarrow> (string, unit) result" where
  "bound_iso d = (case d of None \<Rightarrow> Inr () | Some t \<Rightarrow> bind_result (to_iso t) (\<lambda>_. Inr ()))"

definition queryAuditEvents ::
    "audit_db \<Rightarrow> (string \<Rightarrow> string option) \<Rightarrow> audit_query \<Rightarrow> (string, audit_page) result" where
  "queryAuditEvents db userName query =
     bind_result (bound_iso (aq_from query)) (\<lambda>_.
     bind_result (bound_iso (aq_to query)) (\<lambda>_.
       let matching = filter (buildFilters query userName) (db_events db);
           page = take (page_limit (aq_limit query))
             (drop (page_offset (aq_offset query)) (newest_first matching))
       in bind_result (map_result (toView userName) page) (\<lambda>views.
            Inr \<lparr>pg_rows = views, pg_total = length matching\<rparr>)))"

section \<open>Aggregates\<close>

record audit_stats =
  st_total :: nat
  st_allowed :: nat
  st_denied :: nat
  st_p50 :: rat
  st_p95 :: rat
  st_p99 :: rat
  st_topTools :: "(string \<times> nat) list"
  st_topTenants :: "(string \<times> string option \<times> nat) list"
  st_series :: "(string \<times> nat \<times> nat \<times> rat) list"

text \<open>\<open>percentile_disc(f)\<close>: the first value, in order, whose position reaches the fraction \<open>f\<close>;
  \<open>Number(null ?? 0)\<close> for no rows.\<close>

definition percentile_disc :: "rat \<Rightarrow> rat list \<Rightarrow> rat" where
  "percentile_disc f xs =
     (if xs = [] then 0 else sort xs ! (max 1 (nat \<lceil>f * of_nat (length xs)\<rceil>) - 1))"

definition latency :: "raw_row \<Rightarrow> rat" where
  "latency r = num_rat (rw_latency_ms r)"

definition count_decision :: "decision \<Rightarrow> raw_row list \<Rightarrow> nat" where
  "count_decision d rows = length (filter (\<lambda>r. rw_decision r = decision_str d) rows)"

definition group_counts ::
    "(string list \<Rightarrow> string list) \<Rightarrow> (raw_row \<Rightarrow> string) \<Rightarrow> raw_row list \<Rightarrow> (string \<times> nat) list" where
  "group_counts emit key rows =
     take 8 (sort_key (\<lambda>(k, n). - int n)
       (map (\<lambda>k. (k, length (filter (\<lambda>r. key r = k) rows))) (emit (nub (map key rows)))))"

text \<open>The rows of the window: \<open>WHERE ts >= since\<close>, and the tenant filter where the source has it.\<close>

definition rows_since :: "audit_db \<Rightarrow> int \<Rightarrow> raw_row list" where
  "rows_since db since = filter (\<lambda>r. date_le (Some since) (rw_ts r)) (db_events db)"

definition tenant_window :: "audit_db \<Rightarrow> int \<Rightarrow> string option \<Rightarrow> raw_row list" where
  "tenant_window db since tenantId =
     filter (\<lambda>r. field_filter tenantId (rw_tenant_id r)) (rows_since db since)"

definition bucket_of :: "int \<Rightarrow> raw_row \<Rightarrow> int" where
  "bucket_of minutes r = event_time r div (minutes * 60000) * (minutes * 60000)"

definition series_row :: "raw_row list \<Rightarrow> int \<Rightarrow> int \<Rightarrow> (string, string \<times> nat \<times> nat \<times> rat) result" where
  "series_row rows minutes b =
     (let here = filter (\<lambda>r. bucket_of minutes r = b) rows
      in bind_result (to_iso (Some b)) (\<lambda>s. Inr (s, count_decision Allow here,
           count_decision Deny here, percentile_disc (95 / 100) (map latency here))))"

definition auditStats ::
    "(string list \<Rightarrow> string list) \<Rightarrow> audit_db \<Rightarrow> (string \<Rightarrow> string option) \<Rightarrow> string option \<Rightarrow> js_date \<Rightarrow>
       int option \<Rightarrow> (string, audit_stats) result" where
  "auditStats emit db tenantName tenantId since bucketMinutes =
     (let minutes = or_default bucketMinutes 5 in
      bind_result (to_iso since) (\<lambda>_.
        let from_ms = or_default since 0; rows = tenant_window db from_ms tenantId
        in bind_result (map_result (series_row rows minutes)
             (sort (nub (map (bucket_of minutes) rows)))) (\<lambda>series.
           Inr \<lparr>st_total = length rows, st_allowed = count_decision Allow rows,
             st_denied = count_decision Deny rows,
             st_p50 = percentile_disc (50 / 100) (map latency rows),
             st_p95 = percentile_disc (95 / 100) (map latency rows),
             st_p99 = percentile_disc (99 / 100) (map latency rows),
             st_topTools = group_counts emit rw_tool_name rows,
             st_topTenants = map (\<lambda>(t, n). (t, tenantName t, n))
               (group_counts emit rw_tenant_id (rows_since db from_ms)),
             st_series = series\<rparr>)))"

section \<open>Facts\<close>

lemma map_result_Inr: "map_result f xs = Inr ys \<longleftrightarrow> list_all2 (\<lambda>x y. f x = Inr y) xs ys"
  by (induction xs arbitrary: ys) (auto simp: bind_result_Inr_iff list_all2_Cons1)

lemma list_all2_right: "list_all2 P xs ys \<Longrightarrow> y \<in> set ys \<Longrightarrow> \<exists>x \<in> set xs. P x y"
  by (induction rule: list_all2_induct) auto

lemma set_newest_first [simp]: "set (newest_first rows) = set rows"
  by (simp add: newest_first_def)

lemma length_newest_first [simp]: "length (newest_first rows) = length rows"
  by (simp add: newest_first_def)

lemma sorted_newest_first: "sorted (map (\<lambda>r. - event_time r) (newest_first rows))"
  by (simp add: newest_first_def)

lemma queryAuditEvents_page:
  assumes "queryAuditEvents db userName query = Inr p"
  shows "list_all2 (\<lambda>r v. toView userName r = Inr v)
      (take (page_limit (aq_limit query)) (drop (page_offset (aq_offset query))
        (newest_first (filter (buildFilters query userName) (db_events db))))) (pg_rows p)"
    and "pg_total p = length (filter (buildFilters query userName) (db_events db))"
  using assms by (auto simp: queryAuditEvents_def bind_result_Inr_iff Let_def map_result_Inr)

lemma count_decisions:
  "list_all (\<lambda>r. rw_decision r \<in> {''allow'', ''deny''}) rows \<Longrightarrow>
     count_decision Allow rows + count_decision Deny rows = length rows"
  by (induction rows) (auto simp: count_decision_def decision_str_def)

lemma percentile_disc_in: "xs \<noteq> [] \<Longrightarrow> 0 \<le> f \<Longrightarrow> f \<le> 1 \<Longrightarrow> percentile_disc f xs \<in> set xs"
proof -
  assume "xs \<noteq> []" "0 \<le> f" "f \<le> 1"
  then have "f * of_nat (length xs) \<le> of_nat (length xs)"
    by (simp add: mult_left_le_one_le)
  then have "nat \<lceil>f * of_nat (length xs)\<rceil> \<le> length xs"
    by (simp add: nat_le_iff ceiling_le_iff)
  with \<open>xs \<noteq> []\<close> have "max 1 (nat \<lceil>f * of_nat (length xs)\<rceil>) - 1 < length (sort xs)"
    by (cases xs) auto
  then have "sort xs ! (max 1 (nat \<lceil>f * of_nat (length xs)\<rceil>) - 1) \<in> set (sort xs)"
    by (rule nth_mem)
  with \<open>xs \<noteq> []\<close> show ?thesis by (simp add: percentile_disc_def)
qed

section \<open>Properties\<close>

text \<open>A tenant's page shows that tenant's rows only. With a non-empty tenant in the query, every
  row of the returned page is a stored event of that tenant, the page is no longer than the clamped
  limit (between 1 and 500), the total counts exactly the stored events that match, and rows are
  newest first.\<close>

theorem audit_page_tenant_scoped:
  assumes "queryAuditEvents db userName query = Inr p" and "aq_tenantId query = Some tn" "tn \<noteq> []"
  shows "list_all (\<lambda>v. av_tenantId v = tn \<and> av_id v \<in> set (map rw_id (tenant_rows db tn))) (pg_rows p) \<and>
    length (pg_rows p) \<le> page_limit (aq_limit query) \<and> page_limit (aq_limit query) \<in> {1..500} \<and>
    pg_total p = length (filter (buildFilters query userName) (db_events db))"
proof (intro conjI)
  note page = queryAuditEvents_page [OF assms(1)]
  show "pg_total p = length (filter (buildFilters query userName) (db_events db))" by (rule page(2))
  show "length (pg_rows p) \<le> page_limit (aq_limit query)"
    using list_all2_lengthD [OF page(1)] by simp
  show "page_limit (aq_limit query) \<in> {1..500}" by (auto simp: page_limit_def min_def max_def)
  have "av_tenantId v = tn \<and> av_id v \<in> set (map rw_id (tenant_rows db tn))" if "v \<in> set (pg_rows p)" for v
  proof -
    from list_all2_right [OF page(1) that] obtain r where
      "r \<in> set (take (page_limit (aq_limit query)) (drop (page_offset (aq_offset query))
        (newest_first (filter (buildFilters query userName) (db_events db)))))"
      and r: "toView userName r = Inr v" by (elim bexE)
    then have "r \<in> set (newest_first (filter (buildFilters query userName) (db_events db)))"
      by (meson in_set_dropD in_set_takeD)
    then have "rw_tenant_id r = tn" "r \<in> set (db_events db)"
      using assms(2,3) by (auto simp: buildFilters_def field_filter_def given_def)
    with r show ?thesis
      by (auto simp: toView_def bind_result_Inr_iff tenant_rows_def)
  qed
  then show "list_all (\<lambda>v. av_tenantId v = tn \<and> av_id v \<in> set (map rw_id (tenant_rows db tn))) (pg_rows p)"
    by (simp add: list_all_iff)
qed

definition demo_query :: audit_query where
  "demo_query = \<lparr>aq_tenantId = Some ''acme'', aq_userId = None, aq_toolName = None,
     aq_mcpServer = None, aq_decision = Some Deny, aq_from = None, aq_to = None,
     aq_search = Some ''AD%'', aq_limit = Some 1000, aq_offset = None\<rparr>"

theorem audit_page_tenant_scoped_witness:
  "case queryAuditEvents demo_db (\<lambda>_. None) demo_query of
     Inl e \<Rightarrow> False
   | Inr p \<Rightarrow> length (pg_rows p) = 1 \<and>
       list_all (\<lambda>v. av_tenantId v = ''acme'' \<and> av_id v \<in> set (map rw_id (tenant_rows demo_db ''acme'')))
         (pg_rows p)"
proof -
  have "case queryAuditEvents demo_db (\<lambda>_. None) demo_query of
     Inl e \<Rightarrow> False | Inr p \<Rightarrow> length (pg_rows p) = 1"
    by code_simp
  then obtain p where p: "queryAuditEvents demo_db (\<lambda>_. None) demo_query = Inr p" "length (pg_rows p) = 1"
    by (auto split: sum.splits)
  have "aq_tenantId demo_query = Some ''acme''" by (simp add: demo_query_def)
  from audit_page_tenant_scoped [OF p(1) this] p show ?thesis by simp
qed

text \<open>The tenants ranked on the overview are those of all tenants, whatever tenant is asked for.\<close>

lemma top_tenants_ignore_filter:
  assumes "auditStats emit db names tenantId since minutes = Inr s"
    and "auditStats emit db names None since minutes = Inr s'"
  shows "st_topTenants s = st_topTenants s'"
  using assms by (auto simp: auditStats_def bind_result_Inr_iff Let_def)

end
