(* ===== verification/Rate_Limit.thy ===== *)
theory Rate_Limit
  imports Js_Value
begin

text \<open>
  Rate limiting (\<open>packages/rate-limit\<close>): the token bucket script that Redis runs, the client that
  registers and replays it, bucket keys, the per-tenant configuration cache and the service that
  consults a user's bucket and then the tenant's. The locale \<open>token_bucket\<close> states what makes a
  bucket a limit; the script is shown to provide it.

  Lua and JavaScript numbers are rationals; \<open>rnd\<close> is the rounding of a floating-point operation.
  Bounds hold for every rounding that is monotone and exact on the configured integers; the exact
  accounting is stated for \<open>rnd = id\<close>. \<open>clock\<close> is the server's clock in milliseconds.
\<close>

section \<open>Scopes and keys\<close>

datatype limit_scope_type = Tenant_scope | User_tool_scope

record limit_scope =
  ls_type :: limit_scope_type
  ls_tenantId :: string
  ls_userId :: "string option"
  ls_toolName :: "string option"

definition bucketKey :: "limit_scope \<Rightarrow> string" where
  "bucketKey s =
     (if ls_type s = Tenant_scope then ''rl:{'' @ ls_tenantId s @ ''}:t''
      else ''rl:{'' @ ls_tenantId s @ ''}:u:'' @ or_default (ls_userId s) ''anonymous'' @ '':''
        @ or_default (ls_toolName s) ''*'')"

definition scopeLabel :: "limit_scope \<Rightarrow> string" where
  "scopeLabel s =
     (if ls_type s = Tenant_scope then ''tenant:'' @ ls_tenantId s
      else ''user:'' @ or_default (ls_userId s) ''anonymous'' @ ''/tool:''
        @ or_default (ls_toolName s) ''*'')"

text \<open>What a key stands for: the tenant, and for a user's bucket the user and the tool.\<close>

definition scope_id :: "limit_scope \<Rightarrow> string \<times> (string \<times> string) option" where
  "scope_id s = (ls_tenantId s,
     if ls_type s = Tenant_scope then None
     else Some (or_default (ls_userId s) ''anonymous'', or_default (ls_toolName s) ''*''))"

section \<open>The script\<close>

record bucket =
  bk_tokens :: rat
  bk_ts :: int

record bucket_config =
  bc_capacity :: int
  bc_refillTokens :: int
  bc_refillIntervalMs :: int
  bc_tier :: "string option"

definition refill_on :: "bucket_config \<Rightarrow> bool" where
  "refill_on cfg \<longleftrightarrow> 0 < bc_refillIntervalMs cfg \<and> 0 < bc_refillTokens cfg"

text \<open>The tokens after the refill and the clamp to the capacity; a bucket not seen before is full.\<close>

definition available :: "(rat \<Rightarrow> rat) \<Rightarrow> bucket_config \<Rightarrow> int \<Rightarrow> bucket option \<Rightarrow> rat" where
  "available rnd cfg now st =
     (let (tokens, ts) = (case st of None \<Rightarrow> (of_int (bc_capacity cfg), now)
                          | Some b \<Rightarrow> (bk_tokens b, bk_ts b));
          elapsed_ms = (if now - ts < 0 then 0 else now - ts);
          tokens' = (if refill_on cfg
            then rnd (tokens + rnd (rnd (of_int elapsed_ms / of_int (bc_refillIntervalMs cfg))
                   * of_int (bc_refillTokens cfg)))
            else tokens)
      in if of_int (bc_capacity cfg) < tokens' then of_int (bc_capacity cfg) else tokens')"

definition retry_after :: "(rat \<Rightarrow> rat) \<Rightarrow> bucket_config \<Rightarrow> int \<Rightarrow> int \<Rightarrow> rat \<Rightarrow> int" where
  "retry_after rnd cfg cost ttl_ms tokens =
     (if refill_on cfg
      then \<lceil>rnd (rnd (rnd (of_int cost - tokens) / of_int (bc_refillTokens cfg))
             * of_int (bc_refillIntervalMs cfg))\<rceil>
      else ttl_ms)"

text \<open>One run of the script on a bucket: the bucket it writes, and its reply
  \<open>{ allowed, remaining, retry_after_ms, limit }\<close>.\<close>

definition bucket_step ::
    "(rat \<Rightarrow> rat) \<Rightarrow> bucket_config \<Rightarrow> int \<Rightarrow> int \<Rightarrow> int \<Rightarrow> bucket option \<Rightarrow> bucket \<times> int list" where
  "bucket_step rnd cfg cost ttl_ms now st =
     (let tokens = available rnd cfg now st in
      if of_int cost \<le> tokens
      then (let left = rnd (tokens - of_int cost)
            in (\<lparr>bk_tokens = left, bk_ts = now\<rparr>, [1, \<lfloor>left\<rfloor>, 0, bc_capacity cfg]))
      else (\<lparr>bk_tokens = tokens, bk_ts = now\<rparr>,
            [0, \<lfloor>tokens\<rfloor>, retry_after rnd cfg cost ttl_ms tokens, bc_capacity cfg]))"

text \<open>The keys of the server, each with its bucket and the time it expires.\<close>

type_synonym redis = "string \<Rightarrow> (bucket \<times> int) option"

definition redis_bucket :: "int \<Rightarrow> redis \<Rightarrow> string \<Rightarrow> bucket option" where
  "redis_bucket clock db key =
     (case db key of None \<Rightarrow> None | Some (b, expires) \<Rightarrow> if clock < expires then Some b else None)"

definition run_script ::
    "(rat \<Rightarrow> rat) \<Rightarrow> int \<Rightarrow> string \<Rightarrow> bucket_config \<Rightarrow> int \<Rightarrow> int \<Rightarrow> int \<Rightarrow> redis \<Rightarrow> redis \<times> int list" where
  "run_script rnd clock key cfg cost ttl_ms now_override db =
     (let now = (if 0 < now_override then now_override else clock);
          (b, reply) = bucket_step rnd cfg cost ttl_ms now (redis_bucket clock db key)
      in (map_set db key (b, clock + ttl_ms), reply))"

section \<open>The client of the script\<close>

record limit_verdict =
  lv_allowed :: bool
  lv_remaining :: int
  lv_limit :: int
  lv_retryAfterMs :: int
  lv_scope :: string
  lv_key :: string

text \<open>The server with the digests of the scripts it has cached, and the limiter with the digest it
  remembers.\<close>

record redis_server =
  rs_db :: redis
  rs_scripts :: "string list"

record limiter =
  lm_sha :: "string option"
  lm_now :: "int option"

definition limiter_load :: "string \<Rightarrow> limiter \<Rightarrow> redis_server \<Rightarrow> limiter \<times> redis_server" where
  "limiter_load script_sha lm srv =
     (lm\<lparr>lm_sha := Some script_sha\<rparr>, srv\<lparr>rs_scripts := script_sha # rs_scripts srv\<rparr>)"

definition ttl_of :: "(rat \<Rightarrow> rat) \<Rightarrow> bucket_config \<Rightarrow> int" where
  "ttl_of rnd cfg = max 60000
     (\<lceil>rnd (rnd (of_int (bc_capacity cfg) / of_int (max 1 (bc_refillTokens cfg)))
        * of_int (bc_refillIntervalMs cfg))\<rceil> * 2)"

definition toVerdict :: "int list \<Rightarrow> string \<Rightarrow> string \<Rightarrow> (string, limit_verdict) result" where
  "toVerdict raw label key =
     (if length raw < 4 then Inl ''Rate limit script returned an unexpected shape''
      else Inr \<lparr>lv_allowed = (raw ! 0 = 1), lv_remaining = raw ! 1, lv_limit = raw ! 3,
             lv_retryAfterMs = raw ! 2, lv_scope = label, lv_key = key\<rparr>)"

text \<open>\<open>evaluate\<close>: \<open>EVALSHA\<close> by the remembered digest, loading it first if there is none; when the
  server has forgotten the script (\<open>NOSCRIPT\<close>), \<open>EVAL\<close> with the source, which caches it again, and
  a reload for the next call.\<close>

definition evaluate ::
    "(rat \<Rightarrow> rat) \<Rightarrow> string \<Rightarrow> int \<Rightarrow> string \<Rightarrow> bucket_config \<Rightarrow> int \<Rightarrow> int \<Rightarrow> limiter \<times> redis_server \<Rightarrow>
       (limiter \<times> redis_server) \<times> int list" where
  "evaluate rnd script_sha clock key cfg cost ttl_ms st =
     (let (lm, srv) = (case lm_sha (fst st) of
              Some h \<Rightarrow> st | None \<Rightarrow> limiter_load script_sha (fst st) (snd st));
          h = or_default (lm_sha lm) script_sha;
          (db', reply) = run_script rnd clock key cfg cost ttl_ms (or_default (lm_now lm) 0) (rs_db srv)
      in if h \<in> set (rs_scripts srv) then ((lm, srv\<lparr>rs_db := db'\<rparr>), reply)
         else (limiter_load script_sha (lm\<lparr>lm_sha := None\<rparr>)
                 (srv\<lparr>rs_db := db', rs_scripts := script_sha # rs_scripts srv\<rparr>), reply))"

definition consume ::
    "(rat \<Rightarrow> rat) \<Rightarrow> string \<Rightarrow> int \<Rightarrow> limit_scope \<Rightarrow> bucket_config \<Rightarrow> int \<Rightarrow> limiter \<times> redis_server \<Rightarrow>
       (limiter \<times> redis_server) \<times> (string, limit_verdict) result" where
  "consume rnd script_sha clock scope cfg cost st =
     (let key = bucketKey scope; label = scopeLabel scope;
          (st', raw) = evaluate rnd script_sha clock key cfg cost (ttl_of rnd cfg) st
      in (st', toVerdict raw label key))"

section \<open>The configuration cache\<close>

record limit_record =
  lr_tenantId :: string
  lr_scopeType :: limit_scope_type
  lr_toolName :: string
  lr_tier :: string
  lr_capacity :: int
  lr_refillTokens :: int
  lr_refillIntervalMs :: int

definition scope_str :: "limit_scope_type \<Rightarrow> string" where
  "scope_str t = (case t of Tenant_scope \<Rightarrow> ''tenant'' | User_tool_scope \<Rightarrow> ''user_tool'')"

definition indexKey :: "string \<Rightarrow> limit_scope_type \<Rightarrow> string \<Rightarrow> string \<Rightarrow> string" where
  "indexKey tenantId scopeType toolName tier =
     tenantId @ ''|'' @ scope_str scopeType @ ''|'' @ toolName @ ''|'' @ tier"

record config_store =
  cs_records :: "limit_record list"
  cs_index :: "string \<Rightarrow> limit_record option"
  cs_loadedAt :: int

definition record_key :: "limit_record \<Rightarrow> string" where
  "record_key r = indexKey (lr_tenantId r) (lr_scopeType r) (lr_toolName r) (lr_tier r)"

definition config_reload :: "limit_record list \<Rightarrow> int \<Rightarrow> config_store \<Rightarrow> config_store" where
  "config_reload records now cs =
     cs\<lparr>cs_records := records,
        cs_index := foldl (\<lambda>m r. map_set m (record_key r) r) (\<lambda>_. None) records,
        cs_loadedAt := now\<rparr>"

text \<open>The listener on the invalidation channel: other channels are ignored.\<close>

definition CONFIG_INVALIDATION_CHANNEL :: string where
  "CONFIG_INVALIDATION_CHANNEL = ''mcpgw:rate-limit:reload''"

definition on_message :: "string \<Rightarrow> limit_record list \<Rightarrow> int \<Rightarrow> config_store \<Rightarrow> config_store" where
  "on_message channel records now cs =
     (if channel \<noteq> CONFIG_INVALIDATION_CHANNEL then cs else config_reload records now cs)"

definition fallback_tenant :: bucket_config where
  "fallback_tenant = \<lparr>bc_capacity = 600, bc_refillTokens = 600, bc_refillIntervalMs = 60000,
     bc_tier = Some ''fallback''\<rparr>"

definition fallback_userTool :: bucket_config where
  "fallback_userTool = \<lparr>bc_capacity = 60, bc_refillTokens = 60, bc_refillIntervalMs = 60000,
     bc_tier = Some ''fallback''\<rparr>"

definition record_config :: "limit_record \<Rightarrow> bucket_config" where
  "record_config r = \<lparr>bc_capacity = lr_capacity r, bc_refillTokens = lr_refillTokens r,
     bc_refillIntervalMs = lr_refillIntervalMs r, bc_tier = Some (lr_tier r)\<rparr>"

definition lookup_limit ::
    "config_store \<Rightarrow> string \<Rightarrow> limit_scope_type \<Rightarrow> string \<Rightarrow> string \<Rightarrow> bucket_config option" where
  "lookup_limit cs tenantId scopeType toolName tier =
     map_option record_config
       (List.find (\<lambda>r. True) (List.map_filter (cs_index cs)
          [indexKey tenantId scopeType toolName tier,
           indexKey tenantId scopeType toolName ''default'',
           indexKey tenantId scopeType ''*'' tier,
           indexKey tenantId scopeType ''*'' ''default'']))"

record resolved_limits =
  rl_tenant :: bucket_config
  rl_userTool :: bucket_config

definition resolve_limits :: "config_store \<Rightarrow> string \<Rightarrow> string \<Rightarrow> string option \<Rightarrow> resolved_limits" where
  "resolve_limits cs tenantId toolName tier =
     (let t = or_default tier ''default'' in
      \<lparr>rl_tenant = or_default (lookup_limit cs tenantId Tenant_scope ''*'' t) fallback_tenant,
       rl_userTool = or_default (lookup_limit cs tenantId User_tool_scope toolName t) fallback_userTool\<rparr>)"

section \<open>The service\<close>

record limit_request =
  lq_tenantId :: string
  lq_userId :: string
  lq_toolName :: string
  lq_tier :: "string option"
  lq_cost :: "int option"

record limit_outcome =
  lo_allowed :: bool
  lo_verdict :: limit_verdict
  lo_checked :: "limit_verdict list"

definition user_scope :: "limit_request \<Rightarrow> limit_scope" where
  "user_scope q = \<lparr>ls_type = User_tool_scope, ls_tenantId = lq_tenantId q,
     ls_userId = Some (lq_userId q), ls_toolName = Some (lq_toolName q)\<rparr>"

definition tenant_scope :: "limit_request \<Rightarrow> limit_scope" where
  "tenant_scope q = \<lparr>ls_type = Tenant_scope, ls_tenantId = lq_tenantId q,
     ls_userId = None, ls_toolName = None\<rparr>"

definition rate_check ::
    "(rat \<Rightarrow> rat) \<Rightarrow> string \<Rightarrow> int \<Rightarrow> config_store \<Rightarrow> limit_request \<Rightarrow> limiter \<times> redis_server \<Rightarrow>
       (limiter \<times> redis_server) \<times> (string, limit_outcome) result" where
  "rate_check rnd script_sha clock cs q st =
     (let cost = or_default (lq_cost q) 1;
          limits = resolve_limits cs (lq_tenantId q) (lq_toolName q) (lq_tier q);
          (st1, r1) = consume rnd script_sha clock (user_scope q) (rl_userTool limits) cost st
      in case r1 of
           Inl e \<Rightarrow> (st1, Inl e)
         | Inr userVerdict \<Rightarrow>
             if \<not> lv_allowed userVerdict
             then (st1, Inr \<lparr>lo_allowed = False, lo_verdict = userVerdict, lo_checked = [userVerdict]\<rparr>)
             else (let (st2, r2) = consume rnd script_sha clock (tenant_scope q) (rl_tenant limits) cost st1
                   in case r2 of
                        Inl e \<Rightarrow> (st2, Inl e)
                      | Inr tenantVerdict \<Rightarrow>
                          (st2, Inr \<lparr>lo_allowed = lv_allowed tenantVerdict,
                             lo_verdict = (if lv_allowed tenantVerdict then userVerdict else tenantVerdict),
                             lo_checked = [userVerdict, tenantVerdict]\<rparr>)))"

section \<open>What makes a bucket a limit\<close>

text \<open>A bucket has a level that grows at a bounded rate, and each step admits exactly when the level
  covers the cost, which it then takes out; \<open>inv\<close> is what holds of the buckets that occur.\<close>

locale token_bucket =
  fixes inv :: "'cfg \<Rightarrow> 's \<Rightarrow> bool"
    and level :: "'cfg \<Rightarrow> int \<Rightarrow> 's \<Rightarrow> rat"
    and rate :: "'cfg \<Rightarrow> rat"
    and burst :: "'cfg \<Rightarrow> rat"
    and step :: "'cfg \<Rightarrow> int \<Rightarrow> int \<Rightarrow> 's \<Rightarrow> 's \<times> bool"
  assumes level_burst: "level cfg now s \<le> burst cfg"
    and level_nonneg: "inv cfg s \<Longrightarrow> 0 \<le> level cfg now s"
    and level_growth: "now \<le> later \<Longrightarrow>
      level cfg later s \<le> level cfg now s + rate cfg * of_int (later - now)"
    and inv_step: "inv cfg s \<Longrightarrow> 0 \<le> cost \<Longrightarrow> inv cfg (fst (step cfg cost now s))"
    and level_step: "0 \<le> cost \<Longrightarrow> level cfg now (fst (step cfg cost now s)) =
      level cfg now s - (if snd (step cfg cost now s) then of_int cost else 0)"
begin

fun run :: "'cfg \<Rightarrow> (int \<times> int) list \<Rightarrow> 's \<Rightarrow> 's \<times> int" where
  "run cfg [] s = (s, 0)"
| "run cfg ((now, cost) # calls) s =
     (let (s', adm) = step cfg cost now s; (s'', total) = run cfg calls s'
      in (s'', total + (if adm then cost else 0)))"

lemma run_inv:
  "inv cfg s \<Longrightarrow> list_all (\<lambda>(t, c). 0 \<le> c) calls \<Longrightarrow> inv cfg (fst (run cfg calls s))"
proof (induction calls arbitrary: s)
  case (Cons tc calls)
  obtain now cost where tc: "tc = (now, cost)" by (cases tc)
  with Cons show ?case
    using inv_step [of cfg s cost now] by (simp add: split_beta)
qed simp

lemma run_level:
  "sorted (map fst calls) \<Longrightarrow> list_all (\<lambda>(t, c). start \<le> t \<and> t \<le> stop \<and> 0 \<le> c) calls \<Longrightarrow>
     start \<le> stop \<Longrightarrow>
     of_int (snd (run cfg calls s)) + level cfg stop (fst (run cfg calls s))
       \<le> level cfg start s + rate cfg * of_int (stop - start)"
proof (induction calls arbitrary: s start)
  case Nil
  then show ?case using level_growth [of start stop cfg s] by simp
next
  case (Cons tc calls)
  obtain now cost where tc: "tc = (now, cost)" by (cases tc)
  obtain s' adm where st: "step cfg cost now s = (s', adm)" by (cases "step cfg cost now s")
  obtain s'' total where rs: "run cfg calls s' = (s'', total)" by (cases "run cfg calls s'")
  have now: "start \<le> now" "now \<le> stop" "0 \<le> cost" using Cons.prems(2) tc by simp_all
  have "list_all (\<lambda>(t, c). now \<le> t \<and> t \<le> stop \<and> 0 \<le> c) calls"
    using Cons.prems(1,2) tc by (fastforce simp: list_all_iff)
  then have "of_int total + level cfg stop s'' \<le> level cfg now s' + rate cfg * of_int (stop - now)"
    using Cons.IH [of now s'] Cons.prems(1) now tc rs by simp
  moreover have "level cfg now s' = level cfg now s - (if adm then of_int cost else 0)"
    using level_step [OF now(3), of cfg now s] st by simp
  moreover have "level cfg now s \<le> level cfg start s + rate cfg * of_int (now - start)"
    using level_growth now(1) by blast
  moreover have "rate cfg * of_int (now - start) + rate cfg * of_int (stop - now)
      = rate cfg * of_int (stop - start)"
    by (simp add: algebra_simps)
  ultimately show ?case by (auto simp: tc st rs)
qed

theorem run_bound:
  assumes "inv cfg s" "sorted (map fst calls)"
    "list_all (\<lambda>(t, c). start \<le> t \<and> t \<le> stop \<and> 0 \<le> c) calls" "start \<le> stop"
  shows "of_int (snd (run cfg calls s)) \<le> burst cfg + rate cfg * of_int (stop - start)"
proof -
  have "list_all (\<lambda>(t, c). 0 \<le> c) calls" using assms(3) by (auto simp: list_all_iff)
  from level_nonneg [OF run_inv [OF assms(1) this], of stop]
  show ?thesis
    using run_level [OF assms(2-4), of cfg s] level_burst [of cfg start s] by linarith
qed

end

section \<open>The script is a token bucket\<close>

definition refill_rate :: "bucket_config \<Rightarrow> rat" where
  "refill_rate cfg =
     (if refill_on cfg then of_int (bc_refillTokens cfg) / of_int (bc_refillIntervalMs cfg) else 0)"

lemma refill_rate_nonneg: "0 \<le> refill_rate cfg"
  by (simp add: refill_rate_def refill_on_def)

lemma available_id:
  "available id cfg now st =
     (case st of
        None \<Rightarrow> of_int (bc_capacity cfg)
      | Some b \<Rightarrow> min (of_int (bc_capacity cfg))
          (bk_tokens b + refill_rate cfg * of_int (max 0 (now - bk_ts b))))"
  by (auto simp: available_def refill_rate_def Let_def max_def min_def mult.commute split: option.split)

lemma available_growth:
  assumes "now \<le> later"
  shows "available id cfg later st \<le> available id cfg now st + refill_rate cfg * of_int (later - now)"
proof (cases st)
  case None
  then show ?thesis using assms refill_rate_nonneg by (simp add: available_id)
next
  case (Some b)
  have "refill_rate cfg * of_int (max 0 (later - bk_ts b))
      \<le> refill_rate cfg * of_int (max 0 (now - bk_ts b) + (later - now))"
    using assms by (intro mult_left_mono refill_rate_nonneg of_int_le_iff [THEN iffD2]) auto
  moreover have "0 \<le> refill_rate cfg * of_int (later - now)"
    using assms refill_rate_nonneg by simp
  ultimately show ?thesis
    using Some by (simp add: available_id min_def distrib_left)
qed

definition step_admits :: "bucket_config \<Rightarrow> int \<Rightarrow> int \<Rightarrow> bucket option \<Rightarrow> bucket option \<times> bool" where
  "step_admits cfg cost now st =
     (let (b, reply) = bucket_step id cfg cost (ttl_of id cfg) now st in (Some b, reply ! 0 = 1))"

lemma available_after_step:
  "0 \<le> cost \<Longrightarrow> available id cfg now (fst (step_admits cfg cost now st)) =
     available id cfg now st - (if snd (step_admits cfg cost now st) then of_int cost else 0)"
proof -
  assume "0 \<le> cost"
  then have "(0 :: rat) \<le> of_int cost" by simp
  moreover have "available id cfg now st \<le> of_int (bc_capacity cfg)"
    by (auto simp: available_id split: option.split)
  ultimately have "available id cfg now st - of_int cost \<le> of_int (bc_capacity cfg)" by linarith
  with \<open>available id cfg now st \<le> of_int (bc_capacity cfg)\<close> show ?thesis
    by (simp add: step_admits_def bucket_step_def Let_def available_id [of cfg now "Some _"])
qed

lemma step_admits_iff: "snd (step_admits cfg cost now st) \<longleftrightarrow> of_int cost \<le> available id cfg now st"
  by (simp add: step_admits_def bucket_step_def Let_def)

definition bucket_ok :: "bucket_config \<Rightarrow> bucket option \<Rightarrow> bool" where
  "bucket_ok cfg st \<longleftrightarrow> 0 \<le> bc_capacity cfg \<and> (case st of None \<Rightarrow> True | Some b \<Rightarrow> 0 \<le> bk_tokens b)"

lemma available_nonneg: "bucket_ok cfg st \<Longrightarrow> 0 \<le> available id cfg now st"
  by (auto simp: bucket_ok_def available_id refill_rate_nonneg split: option.splits)

lemma bucket_ok_step: "bucket_ok cfg st \<Longrightarrow> bucket_ok cfg (fst (step_admits cfg cost now st))"
  using available_nonneg [of cfg st now]
  by (auto simp: step_admits_def bucket_step_def Let_def bucket_ok_def)

interpretation script: token_bucket bucket_ok "available id" refill_rate
  "\<lambda>cfg. of_int (bc_capacity cfg)" step_admits
proof (unfold_locales, goal_cases)
  case (1 cfg now s)
  show ?case by (auto simp: available_id split: option.split)
next
  case (3 now later cfg s)
  then show ?case by (rule available_growth)
qed (simp_all only: available_nonneg bucket_ok_step available_after_step)

text \<open>The cost a sequence of calls is granted on one bucket.\<close>

fun granted :: "bucket_config \<Rightarrow> (int \<times> int) list \<Rightarrow> bucket option \<Rightarrow> int" where
  "granted cfg [] st = 0"
| "granted cfg ((now, cost) # calls) st =
     (let (b, reply) = bucket_step id cfg cost (ttl_of id cfg) now st
      in (if reply ! 0 = 1 then cost else 0) + granted cfg calls (Some b))"

lemma granted_run: "granted cfg calls st = snd (script.run cfg calls st)"
proof (induction calls arbitrary: st)
  case (Cons tc calls)
  obtain now cost where tc: "tc = (now, cost)" by (cases tc)
  obtain b reply where st: "bucket_step id cfg cost (ttl_of id cfg) now st = (b, reply)" by force
  then have "step_admits cfg cost now st = (Some b, reply ! 0 = 1)" by (simp add: step_admits_def)
  with st Cons.IH [of "Some b"] show ?case by (simp add: tc split_beta)
qed simp

section \<open>Keys\<close>

lemma bucketKey_scope_id:
  assumes "CHR ''}'' \<notin> set (ls_tenantId s)" "CHR ''}'' \<notin> set (ls_tenantId t)"
    and "CHR '':'' \<notin> set (or_default (ls_userId s) ''anonymous'')"
    and "CHR '':'' \<notin> set (or_default (ls_userId t) ''anonymous'')"
    and "bucketKey s = bucketKey t"
  shows "scope_id s = scope_id t"
proof -
  define rest where "rest = (\<lambda>s :: limit_scope. if ls_type s = Tenant_scope then '':t'' else '':u:''
    @ or_default (ls_userId s) ''anonymous'' @ '':'' @ or_default (ls_toolName s) ''*'')"
  have key: "bucketKey s = ''rl:{'' @ ls_tenantId s @ CHR ''}'' # rest s" for s
    by (simp add: bucketKey_def rest_def)
  then have "ls_tenantId s @ CHR ''}'' # rest s = ls_tenantId t @ CHR ''}'' # rest t"
    using assms(5) by simp
  from delim_unique [OF assms(1,2) this]
  have tenant: "ls_tenantId s = ls_tenantId t" and "rest s = rest t" by auto
  show ?thesis
  proof (cases "ls_type s = Tenant_scope \<or> ls_type t = Tenant_scope")
    case True
    with \<open>rest s = rest t\<close> tenant show ?thesis
      by (auto simp: rest_def scope_id_def split: if_split_asm)
  next
    case False
    with \<open>rest s = rest t\<close> have "or_default (ls_userId s) ''anonymous'' @ CHR '':'' # or_default (ls_toolName s) ''*''
        = or_default (ls_userId t) ''anonymous'' @ CHR '':'' # or_default (ls_toolName t) ''*''"
      by (simp add: rest_def)
    from delim_unique [OF assms(3,4) this] tenant False show ?thesis by (simp add: scope_id_def)
  qed
qed

lemma user_key_not_tenant_key: "bucketKey (user_scope q) \<noteq> bucketKey (tenant_scope q)"
  by (simp add: bucketKey_def user_scope_def tenant_scope_def)

section \<open>The client\<close>

lemma run_script_reply:
  "run_script rnd clock key cfg cost ttl ovr db =
     (let now = (if 0 < ovr then ovr else clock); r = bucket_step rnd cfg cost ttl now (redis_bucket clock db key)
      in (map_set db key (fst r, clock + ttl), snd r))"
  by (simp add: run_script_def Let_def split_beta)

lemma bucket_step_reply:
  "snd (bucket_step rnd cfg cost ttl now st) ! 0 = 1 \<longleftrightarrow> of_int cost \<le> available rnd cfg now st"
  "length (snd (bucket_step rnd cfg cost ttl now st)) = 4"
  by (simp_all add: bucket_step_def Let_def)

text \<open>A call of the client in terms of one run of the script: the caches of the script do not show.\<close>

lemma evaluate_run:
  "rs_db (snd (fst (evaluate rnd h clock key cfg cost ttl st))) =
     fst (run_script rnd clock key cfg cost ttl (or_default (lm_now (fst st)) 0) (rs_db (snd st)))"
  "snd (evaluate rnd h clock key cfg cost ttl st) =
     snd (run_script rnd clock key cfg cost ttl (or_default (lm_now (fst st)) 0) (rs_db (snd st)))"
  "lm_now (fst (fst (evaluate rnd h clock key cfg cost ttl st))) = lm_now (fst st)"
  by (cases st; cases "lm_sha (fst st)"; simp add: evaluate_def limiter_load_def split_beta Let_def)+

definition step_of ::
    "(rat \<Rightarrow> rat) \<Rightarrow> int \<Rightarrow> limit_scope \<Rightarrow> bucket_config \<Rightarrow> int \<Rightarrow> redis \<Rightarrow> bucket \<times> int list" where
  "step_of rnd clock scope cfg cost db =
     bucket_step rnd cfg cost (ttl_of rnd cfg) clock (redis_bucket clock db (bucketKey scope))"

lemma consume_step:
  assumes "lm_now (fst st) = None"
  shows "rs_db (snd (fst (consume rnd h clock scope cfg cost st))) =
      map_set (rs_db (snd st)) (bucketKey scope)
        (fst (step_of rnd clock scope cfg cost (rs_db (snd st))), clock + ttl_of rnd cfg)"
    and "snd (consume rnd h clock scope cfg cost st) =
      toVerdict (snd (step_of rnd clock scope cfg cost (rs_db (snd st)))) (scopeLabel scope) (bucketKey scope)"
    and "lm_now (fst (fst (consume rnd h clock scope cfg cost st))) = None"
  using assms evaluate_run [of rnd h clock "bucketKey scope" cfg cost "ttl_of rnd cfg" st]
  by (simp_all add: consume_def step_of_def split_beta Let_def run_script_reply)

lemma toVerdict_step:
  "\<exists>v. toVerdict (snd (bucket_step rnd cfg cost ttl now st)) label key = Inr v \<and>
     (lv_allowed v \<longleftrightarrow> of_int cost \<le> available rnd cfg now st) \<and>
     lv_retryAfterMs v = snd (bucket_step rnd cfg cost ttl now st) ! 2"
  by (simp add: toVerdict_def bucket_step_reply)

section \<open>Waiting\<close>

lemma rate_ceiling:
  assumes "refill_on cfg"
  shows "\<lceil>d / of_int (bc_refillTokens cfg) * of_int (bc_refillIntervalMs cfg)\<rceil> \<le> k \<longleftrightarrow>
    d \<le> refill_rate cfg * of_int k"
proof -
  have "0 < (of_int (bc_refillTokens cfg) :: rat)" "0 < (of_int (bc_refillIntervalMs cfg) :: rat)"
    using assms by (simp_all add: refill_on_def)
  then show ?thesis
    using assms by (simp add: ceiling_le_iff refill_rate_def field_simps)
qed

lemma denied_then_admitted:
  assumes "refill_on cfg" "cost \<le> bc_capacity cfg" "now \<le> later"
    and denied: "\<not> of_int cost \<le> available id cfg now st"
    and step: "bucket_step id cfg cost ttl now st = (b, reply)"
  shows "of_int cost \<le> available id cfg later (Some b) \<longleftrightarrow> now + reply ! 2 \<le> later"
proof -
  let ?a = "available id cfg now st"
  have b: "bk_tokens b = ?a" "bk_ts b = now"
    and reply: "reply ! 2 = \<lceil>(of_int cost - ?a) / of_int (bc_refillTokens cfg)
        * of_int (bc_refillIntervalMs cfg)\<rceil>"
    using step denied assms(1) by (auto simp: bucket_step_def Let_def retry_after_def)
  have "of_int cost \<le> available id cfg later (Some b) \<longleftrightarrow>
      of_int cost - ?a \<le> refill_rate cfg * of_int (later - now)"
    using assms(2,3) by (auto simp: available_id b)
  also have "\<dots> \<longleftrightarrow> reply ! 2 \<le> later - now"
    unfolding reply rate_ceiling [OF assms(1)] by simp
  finally show ?thesis by linarith
qed

lemma expired_is_full:
  assumes "refill_on cfg" "0 \<le> bk_tokens b" "0 \<le> bc_capacity cfg"
    and "bk_ts b + ttl_of id cfg \<le> clock"
  shows "available id cfg clock (Some b) = available id cfg clock None"
proof -
  let ?k = "\<lceil>(of_int (bc_capacity cfg) :: rat) / of_int (bc_refillTokens cfg)
      * of_int (bc_refillIntervalMs cfg)\<rceil>"
  have one: "max 1 (bc_refillTokens cfg) = bc_refillTokens cfg"
    using assms(1) by (simp add: refill_on_def)
  have "0 \<le> (of_int (bc_capacity cfg) :: rat) / of_int (bc_refillTokens cfg)
      * of_int (bc_refillIntervalMs cfg)"
    using assms(1,3) by (simp add: refill_on_def)
  then have "0 \<le> ?k" by linarith
  then have "?k \<le> ttl_of id cfg" by (simp add: ttl_of_def one)
  then have "?k \<le> clock - bk_ts b" "0 \<le> clock - bk_ts b"
    using assms(4) \<open>0 \<le> ?k\<close> by linarith+
  then have "of_int (bc_capacity cfg) \<le> refill_rate cfg * of_int (clock - bk_ts b)"
    unfolding rate_ceiling [OF assms(1)] by blast
  then show ?thesis
    using assms(2) \<open>0 \<le> clock - bk_ts b\<close> by (simp add: available_id)
qed

section \<open>Looking up a configuration\<close>

text \<open>The record that a list of records configures for a scope: the last one listed for it.\<close>

definition configured ::
    "limit_record list \<Rightarrow> string \<Rightarrow> limit_scope_type \<Rightarrow> string \<Rightarrow> string \<Rightarrow> limit_record option" where
  "configured records tenantId scopeType toolName tier =
     List.find (\<lambda>r. lr_tenantId r = tenantId \<and> lr_scopeType r = scopeType \<and>
       lr_toolName r = toolName \<and> lr_tier r = tier) (rev records)"

definition plain :: "string \<Rightarrow> bool" where
  "plain s \<longleftrightarrow> CHR ''|'' \<notin> set s"

definition plain_record :: "limit_record \<Rightarrow> bool" where
  "plain_record r \<longleftrightarrow> plain (lr_tenantId r) \<and> plain (lr_toolName r) \<and> plain (lr_tier r)"

lemma indexKey_inject:
  assumes "plain t" "plain t'" "plain n" "plain n'"
  shows "indexKey t ty n tier = indexKey t' ty' n' tier' \<longleftrightarrow>
    t = t' \<and> ty = ty' \<and> n = n' \<and> tier = tier'"
proof -
  have "plain (scope_str x)" for x by (cases x) (simp_all add: scope_str_def plain_def)
  moreover have "scope_str x = scope_str y \<longleftrightarrow> x = y" for x y
    by (cases x; cases y) (simp_all add: scope_str_def)
  ultimately show ?thesis
    using assms by (simp add: indexKey_def plain_def delim_eq)
qed

lemma foldl_map_set:
  "foldl (\<lambda>m r. map_set m (f r) r) m0 rs k =
     (case List.find (\<lambda>r. f r = k) (rev rs) of Some r \<Rightarrow> Some r | None \<Rightarrow> m0 k)"
proof (induction rs rule: rev_induct)
  case (snoc r rs)
  then show ?case by simp
qed simp

lemma find_cong: "(\<And>x. x \<in> set xs \<Longrightarrow> P x = Q x) \<Longrightarrow> List.find P xs = List.find Q xs"
  by (induction xs) auto

lemma index_configured:
  assumes "list_all plain_record records" "plain tenantId" "plain toolName"
  shows "cs_index (config_reload records now cs) (indexKey tenantId scopeType toolName tier) =
    configured records tenantId scopeType toolName tier"
proof -
  have "List.find (\<lambda>r. record_key r = indexKey tenantId scopeType toolName tier) (rev records)
      = configured records tenantId scopeType toolName tier"
    unfolding configured_def
    by (rule find_cong) (use assms in \<open>auto simp: record_key_def indexKey_inject list_all_iff plain_record_def\<close>)
  then show ?thesis
    by (simp add: config_reload_def foldl_map_set split: option.split)
qed

definition first_some :: "'a option list \<Rightarrow> 'a option" where
  "first_some xs = foldr (\<lambda>x acc. case x of Some v \<Rightarrow> Some v | None \<Rightarrow> acc) xs None"

lemma find_map_filter: "List.find (\<lambda>r. True) (List.map_filter f xs) = first_some (map f xs)"
  by (induction xs) (auto simp: first_some_def List.map_filter_simps split: option.split)

lemma lookup_limit_configured:
  assumes "list_all plain_record records" "plain tenantId" "plain toolName"
  shows "lookup_limit (config_reload records now cs) tenantId scopeType toolName tier =
    map_option record_config (first_some
      [configured records tenantId scopeType toolName tier,
       configured records tenantId scopeType toolName ''default'',
       configured records tenantId scopeType ''*'' tier,
       configured records tenantId scopeType ''*'' ''default''])"
proof -
  have "plain ''*''" by (simp add: plain_def)
  then show ?thesis
    using assms by (simp only: lookup_limit_def find_map_filter list.map index_configured)
qed

section \<open>Properties\<close>


definition demo_cfg :: bucket_config where
  "demo_cfg = \<lparr>bc_capacity = 2, bc_refillTokens = 1, bc_refillIntervalMs = 1000, bc_tier = None\<rparr>"






text \<open>One bucket per scope. As long as tenant ids contain no closing brace and user ids no colon,
  two scopes share a bucket key exactly if they are of the same tenant and, for user buckets, of
  the same user and tool.\<close>

theorem bucketKey_identifies_scope:
  assumes "CHR ''}'' \<notin> set (ls_tenantId s)" "CHR ''}'' \<notin> set (ls_tenantId t)"
    and "CHR '':'' \<notin> set (or_default (ls_userId s) ''anonymous'')"
    and "CHR '':'' \<notin> set (or_default (ls_userId t) ''anonymous'')"
  shows "bucketKey s = bucketKey t \<longleftrightarrow> scope_id s = scope_id t"
  using bucketKey_scope_id [OF assms]
  by (auto simp: scope_id_def bucketKey_def split: if_split_asm)

theorem bucketKey_identifies_scope_witness:
  "bucketKey \<lparr>ls_type = User_tool_scope, ls_tenantId = ''a'', ls_userId = Some ''u'', ls_toolName = Some ''x:y''\<rparr>
    \<noteq> bucketKey \<lparr>ls_type = User_tool_scope, ls_tenantId = ''a'', ls_userId = None, ls_toolName = Some ''x:y''\<rparr>"
  by (subst bucketKey_identifies_scope) (simp_all add: scope_id_def)

text \<open>A configured limit is found by precedence. After a reload, with identifiers free of the
  separator, a lookup yields the last record listed for the exact tool at the requested tier, else
  at the default tier, else for all tools at the requested tier, else at the default tier.\<close>

theorem lookup_limit_precedence:
  assumes "list_all plain_record records" and "plain tenantId" and "plain toolName"
  shows "lookup_limit (config_reload records now cs) tenantId scopeType toolName tier =
    map_option record_config (first_some
      [configured records tenantId scopeType toolName tier,
       configured records tenantId scopeType toolName ''default'',
       configured records tenantId scopeType ''*'' tier,
       configured records tenantId scopeType ''*'' ''default''])"
  by (rule lookup_limit_configured [OF assms])

theorem lookup_limit_precedence_witness:
  "lookup_limit (config_reload
      [\<lparr>lr_tenantId = ''a'', lr_scopeType = User_tool_scope, lr_toolName = ''*'', lr_tier = ''hi'',
         lr_capacity = 1, lr_refillTokens = 1, lr_refillIntervalMs = 1\<rparr>,
       \<lparr>lr_tenantId = ''a'', lr_scopeType = User_tool_scope, lr_toolName = ''t'', lr_tier = ''default'',
         lr_capacity = 5, lr_refillTokens = 1, lr_refillIntervalMs = 1\<rparr>] 0
      \<lparr>cs_records = [], cs_index = (\<lambda>_. None), cs_loadedAt = 0\<rparr>) ''a'' User_tool_scope ''t'' ''hi'' =
    Some \<lparr>bc_capacity = 5, bc_refillTokens = 1, bc_refillIntervalMs = 1, bc_tier = Some ''default''\<rparr>"
  by (subst lookup_limit_precedence)
    (simp_all add: plain_record_def plain_def configured_def first_some_def record_config_def)

text \<open>The service consults the user's bucket first. Whatever script caches the server and the
  limiter hold, a check returns an outcome; it is allowed exactly if both buckets cover the cost; a
  call that the user's bucket refuses leaves every other key, the tenant's bucket included, as it
  was; and no check touches any key but the two.\<close>

theorem rate_check_user_first:
  fixes rnd h clock cs q lm srv
  defines "limits \<equiv> resolve_limits cs (lq_tenantId q) (lq_toolName q) (lq_tier q)"
    and "cost \<equiv> or_default (lq_cost q) 1"
    and "ukey \<equiv> bucketKey (user_scope q)" and "tkey \<equiv> bucketKey (tenant_scope q)"
  assumes "lm_now lm = None"
  shows "\<exists>st' out. rate_check rnd h clock cs q (lm, srv) = (st', Inr out) \<and>
    (lo_allowed out \<longleftrightarrow>
       of_int cost \<le> available rnd (rl_userTool limits) clock (redis_bucket clock (rs_db srv) ukey) \<and>
       of_int cost \<le> available rnd (rl_tenant limits) clock (redis_bucket clock (rs_db srv) tkey)) \<and>
    (of_int cost \<le> available rnd (rl_userTool limits) clock (redis_bucket clock (rs_db srv) ukey) \<or>
       (\<forall>k. k = ukey \<or> rs_db (snd st') k = rs_db srv k)) \<and>
    (\<forall>k. k = ukey \<or> k = tkey \<or> rs_db (snd st') k = rs_db srv k)"
proof -
  obtain st1 r1 where c1: "consume rnd h clock (user_scope q) (rl_userTool limits) cost (lm, srv) = (st1, r1)"
    by (metis surj_pair)
  note s1 = consume_step [of "(lm, srv)", OF _, of rnd h clock "user_scope q" "rl_userTool limits" cost,
      unfolded c1, simplified, OF assms(5)]
  obtain v1 where v1: "r1 = Inr v1"
      "lv_allowed v1 \<longleftrightarrow> of_int cost \<le> available rnd (rl_userTool limits) clock (redis_bucket clock (rs_db srv) ukey)"
    using s1(2) toVerdict_step unfolding step_of_def ukey_def by metis
  have other: "redis_bucket clock (rs_db (snd st1)) tkey = redis_bucket clock (rs_db srv) tkey"
    using s1(1) user_key_not_tenant_key [of q] by (simp add: redis_bucket_def tkey_def)
  show ?thesis
  proof (cases "lv_allowed v1")
    case False
    then show ?thesis
      using c1 v1 s1(1)
      by (simp add: rate_check_def limits_def [symmetric] cost_def [symmetric] ukey_def tkey_def Let_def)
  next
    case True
    obtain st2 r2 where c2: "consume rnd h clock (tenant_scope q) (rl_tenant limits) cost st1 = (st2, r2)"
      by (metis surj_pair)
    note s2 = consume_step [of st1, OF s1(3), of rnd h clock "tenant_scope q" "rl_tenant limits" cost,
        unfolded c2, simplified]
    obtain v2 where v2: "r2 = Inr v2"
        "lv_allowed v2 \<longleftrightarrow> of_int cost \<le> available rnd (rl_tenant limits) clock (redis_bucket clock (rs_db srv) tkey)"
      using s2(2) toVerdict_step other unfolding step_of_def tkey_def by metis
    show ?thesis
      using True c1 c2 v1 v2 s1(1) s2(1)
      by (simp add: rate_check_def limits_def [symmetric] cost_def [symmetric] ukey_def tkey_def Let_def)
  qed
qed

theorem rate_check_user_first_witness:
  "\<exists>st' out. rate_check id ''sha'' 0
      (config_reload [] 0 \<lparr>cs_records = [], cs_index = (\<lambda>_. None), cs_loadedAt = 0\<rparr>)
      \<lparr>lq_tenantId = ''a'', lq_userId = ''u'', lq_toolName = ''t'', lq_tier = None, lq_cost = Some 61\<rparr>
      (\<lparr>lm_sha = Some ''gone'', lm_now = None\<rparr>, \<lparr>rs_db = (\<lambda>_. None), rs_scripts = []\<rparr>) = (st', Inr out) \<and>
    \<not> lo_allowed out"
  using rate_check_user_first [where rnd = id and h = "''sha''" and clock = 0 and
      lm = "\<lparr>lm_sha = Some ''gone'', lm_now = None\<rparr>" and
      cs = "config_reload [] 0 \<lparr>cs_records = [], cs_index = (\<lambda>_. None), cs_loadedAt = 0\<rparr>" and
      q = "\<lparr>lq_tenantId = ''a'', lq_userId = ''u'', lq_toolName = ''t'', lq_tier = None, lq_cost = Some 61\<rparr>" and
      srv = "\<lparr>rs_db = (\<lambda>_. None), rs_scripts = []\<rparr>"]
  by (auto simp: resolve_limits_def lookup_limit_def config_reload_def List.map_filter_simps
      fallback_userTool_def redis_bucket_def available_id)

end
