(* ===== verification/Policy_Engine.thy ===== *)
theory Policy_Engine
  imports Js_Value
begin

text \<open>
  The policy engine (\<open>apps/mcp-servers/policy-engine\<close>): its rule grammar, the evaluation of
  conditions and bundles, the loader of bundles and the tools it serves, and the baseline bundle
  it ships. Regular expressions are the parameter \<open>regex flags pattern text\<close> (\<open>None\<close>: the pattern
  does not compile), \<open>localeCompare\<close> is \<open>lc\<close>. A condition that throws evaluates to \<open>None\<close>.
\<close>

section \<open>Grammar\<close>

datatype operator = Op_eq | Op_ne | Op_in | Op_not_in | Op_matches | Op_not_matches
  | Op_gt | Op_gte | Op_lt | Op_lte | Op_exists | Op_missing | Op_contains | Op_not_contains
  | Op_contains_any | Op_starts_with | Op_eq_field | Op_ne_field

datatype condition = Condition
  (c_path: "string option") (c_op: "operator option") (c_value: jval)
  (c_all: "condition list option") (c_any: "condition list option") (c_not: "condition option")

datatype effect = Effect_allow | Effect_deny | Effect_annotate

record rule =
  rule_id :: string
  rule_priority :: int
  rule_effect :: effect
  rule_description :: string
  rule_reason :: "string option"
  rule_rateTier :: "string option"
  rule_match :: condition

datatype verdict = V_allow | V_deny

record policy_bundle =
  bd_name :: string
  bd_defaultEffect :: verdict
  bd_defaultReason :: string
  bd_rules :: "rule list"

record principal_doc =
  pd_subject :: string
  pd_tenantId :: string
  pd_role :: string
  pd_scopes :: "string list"
  pd_territory :: "string option"

record evaluation_input =
  ei_tool :: string
  ei_server :: string
  ei_principal :: principal_doc
  ei_tenant_id :: string
  ei_tenant_plan :: string
  ei_arguments :: "(string \<times> jval) list"

text \<open>The document that paths read.\<close>

definition input_doc :: "evaluation_input \<Rightarrow> jval" where
  "input_doc i = JObj
     [(''tool'', JStr (ei_tool i)), (''server'', JStr (ei_server i)),
      (''principal'', JObj
         [(''subject'', JStr (pd_subject (ei_principal i))),
          (''tenantId'', JStr (pd_tenantId (ei_principal i))),
          (''role'', JStr (pd_role (ei_principal i))),
          (''scopes'', JArr (map JStr (pd_scopes (ei_principal i)))),
          (''territory'', case pd_territory (ei_principal i) of None \<Rightarrow> JNull | Some t \<Rightarrow> JStr t)]),
      (''tenant'', JObj [(''id'', JStr (ei_tenant_id i)), (''plan'', JStr (ei_tenant_plan i))]),
      (''arguments'', JObj (ei_arguments i))]"

section \<open>Conditions\<close>

fun read_segments :: "jval \<Rightarrow> string list \<Rightarrow> jval" where
  "read_segments current [] = current"
| "read_segments current (segment # segments) =
     (if current = JNull \<or> current = JUndef then JUndef
      else if \<not> typeof_object current then JUndef
      else read_segments (js_get current segment) segments)"

definition readPath :: "jval \<Rightarrow> string \<Rightarrow> jval" where
  "readPath doc path = read_segments doc (split_on (CHR ''.'') path)"

definition asArray :: "jval \<Rightarrow> jval list" where
  "asArray v = (case v of JArr xs \<Rightarrow> xs | _ \<Rightarrow> [])"

definition compareNumbers ::
    "(rat \<Rightarrow> string) \<Rightarrow> jval \<Rightarrow> jval \<Rightarrow> (rat \<Rightarrow> rat \<Rightarrow> bool) \<Rightarrow> bool option" where
  "compareNumbers fmt l r compare =
     (case js_to_num fmt l of
        None \<Rightarrow> None
      | Some a \<Rightarrow>
          (case js_to_num fmt r of
             None \<Rightarrow> None
           | Some b \<Rightarrow> Some (is_finite_num a \<and> is_finite_num b \<and> compare (num_rat a) (num_rat b))))"

definition SUPPORTED_INLINE_FLAGS :: "char list" where
  "SUPPORTED_INLINE_FLAGS = ''imsu''"

text \<open>The match of \<open>/^\(\?([a-zA-Z]+)\)/\<close>: the flags and what follows the group.\<close>

definition inline_flags :: "string \<Rightarrow> (string \<times> string) option" where
  "inline_flags pattern =
     (case pattern of
        a # b # r \<Rightarrow>
          (let flags = takeWhile is_letter r; rest = dropWhile is_letter r in
           if a = CHR ''('' \<and> b = CHR ''?'' \<and> flags \<noteq> [] \<and> rest \<noteq> [] \<and> hd rest = CHR '')''
           then Some (flags, tl rest) else None)
      | _ \<Rightarrow> None)"

text \<open>\<open>compilePattern(p).test(s)\<close>; \<open>None\<close> is a thrown \<open>SyntaxError\<close>.\<close>

definition compilePattern_test ::
    "(string \<Rightarrow> string \<Rightarrow> string \<Rightarrow> bool option) \<Rightarrow> string \<Rightarrow> string \<Rightarrow> bool option" where
  "compilePattern_test regex pattern s =
     (case inline_flags pattern of
        None \<Rightarrow> regex '''' pattern s
      | Some (requested, rest) \<Rightarrow>
          if filter (\<lambda>c. c \<notin> set SUPPORTED_INLINE_FLAGS) requested \<noteq> [] then None
          else regex (nub requested) rest s)"

definition matchesPattern ::
    "(rat \<Rightarrow> string) \<Rightarrow> (string \<Rightarrow> string \<Rightarrow> string \<Rightarrow> bool option) \<Rightarrow> jval \<Rightarrow> jval \<Rightarrow> bool option" where
  "matchesPattern fmt regex v pattern =
     (case pattern of
        JStr p \<Rightarrow>
          (case v of
             JArr xs \<Rightarrow>
               (case js_join fmt '' '' xs of
                  None \<Rightarrow> None
                | Some s \<Rightarrow> Some (or_default (compilePattern_test regex p s) False))
           | JStr s \<Rightarrow> Some (or_default (compilePattern_test regex p s) False)
           | _ \<Rightarrow> Some False)
      | _ \<Rightarrow> Some False)"

definition lower_if_string :: "jval \<Rightarrow> jval" where
  "lower_if_string v = (case v of JStr s \<Rightarrow> JStr (to_lower s) | _ \<Rightarrow> v)"

text \<open>\<open>eq_field\<close> compares two reads of one document: arrays and objects are the same value only when
  they are read by the same path.\<close>

definition applyOperator ::
    "(rat \<Rightarrow> string) \<Rightarrow> (string \<Rightarrow> string \<Rightarrow> string \<Rightarrow> bool option) \<Rightarrow> operator \<Rightarrow> string \<Rightarrow> jval \<Rightarrow> jval \<Rightarrow>
       jval \<Rightarrow> bool option" where
  "applyOperator fmt regex op path actual expected doc =
     (case op of
        Op_eq \<Rightarrow> Some (strict_eq False actual expected)
      | Op_ne \<Rightarrow> Some (\<not> strict_eq False actual expected)
      | Op_in \<Rightarrow> Some (js_includes (asArray expected) actual)
      | Op_not_in \<Rightarrow> Some (\<not> js_includes (asArray expected) actual)
      | Op_matches \<Rightarrow> matchesPattern fmt regex actual expected
      | Op_not_matches \<Rightarrow> map_option Not (matchesPattern fmt regex actual expected)
      | Op_gt \<Rightarrow> compareNumbers fmt actual expected (\<lambda>a b. a > b)
      | Op_gte \<Rightarrow> compareNumbers fmt actual expected (\<lambda>a b. a \<ge> b)
      | Op_lt \<Rightarrow> compareNumbers fmt actual expected (\<lambda>a b. a < b)
      | Op_lte \<Rightarrow> compareNumbers fmt actual expected (\<lambda>a b. a \<le> b)
      | Op_exists \<Rightarrow> Some (actual \<noteq> JUndef \<and> actual \<noteq> JNull)
      | Op_missing \<Rightarrow> Some (actual = JUndef \<or> actual = JNull)
      | Op_contains \<Rightarrow> Some (js_includes (asArray actual) expected)
      | Op_not_contains \<Rightarrow> Some (\<not> js_includes (asArray actual) expected)
      | Op_contains_any \<Rightarrow>
          Some (list_ex (\<lambda>c. js_includes (map lower_if_string (asArray actual)) (lower_if_string c))
            (asArray expected))
      | Op_starts_with \<Rightarrow>
          Some (case (actual, expected) of (JStr a, JStr e) \<Rightarrow> starts_with a e | _ \<Rightarrow> False)
      | Op_eq_field \<Rightarrow>
          Some (case expected of
            JStr other \<Rightarrow> strict_eq (path = other) actual (readPath doc other) | _ \<Rightarrow> False)
      | Op_ne_field \<Rightarrow>
          Some (case expected of
            JStr other \<Rightarrow> \<not> strict_eq (path = other) actual (readPath doc other) | _ \<Rightarrow> False))"

text \<open>\<open>every\<close> and \<open>some\<close> stop at the first false or true child.\<close>

fun evaluateCondition ::
    "(rat \<Rightarrow> string) \<Rightarrow> (string \<Rightarrow> string \<Rightarrow> string \<Rightarrow> bool option) \<Rightarrow> jval \<Rightarrow> condition \<Rightarrow> bool option"
and every_condition ::
    "(rat \<Rightarrow> string) \<Rightarrow> (string \<Rightarrow> string \<Rightarrow> string \<Rightarrow> bool option) \<Rightarrow> jval \<Rightarrow> condition list \<Rightarrow> bool option"
and some_condition ::
    "(rat \<Rightarrow> string) \<Rightarrow> (string \<Rightarrow> string \<Rightarrow> string \<Rightarrow> bool option) \<Rightarrow> jval \<Rightarrow> condition list \<Rightarrow> bool option" where
  "evaluateCondition fmt regex doc (Condition path op v al an nt) =
     (case al of
        Some cs \<Rightarrow> every_condition fmt regex doc cs
      | None \<Rightarrow>
          (case an of
             Some cs \<Rightarrow> some_condition fmt regex doc cs
           | None \<Rightarrow>
               (case nt of
                  Some c \<Rightarrow> map_option Not (evaluateCondition fmt regex doc c)
                | None \<Rightarrow>
                    (case (path, op) of
                       (Some p, Some f) \<Rightarrow>
                         if p = [] then Some False
                         else applyOperator fmt regex f p (readPath doc p) v doc
                     | _ \<Rightarrow> Some False))))"
| "every_condition fmt regex doc [] = Some True"
| "every_condition fmt regex doc (c # cs) =
     (case evaluateCondition fmt regex doc c of
        None \<Rightarrow> None | Some False \<Rightarrow> Some False | Some True \<Rightarrow> every_condition fmt regex doc cs)"
| "some_condition fmt regex doc [] = Some False"
| "some_condition fmt regex doc (c # cs) =
     (case evaluateCondition fmt regex doc c of
        None \<Rightarrow> None | Some True \<Rightarrow> Some True | Some False \<Rightarrow> some_condition fmt regex doc cs)"

section \<open>Bundles\<close>

record trace_entry =
  te_ruleId :: string
  te_matched :: bool
  te_effect :: "verdict option"
  te_detail :: "string option"

record policy_result =
  pr_decision :: verdict
  pr_ruleId :: string
  pr_reason :: string
  pr_rateTier :: "string option"
  pr_trace :: "trace_entry list"
  pr_evaluatedRules :: nat

definition byPriority :: "(string \<Rightarrow> string \<Rightarrow> int) \<Rightarrow> rule \<Rightarrow> rule \<Rightarrow> int" where
  "byPriority lc a b =
     (if rule_priority a = rule_priority b then lc (rule_id a) (rule_id b)
      else rule_priority a - rule_priority b)"

definition ordered_rules :: "(string \<Rightarrow> string \<Rightarrow> int) \<Rightarrow> policy_bundle \<Rightarrow> rule list" where
  "ordered_rules lc b = sort_by (\<lambda>x y. byPriority lc x y \<le> 0) (bd_rules b)"

definition rule_verdict :: "effect \<Rightarrow> verdict option" where
  "rule_verdict e = (case e of Effect_allow \<Rightarrow> Some V_allow | Effect_deny \<Rightarrow> Some V_deny
     | Effect_annotate \<Rightarrow> None)"

definition tier_of :: "rule \<Rightarrow> string option" where
  "tier_of r = (case rule_rateTier r of None \<Rightarrow> None | Some t \<Rightarrow> if t = [] then None else Some t)"

definition rule_trace :: "rule \<Rightarrow> bool \<Rightarrow> trace_entry" where
  "rule_trace r matched =
     \<lparr>te_ruleId = rule_id r, te_matched = matched, te_effect = rule_verdict (rule_effect r),
      te_detail = (if rule_effect r = Effect_annotate \<and> matched
        then map_option ((@) ''rateTier='') (tier_of r) else None)\<rparr>"

fun evaluate_rules ::
    "(rat \<Rightarrow> string) \<Rightarrow> (string \<Rightarrow> string \<Rightarrow> string \<Rightarrow> bool option) \<Rightarrow> policy_bundle \<Rightarrow> jval \<Rightarrow> rule list \<Rightarrow>
       trace_entry list \<Rightarrow> string option \<Rightarrow> policy_result option" where
  "evaluate_rules fmt regex b doc [] trace tier =
     Some \<lparr>pr_decision = bd_defaultEffect b, pr_ruleId = bd_name b @ ''.default'',
       pr_reason = bd_defaultReason b, pr_rateTier = tier, pr_trace = trace,
       pr_evaluatedRules = length trace\<rparr>"
| "evaluate_rules fmt regex b doc (r # rs) trace tier =
     (case evaluateCondition fmt regex doc (rule_match r) of
        None \<Rightarrow> None
      | Some matched \<Rightarrow>
          (let trace' = trace @ [rule_trace r matched] in
           if \<not> matched then evaluate_rules fmt regex b doc rs trace' tier
           else case rule_verdict (rule_effect r) of
               None \<Rightarrow> evaluate_rules fmt regex b doc rs trace'
                 (case tier_of r of Some t \<Rightarrow> Some t | None \<Rightarrow> tier)
             | Some d \<Rightarrow> Some \<lparr>pr_decision = d, pr_ruleId = rule_id r,
                 pr_reason = or_default (rule_reason r) (rule_description r),
                 pr_rateTier = tier, pr_trace = trace', pr_evaluatedRules = length trace'\<rparr>))"

definition evaluate_bundle ::
    "(rat \<Rightarrow> string) \<Rightarrow> (string \<Rightarrow> string \<Rightarrow> string \<Rightarrow> bool option) \<Rightarrow> (string \<Rightarrow> string \<Rightarrow> int) \<Rightarrow>
       policy_bundle \<Rightarrow> evaluation_input \<Rightarrow> policy_result option" where
  "evaluate_bundle fmt regex lc b input =
     evaluate_rules fmt regex b (input_doc input) (ordered_rules lc b) [] None"

section \<open>The loader\<close>

text \<open>\<open>parse\<close> is YAML parsing with the schema's validation (\<open>yaml\<close>, \<open>zod\<close>): the issues or the bundle.
  A directory that cannot be read is \<open>None\<close>.\<close>

definition duplicate_rule :: "policy_bundle \<Rightarrow> string option" where
  "duplicate_rule b =
     (let ids = map rule_id (bd_rules b) in
      map_option (\<lambda>i. ids ! i) (List.find (\<lambda>i. ids ! i \<in> set (take i ids)) [0..<length ids]))"

fun load_files ::
    "(string \<Rightarrow> string + policy_bundle) \<Rightarrow> string list \<Rightarrow> (string \<times> policy_bundle) list \<Rightarrow>
       (string, (string \<times> policy_bundle) list) result" where
  "load_files parse [] bundles = Inr bundles"
| "load_files parse (file # files) bundles =
     (case parse file of
        Inl issues \<Rightarrow> Inl (concat [''Invalid policy bundle '', quoted file, '':'', [CHR 0x0A], issues])
      | Inr b \<Rightarrow>
          (case duplicate_rule b of
             Some i \<Rightarrow> Inl (concat [''Duplicate rule id '', quoted i, '' in bundle '', quoted file])
           | None \<Rightarrow> load_files parse files (alist_set (bd_name b) b bundles)))"

definition loadPolicies ::
    "(string \<Rightarrow> string + policy_bundle) \<Rightarrow> string list option \<Rightarrow> (string, (string \<times> policy_bundle) list) result" where
  "loadPolicies parse entries =
     (case entries of
        None \<Rightarrow> Inl ''Policy directory not found''
      | Some names \<Rightarrow>
          (let files = filter (\<lambda>n. ends_with n ''.yaml'' \<or> ends_with n ''.yml'') names in
           if files = [] then Inl ''No policy bundles found'' else load_files parse files []))"

definition get_bundle :: "(string \<times> policy_bundle) list \<Rightarrow> string \<Rightarrow> (string, policy_bundle) result" where
  "get_bundle bundles name =
     (case map_of bundles name of
        None \<Rightarrow> Inl (''Unknown policy bundle '' @ quoted name) | Some b \<Rightarrow> Inr b)"

section \<open>Tools\<close>

record policy_answer =
  pa_decision :: verdict
  pa_ruleId :: string
  pa_reason :: string
  pa_rateTier :: "string option"
  pa_bundle :: string
  pa_evaluatedRules :: nat

record explain_answer =
  xa_decision :: verdict
  xa_ruleId :: string
  xa_reason :: string
  xa_rateTier :: "string option"
  xa_bundle :: string
  xa_defaultEffect :: verdict
  xa_decidingRule :: "(string \<times> int \<times> string) option"
  xa_trace :: "trace_entry list"

definition policy_evaluate_tool ::
    "(rat \<Rightarrow> string) \<Rightarrow> (string \<Rightarrow> string \<Rightarrow> string \<Rightarrow> bool option) \<Rightarrow> (string \<Rightarrow> string \<Rightarrow> int) \<Rightarrow>
       (string \<times> policy_bundle) list \<Rightarrow> string \<Rightarrow> evaluation_input \<Rightarrow> (string, policy_answer) result" where
  "policy_evaluate_tool fmt regex lc bundles name input =
     bind_result (get_bundle bundles name) (\<lambda>b.
       case evaluate_bundle fmt regex lc b input of
         None \<Rightarrow> Inl ''Cannot convert object to primitive value''
       | Some r \<Rightarrow> Inr \<lparr>pa_decision = pr_decision r, pa_ruleId = pr_ruleId r,
           pa_reason = pr_reason r, pa_rateTier = pr_rateTier r, pa_bundle = bd_name b,
           pa_evaluatedRules = pr_evaluatedRules r\<rparr>)"

definition policy_explain_tool ::
    "(rat \<Rightarrow> string) \<Rightarrow> (string \<Rightarrow> string \<Rightarrow> string \<Rightarrow> bool option) \<Rightarrow> (string \<Rightarrow> string \<Rightarrow> int) \<Rightarrow>
       (string \<times> policy_bundle) list \<Rightarrow> string \<Rightarrow> evaluation_input \<Rightarrow> (string, explain_answer) result" where
  "policy_explain_tool fmt regex lc bundles name input =
     bind_result (get_bundle bundles name) (\<lambda>b.
       case evaluate_bundle fmt regex lc b input of
         None \<Rightarrow> Inl ''Cannot convert object to primitive value''
       | Some r \<Rightarrow> Inr \<lparr>xa_decision = pr_decision r, xa_ruleId = pr_ruleId r,
           xa_reason = pr_reason r, xa_rateTier = pr_rateTier r, xa_bundle = bd_name b,
           xa_defaultEffect = bd_defaultEffect b,
           xa_decidingRule = map_option (\<lambda>x. (rule_id x, rule_priority x, rule_description x))
             (List.find (\<lambda>x. rule_id x = pr_ruleId r) (bd_rules b)),
           xa_trace = pr_trace r\<rparr>)"

record listed_rule =
  li_id :: string
  li_priority :: int
  li_effect :: effect
  li_description :: string
  li_reason :: "string option"
  li_rateTier :: "string option"
  li_match :: condition

definition policy_list_tool ::
    "(string \<times> policy_bundle) list \<Rightarrow> string \<Rightarrow> (string, string \<times> verdict \<times> listed_rule list) result" where
  "policy_list_tool bundles name =
     bind_result (get_bundle bundles name) (\<lambda>b. Inr (bd_name b, bd_defaultEffect b,
       map (\<lambda>r. \<lparr>li_id = rule_id r, li_priority = rule_priority r, li_effect = rule_effect r,
           li_description = trim (rule_description r), li_reason = rule_reason r,
           li_rateTier = rule_rateTier r, li_match = rule_match r\<rparr>)
         (sort_by (\<lambda>x y. rule_priority x - rule_priority y \<le> 0) (bd_rules b))))"

section \<open>The baseline bundle\<close>

definition leaf :: "string \<Rightarrow> operator \<Rightarrow> jval \<Rightarrow> condition" where
  "leaf path op v = Condition (Some path) (Some op) v None None None"

definition all_of :: "condition list \<Rightarrow> condition" where
  "all_of cs = Condition None None JUndef (Some cs) None None"

definition any_of :: "condition list \<Rightarrow> condition" where
  "any_of cs = Condition None None JUndef None (Some cs) None"

definition deny_rule :: "string \<Rightarrow> int \<Rightarrow> string \<Rightarrow> condition \<Rightarrow> rule" where
  "deny_rule i n reason c = \<lparr>rule_id = i, rule_priority = n, rule_effect = Effect_deny,
     rule_description = '''', rule_reason = Some reason, rule_rateTier = None, rule_match = c\<rparr>"

definition tier_rule :: "string \<Rightarrow> int \<Rightarrow> string \<Rightarrow> string \<Rightarrow> rule" where
  "tier_rule i n tier plan = \<lparr>rule_id = i, rule_priority = n, rule_effect = Effect_annotate,
     rule_description = '''', rule_reason = None, rule_rateTier = Some tier,
     rule_match = all_of [leaf ''tenant.plan'' Op_eq (JStr plan)]\<rparr>"

definition destructive_sql :: string where
  "destructive_sql = concat [''(?is)'', [CHR 0x5C], ''b(insert|update|delete|drop|alter|truncate|grant|revoke|create|copy)'', [CHR 0x5C], ''b'']"

definition pii_sql :: string where
  "pii_sql = ''(?i)(ssn|social_security|tax_id|date_of_birth|passport|national_id|email|phone)''"

definition pii_soql :: string where
  "pii_soql = ''(?i)(ssn|social_security|tax_id|birthdate|passport|national_id|email|phone)''"

definition known_tools :: "string list" where
  "known_tools = [''sf.query'', ''sf.get_contact'', ''sf.list_opportunities'', ''sf.create_task'',
     ''pg.list_tables'', ''pg.describe_table'', ''pg.query'']"

definition deny_destructive_sql :: rule where
  "deny_destructive_sql = deny_rule ''deny-destructive-sql'' 5
     ''Warehouse access is read-only; the statement attempts a write''
     (all_of [leaf ''tool'' Op_eq (JStr ''pg.query''),
       leaf ''arguments.sql'' Op_matches (JStr destructive_sql)])"

definition deny_pii :: rule where
  "deny_pii = deny_rule ''deny-pii-on-restricted-plan'' 10
     ''The restricted plan does not permit querying personal data fields''
     (all_of [leaf ''tenant.plan'' Op_eq (JStr ''restricted''),
       leaf ''tool'' Op_in (JArr (map JStr [''sf.query'', ''sf.get_contact'', ''pg.query''])),
       any_of [leaf ''arguments.sql'' Op_matches (JStr pii_sql),
         leaf ''arguments.soql'' Op_matches (JStr pii_soql),
         leaf ''arguments.fields'' Op_contains_any (JArr (map JStr [''ssn'', ''tax_id'',
           ''birthdate'', ''national_id'', ''email'', ''phone'']))]])"

definition deny_cross_tenant :: rule where
  "deny_cross_tenant = deny_rule ''deny-cross-tenant-access'' 15
     (''Arguments reference a tenant other than the caller'' @ [CHR 0x27] @ ''s own'')
     (all_of [leaf ''arguments.tenantId'' Op_exists JUndef,
       leaf ''arguments.tenantId'' Op_ne_field (JStr ''principal.tenantId'')])"

definition deny_bulk :: rule where
  "deny_bulk = deny_rule ''deny-bulk-extraction'' 30
     ''Requested row limit exceeds the interactive query ceiling of 5000''
     (any_of [leaf ''arguments.limit'' Op_gt (jint 5000), leaf ''arguments.maxRows'' Op_gt (jint 5000)])"

definition deny_write_without_scope :: rule where
  "deny_write_without_scope = deny_rule ''deny-write-without-scope'' 20
     ''Caller does not hold the write scope this tool requires''
     (all_of [leaf ''tool'' Op_in (JArr [JStr ''sf.create_task'']),
       leaf ''principal.scopes'' Op_not_contains (JStr ''salesforce:write'')])"

definition deny_viewer_query :: rule where
  "deny_viewer_query = deny_rule ''deny-warehouse-query-for-viewers'' 40
     ''The viewer role cannot execute warehouse queries''
     (all_of [leaf ''principal.role'' Op_eq (JStr ''viewer''), leaf ''tool'' Op_eq (JStr ''pg.query'')])"

definition allow_known_tools :: rule where
  "allow_known_tools = \<lparr>rule_id = ''allow-known-tools'', rule_priority = 1000,
     rule_effect = Effect_allow, rule_description = '''',
     rule_reason = Some ''Tool is permitted by the baseline catalogue'', rule_rateTier = None,
     rule_match = all_of [leaf ''tool'' Op_in (JArr (map JStr known_tools))]\<rparr>"

text \<open>The bundle as written; descriptions, which never decide anything, are left out.\<close>

definition baseline :: policy_bundle where
  "baseline = \<lparr>bd_name = ''baseline'', bd_defaultEffect = V_deny,
     bd_defaultReason = ''No policy rule permits this call'',
     bd_rules = [deny_destructive_sql, deny_pii, deny_cross_tenant, deny_bulk,
       deny_write_without_scope, deny_viewer_query, tier_rule ''tier-enterprise-burst'' 50 ''burst'' ''enterprise'',
       tier_rule ''tier-restricted-throttle'' 55 ''throttled'' ''restricted'', allow_known_tools]\<rparr>"

section \<open>First match\<close>

abbreviation rule_matches ::
    "(rat \<Rightarrow> string) \<Rightarrow> (string \<Rightarrow> string \<Rightarrow> string \<Rightarrow> bool option) \<Rightarrow> jval \<Rightarrow> rule \<Rightarrow> bool option" where
  "rule_matches fmt regex doc r \<equiv> evaluateCondition fmt regex doc (rule_match r)"

definition decides ::
    "(rat \<Rightarrow> string) \<Rightarrow> (string \<Rightarrow> string \<Rightarrow> string \<Rightarrow> bool option) \<Rightarrow> jval \<Rightarrow> rule \<Rightarrow> bool" where
  "decides fmt regex doc r \<longleftrightarrow>
     rule_matches fmt regex doc r = Some True \<and> rule_verdict (rule_effect r) \<noteq> None"

text \<open>The tier that the annotating rules of a list leave.\<close>

definition tier_after ::
    "(rat \<Rightarrow> string) \<Rightarrow> (string \<Rightarrow> string \<Rightarrow> string \<Rightarrow> bool option) \<Rightarrow> jval \<Rightarrow> string option \<Rightarrow> rule list \<Rightarrow>
       string option" where
  "tier_after fmt regex doc tier rs =
     foldl (\<lambda>t r. if rule_matches fmt regex doc r = Some True \<and> rule_effect r = Effect_annotate
       then (case tier_of r of Some x \<Rightarrow> Some x | None \<Rightarrow> t) else t) tier rs"

lemma rule_verdict_simps [simp]:
  "rule_verdict Effect_allow = Some V_allow" "rule_verdict Effect_deny = Some V_deny"
  "rule_verdict Effect_annotate = None"
  by (simp_all add: rule_verdict_def)

lemma rule_verdict_None [simp]: "rule_verdict e = None \<longleftrightarrow> e = Effect_annotate"
  by (cases e) simp_all

lemma evaluate_rules_first:
  "evaluate_rules fmt regex b doc rs trace tier = Some p \<Longrightarrow>
     (case List.find (decides fmt regex doc) rs of
        Some r \<Rightarrow> rule_verdict (rule_effect r) = Some (pr_decision p) \<and> pr_ruleId p = rule_id r \<and>
          pr_reason p = or_default (rule_reason r) (rule_description r)
      | None \<Rightarrow> pr_decision p = bd_defaultEffect b \<and> pr_ruleId p = bd_name b @ ''.default'' \<and>
          pr_reason p = bd_defaultReason b) \<and>
     pr_rateTier p = tier_after fmt regex doc tier (takeWhile (\<lambda>r. \<not> decides fmt regex doc r) rs) \<and>
     pr_evaluatedRules p = length (pr_trace p)"
proof (induction rs arbitrary: trace tier)
  case Nil
  then show ?case by (auto simp: tier_after_def)
next
  case (Cons r rs)
  then obtain matched where m: "rule_matches fmt regex doc r = Some matched"
    by (auto split: option.splits)
  show ?case
  proof (cases "decides fmt regex doc r")
    case True
    then have "matched" "rule_effect r \<noteq> Effect_annotate" using m by (simp_all add: decides_def)
    moreover from this obtain d where "rule_verdict (rule_effect r) = Some d" by fastforce
    ultimately show ?thesis using Cons.prems m True by (auto simp: Let_def tier_after_def)
  next
    case False
    let ?tier = "if matched \<and> rule_effect r = Effect_annotate
      then (case tier_of r of Some x \<Rightarrow> Some x | None \<Rightarrow> tier) else tier"
    have "evaluate_rules fmt regex b doc rs (trace @ [rule_trace r matched]) ?tier = Some p"
      using Cons.prems m False by (auto simp: Let_def decides_def split: option.splits)
    from Cons.IH [OF this] False m show ?thesis by (simp add: tier_after_def)
  qed
qed

lemma evaluate_rules_defined:
  "evaluate_rules fmt regex b doc rs trace tier = Some p \<Longrightarrow>
     \<forall>u \<in> set (takeWhile (\<lambda>r. \<not> decides fmt regex doc r) rs). rule_matches fmt regex doc u \<noteq> None"
proof (induction rs arbitrary: trace tier)
  case (Cons r rs)
  then obtain matched where m: "rule_matches fmt regex doc r = Some matched"
    by (auto split: option.splits)
  then show ?case
  proof (cases "decides fmt regex doc r")
    case False
    then obtain tr ti where "evaluate_rules fmt regex b doc rs tr ti = Some p"
      using Cons.prems m by (auto simp: Let_def decides_def split: if_splits option.splits)
    from Cons.IH [OF this] m show ?thesis by auto
  qed simp
qed simp

lemma evaluate_rules_allow:
  assumes "evaluate_rules fmt regex b doc rs trace tier = Some p"
    and "pr_decision p = V_allow" "bd_defaultEffect b = V_deny"
  shows "\<exists>us r vs. rs = us @ r # vs \<and> rule_effect r = Effect_allow \<and>
    rule_matches fmt regex doc r = Some True \<and>
    (\<forall>u \<in> set us. rule_effect u \<noteq> Effect_annotate \<longrightarrow> rule_matches fmt regex doc u = Some False)"
proof -
  obtain r where r: "List.find (decides fmt regex doc) rs = Some r"
    "rule_verdict (rule_effect r) = Some V_allow"
    using evaluate_rules_first [OF assms(1)] assms(2,3) by (auto split: option.splits)
  then obtain us vs where split: "rs = us @ r # vs" "decides fmt regex doc r"
    "\<forall>u \<in> set us. \<not> decides fmt regex doc u"
    by (auto simp: find_Some_iff_first)
  then have "takeWhile (\<lambda>r. \<not> decides fmt regex doc r) rs = us" by simp
  then have "rule_matches fmt regex doc u \<noteq> None" if "u \<in> set us" for u
    using evaluate_rules_defined [OF assms(1)] that by simp
  moreover have "rule_effect r = Effect_allow" using r(2) by (cases "rule_effect r") auto
  ultimately show ?thesis
    using split by (intro exI [of _ us] exI [of _ r] exI [of _ vs]) (force simp: decides_def)
qed

text \<open>What the model relies on of \<open>localeCompare\<close>: it is a total preorder.\<close>

definition collation :: "(string \<Rightarrow> string \<Rightarrow> int) \<Rightarrow> bool" where
  "collation lc \<longleftrightarrow> (\<forall>a b. lc a b \<le> 0 \<or> lc b a \<le> 0) \<and>
     (\<forall>a b c. lc a b \<le> 0 \<longrightarrow> lc b c \<le> 0 \<longrightarrow> lc a c \<le> 0)"

lemma ordered_rules_sorted:
  assumes "collation lc"
  shows "sorted_wrt (\<lambda>x y. byPriority lc x y \<le> 0) (ordered_rules lc b)"
  unfolding ordered_rules_def
proof (rule sorted_sort_by)
  show "byPriority lc x y \<le> 0 \<or> byPriority lc y x \<le> 0" for x y
    using assms by (auto simp: byPriority_def collation_def)
  show "byPriority lc x z \<le> 0" if "byPriority lc x y \<le> 0" "byPriority lc y z \<le> 0" for x y z
    using assms that unfolding byPriority_def collation_def by (smt (verit))
qed

lemma set_ordered_rules [simp]: "set (ordered_rules lc b) = set (bd_rules b)"
  by (simp add: ordered_rules_def)

lemma byPriority_le: "byPriority lc x y \<le> 0 \<Longrightarrow> rule_priority x \<le> rule_priority y"
  by (auto simp: byPriority_def split: if_splits)

section \<open>What the baseline bundle admits\<close>

lemma baseline_ordered:
  "ordered_rules lc baseline = [deny_destructive_sql, deny_pii, deny_cross_tenant,
     deny_write_without_scope, deny_bulk, deny_viewer_query,
     tier_rule ''tier-enterprise-burst'' 50 ''burst'' ''enterprise'',
     tier_rule ''tier-restricted-throttle'' 55 ''throttled'' ''restricted'', allow_known_tools]"
proof -
  have prio: "rule_priority deny_destructive_sql = 5" "rule_priority deny_pii = 10"
    "rule_priority deny_cross_tenant = 15" "rule_priority deny_write_without_scope = 20"
    "rule_priority deny_bulk = 30" "rule_priority deny_viewer_query = 40"
    "rule_priority (tier_rule i n t pl) = n" "rule_priority allow_known_tools = 1000" for i n t pl
    by (simp_all add: deny_destructive_sql_def deny_pii_def deny_cross_tenant_def deny_bulk_def
        deny_write_without_scope_def deny_viewer_query_def tier_rule_def allow_known_tools_def deny_rule_def)
  show ?thesis
    by (simp add: ordered_rules_def sort_by_def baseline_def byPriority_def prio)
qed

lemma only_last:
  "xs @ [a] = us @ r # vs \<Longrightarrow> P r \<Longrightarrow> list_all (\<lambda>x. \<not> P x) xs \<Longrightarrow> us = xs \<and> r = a"
  by (cases vs rule: rev_cases) auto

lemma path_segments:
  "split_on (CHR ''.'') ''tool'' = [''tool'']"
  "split_on (CHR ''.'') ''principal.role'' = [''principal'', ''role'']"
  "split_on (CHR ''.'') ''principal.scopes'' = [''principal'', ''scopes'']"
  "split_on (CHR ''.'') ''principal.tenantId'' = [''principal'', ''tenantId'']"
  "split_on (CHR ''.'') ''tenant.plan'' = [''tenant'', ''plan'']"
  "split_on (CHR ''.'') ''arguments.sql'' = [''arguments'', ''sql'']"
  "split_on (CHR ''.'') ''arguments.soql'' = [''arguments'', ''soql'']"
  "split_on (CHR ''.'') ''arguments.fields'' = [''arguments'', ''fields'']"
  "split_on (CHR ''.'') ''arguments.tenantId'' = [''arguments'', ''tenantId'']"
  "split_on (CHR ''.'') ''arguments.limit'' = [''arguments'', ''limit'']"
  "split_on (CHR ''.'') ''arguments.maxRows'' = [''arguments'', ''maxRows'']"
  by code_simp+

text \<open>An argument of the call, \<open>undefined\<close> if there is none of the name.\<close>

definition argument :: "evaluation_input \<Rightarrow> string \<Rightarrow> jval" where
  "argument i k = js_get (JObj (ei_arguments i)) k"

lemma read_paths:
  "readPath (input_doc i) ''tool'' = JStr (ei_tool i)"
  "readPath (input_doc i) ''principal.role'' = JStr (pd_role (ei_principal i))"
  "readPath (input_doc i) ''principal.scopes'' = JArr (map JStr (pd_scopes (ei_principal i)))"
  "readPath (input_doc i) ''principal.tenantId'' = JStr (pd_tenantId (ei_principal i))"
  "readPath (input_doc i) ''tenant.plan'' = JStr (ei_tenant_plan i)"
  "readPath (input_doc i) ''arguments.sql'' = argument i ''sql''"
  "readPath (input_doc i) ''arguments.soql'' = argument i ''soql''"
  "readPath (input_doc i) ''arguments.fields'' = argument i ''fields''"
  "readPath (input_doc i) ''arguments.tenantId'' = argument i ''tenantId''"
  "readPath (input_doc i) ''arguments.limit'' = argument i ''limit''"
  "readPath (input_doc i) ''arguments.maxRows'' = argument i ''maxRows''"
  by (simp_all only: readPath_def path_segments)
    (simp_all add: input_doc_def js_get_def typeof_object_def argument_def)

lemma matches_leaf:
  "evaluateCondition fmt regex doc (leaf p op v) =
     (if p = [] then Some False else applyOperator fmt regex op p (readPath doc p) v doc)"
  by (simp add: leaf_def)

lemma matches_all_of:
  "evaluateCondition fmt regex doc (all_of cs) = every_condition fmt regex doc cs"
  "evaluateCondition fmt regex doc (any_of cs) = some_condition fmt regex doc cs"
  by (simp_all add: all_of_def any_of_def)

lemmas baseline_match = matches_leaf matches_all_of every_condition.simps some_condition.simps
  read_paths applyOperator_def asArray_def js_includes_JStr js_includes_strings

text \<open>The argument is a number, or converts to one, greater than the bound.\<close>

definition exceeds :: "(rat \<Rightarrow> string) \<Rightarrow> jval \<Rightarrow> int \<Rightarrow> bool" where
  "exceeds fmt v n \<longleftrightarrow> compareNumbers fmt v (jint n) (\<lambda>a b. a > b) = Some True"

lemma deny_rule_match [simp]: "rule_match (deny_rule i n r c) = c" "rule_effect (deny_rule i n r c) = Effect_deny"
  by (simp_all add: deny_rule_def)

lemma baseline_denials:
  "rule_matches fmt regex (input_doc i) deny_destructive_sql = Some False \<Longrightarrow> ei_tool i = ''pg.query'' \<Longrightarrow>
     matchesPattern fmt regex (argument i ''sql'') (JStr destructive_sql) = Some False"
  "rule_matches fmt regex (input_doc i) deny_cross_tenant = Some False \<Longrightarrow>
     argument i ''tenantId'' \<in> {JUndef, JNull, JStr (pd_tenantId (ei_principal i))}"
  "rule_matches fmt regex (input_doc i) deny_write_without_scope = Some False \<Longrightarrow>
     ei_tool i = ''sf.create_task'' \<Longrightarrow> ''salesforce:write'' \<in> set (pd_scopes (ei_principal i))"
  "rule_matches fmt regex (input_doc i) deny_bulk = Some False \<Longrightarrow>
     \<not> exceeds fmt (argument i ''limit'') 5000 \<and> \<not> exceeds fmt (argument i ''maxRows'') 5000"
  "rule_matches fmt regex (input_doc i) deny_viewer_query = Some False \<Longrightarrow>
     ei_tool i = ''pg.query'' \<Longrightarrow> pd_role (ei_principal i) \<noteq> ''viewer''"
  "rule_matches fmt regex (input_doc i) allow_known_tools = Some True \<Longrightarrow> ei_tool i \<in> set known_tools"
  by (auto simp: deny_destructive_sql_def deny_cross_tenant_def deny_bulk_def
      deny_write_without_scope_def deny_viewer_query_def allow_known_tools_def baseline_match exceeds_def
      split: option.splits bool.splits if_splits)

section \<open>A call to evaluate with\<close>

definition demo_call :: evaluation_input where
  "demo_call = \<lparr>ei_tool = ''pg.query'', ei_server = ''postgres'',
     ei_principal = \<lparr>pd_subject = ''u'', pd_tenantId = ''acme'', pd_role = ''analyst'',
       pd_scopes = [''postgres:read''], pd_territory = None\<rparr>,
     ei_tenant_id = ''acme'', ei_tenant_plan = ''enterprise'',
     ei_arguments = [(''sql'', JStr ''select 1''), (''limit'', jint 10), (''tenantId'', JStr ''acme'')]\<rparr>"

definition demo_regex :: "string \<Rightarrow> string \<Rightarrow> string \<Rightarrow> bool option" where
  "demo_regex flags pattern s = Some (has_sub s ''drop'')"

definition demo_lc :: "string \<Rightarrow> string \<Rightarrow> int" where
  "demo_lc a b = (if a < b then -1 else if a = b then 0 else 1)"

lemma demo_lc_collation: "collation demo_lc"
  by (auto simp: collation_def demo_lc_def)

definition demo_fmt :: "rat \<Rightarrow> string" where
  "demo_fmt q = ''?''"

lemma demo_call_allowed:
  "case evaluate_bundle demo_fmt demo_regex demo_lc baseline demo_call of
     None \<Rightarrow> False
   | Some p \<Rightarrow> pr_decision p = V_allow \<and> pr_rateTier p = Some ''burst'' \<and> pr_evaluatedRules p = 9"
  by code_simp

section \<open>Properties\<close>



text \<open>Denial wins over later permission. In a bundle that denies by default, a call is allowed only
  on the strength of an allow rule of the bundle that matches it, and then no matching deny rule
  has a smaller priority number.\<close>

theorem policy_allow_undefeated:
  assumes "evaluate_bundle fmt regex lc b input = Some p" and "pr_decision p = V_allow"
    and "bd_defaultEffect b = V_deny" and "collation lc"
  shows "\<exists>r \<in> set (bd_rules b). rule_effect r = Effect_allow \<and>
    rule_matches fmt regex (input_doc input) r = Some True \<and>
    (\<forall>d \<in> set (bd_rules b). rule_effect d = Effect_deny \<longrightarrow>
       rule_matches fmt regex (input_doc input) d = Some True \<longrightarrow> rule_priority r \<le> rule_priority d)"
proof -
  obtain us r vs where split: "ordered_rules lc b = us @ r # vs" "rule_effect r = Effect_allow"
    "rule_matches fmt regex (input_doc input) r = Some True"
    and us: "\<forall>u \<in> set us. rule_effect u \<noteq> Effect_annotate \<longrightarrow>
      rule_matches fmt regex (input_doc input) u = Some False"
    using evaluate_rules_allow [OF assms(1) [unfolded evaluate_bundle_def] assms(2,3)] by blast
  have rules: "set (bd_rules b) = insert r (set us \<union> set vs)"
    using arg_cong [OF split(1), of set] by auto
  have "rule_priority r \<le> rule_priority d" if "d \<in> set vs" for d
    using ordered_rules_sorted [OF assms(4), of b] that byPriority_le
    by (auto simp: split(1) sorted_wrt_append)
  with split us rules show ?thesis by (intro bexI [of _ r]) auto
qed

theorem policy_allow_undefeated_witness:
  "\<exists>r \<in> set (bd_rules baseline). rule_effect r = Effect_allow \<and>
     rule_matches demo_fmt demo_regex (input_doc demo_call) r = Some True"
proof -
  obtain p where p: "evaluate_bundle demo_fmt demo_regex demo_lc baseline demo_call = Some p"
    "pr_decision p = V_allow"
    using demo_call_allowed by (auto split: option.splits)
  have "bd_defaultEffect baseline = V_deny" by (simp add: baseline_def)
  from policy_allow_undefeated [OF p this demo_lc_collation] show ?thesis by blast
qed



text \<open>The catalogue tool lists rules by priority alone, so rules of equal priority are listed in
  bundle order, not in the order of their ids in which they are evaluated.\<close>

lemma list_order_differs:
  "\<exists>b. map rule_id (sort_by (\<lambda>x y. rule_priority x - rule_priority y \<le> 0) (bd_rules b)) \<noteq>
     map rule_id (ordered_rules demo_lc b)"
  by (rule exI [of _ "baseline\<lparr>bd_rules := [deny_rule ''b'' 1 '''' (all_of []), deny_rule ''a'' 1 '''' (all_of [])]\<rparr>"])
    (simp add: sort_by_def ordered_rules_def byPriority_def demo_lc_def deny_rule_def)


end
