(* ===== verification/Gw_Domain.thy ===== *)
theory Gw_Domain
  imports Js_Value
begin

text \<open>
  The vocabulary the components share: the error hierarchy and its HTTP form
  (\<open>packages/shared/src/errors.ts\<close>), and the domain types of \<open>packages/shared/src/domain.ts\<close> with the
  scope test.
\<close>

section \<open>Errors\<close>

datatype error_code = BAD_REQUEST | UNAUTHENTICATED | TOKEN_EXPIRED | PERMISSION_MIRROR_FAILED
  | POLICY_DENIED | SCOPE_DENIED | RATE_LIMITED | UPSTREAM_UNAVAILABLE | UPSTREAM_ERROR
  | AUDIT_CHAIN_BROKEN | CONFIGURATION_INVALID | NOT_FOUND | INTERNAL

definition code_str :: "error_code \<Rightarrow> string" where
  "code_str c = (case c of
     BAD_REQUEST \<Rightarrow> ''bad_request'' | UNAUTHENTICATED \<Rightarrow> ''unauthenticated''
   | TOKEN_EXPIRED \<Rightarrow> ''token_expired'' | PERMISSION_MIRROR_FAILED \<Rightarrow> ''permission_mirror_failed''
   | POLICY_DENIED \<Rightarrow> ''policy_denied'' | SCOPE_DENIED \<Rightarrow> ''scope_denied''
   | RATE_LIMITED \<Rightarrow> ''rate_limited'' | UPSTREAM_UNAVAILABLE \<Rightarrow> ''upstream_unavailable''
   | UPSTREAM_ERROR \<Rightarrow> ''upstream_error'' | AUDIT_CHAIN_BROKEN \<Rightarrow> ''audit_chain_broken''
   | CONFIGURATION_INVALID \<Rightarrow> ''configuration_invalid'' | NOT_FOUND \<Rightarrow> ''not_found''
   | INTERNAL \<Rightarrow> ''internal_error'')"

record gateway_error =
  ge_code :: error_code
  ge_message :: string
  ge_status :: int
  ge_details :: "(string \<times> jval) list"
  ge_retryAfterSeconds :: "int option"

definition gateway_err :: "error_code \<Rightarrow> string \<Rightarrow> int \<Rightarrow> (string \<times> jval) list \<Rightarrow> gateway_error" where
  "gateway_err c msg status details = \<lparr>ge_code = c, ge_message = msg, ge_status = status,
     ge_details = details, ge_retryAfterSeconds = None\<rparr>"

definition BadRequestError :: "string \<Rightarrow> (string \<times> jval) list \<Rightarrow> gateway_error" where
  "BadRequestError msg details = gateway_err BAD_REQUEST msg 400 details"

definition UnauthenticatedError :: "string \<Rightarrow> (string \<times> jval) list \<Rightarrow> gateway_error" where
  "UnauthenticatedError msg details = gateway_err UNAUTHENTICATED msg 401 details"

text \<open>\<open>new UnauthenticatedError()\<close> with the default message.\<close>

definition bearer_required :: gateway_error where
  "bearer_required = UnauthenticatedError ''A valid bearer token is required'' []"

definition TokenExpiredError :: gateway_error where
  "TokenExpiredError = gateway_err TOKEN_EXPIRED ''The presented access token has expired'' 401 []"

definition PermissionMirrorError :: "string \<Rightarrow> (string \<times> jval) list \<Rightarrow> gateway_error" where
  "PermissionMirrorError msg details = gateway_err PERMISSION_MIRROR_FAILED msg 403 details"

definition PolicyDeniedError :: "string \<Rightarrow> (string \<times> jval) list \<Rightarrow> gateway_error" where
  "PolicyDeniedError msg details = gateway_err POLICY_DENIED msg 403 details"

definition ScopeDeniedError :: "string list \<Rightarrow> string list \<Rightarrow> gateway_error" where
  "ScopeDeniedError required held =
     gateway_err SCOPE_DENIED (''Missing required scope: '' @ join '', '' required) 403
       [(''required'', JArr (map JStr required)), (''held'', JArr (map JStr held))]"

text \<open>\<open>Math.ceil(ms / 1000)\<close>, at least one second.\<close>

definition RateLimitedError :: "int \<Rightarrow> (string \<times> jval) list \<Rightarrow> gateway_error" where
  "RateLimitedError retryAfterMs details =
     (gateway_err RATE_LIMITED ''Rate limit exceeded'' 429
       (alist_set ''retryAfterMs'' (jint retryAfterMs) details))
       \<lparr>ge_retryAfterSeconds := Some (max 1 (- (- retryAfterMs div 1000)))\<rparr>"

definition UpstreamUnavailableError :: "string \<Rightarrow> gateway_error" where
  "UpstreamUnavailableError target =
     gateway_err UPSTREAM_UNAVAILABLE
       (concat [''Upstream '', quoted target, '' is unavailable'']) 503
       [(''target'', JStr target)]"

definition UpstreamError :: "string \<Rightarrow> string \<Rightarrow> (string \<times> jval) list \<Rightarrow> gateway_error" where
  "UpstreamError target msg details =
     gateway_err UPSTREAM_ERROR msg 502
       (foldl (\<lambda>d (k, v). alist_set k v d) [(''target'', JStr target)] details)"

definition AuditChainBrokenError :: "string \<Rightarrow> (string \<times> jval) list \<Rightarrow> gateway_error" where
  "AuditChainBrokenError msg details = gateway_err AUDIT_CHAIN_BROKEN msg 500 details"

definition ConfigurationError :: "string \<Rightarrow> (string \<times> jval) list \<Rightarrow> gateway_error" where
  "ConfigurationError msg details = gateway_err CONFIGURATION_INVALID msg 500 details"

definition NotFoundError :: "string \<Rightarrow> gateway_error" where
  "NotFoundError what = gateway_err NOT_FOUND (what @ '' was not found'') 404 []"

text \<open>The body of an error response: code, message, and the details if there are any.\<close>

definition toResponseBody :: "gateway_error \<Rightarrow> jval" where
  "toResponseBody e = JObj [(''error'', JObj
     ([(''code'', JStr (code_str (ge_code e))), (''message'', JStr (ge_message e))]
      @ (if ge_details e = [] then [] else [(''details'', JObj (ge_details e))])))]"

text \<open>What a handler can throw: a gateway error, another \<open>Error\<close>, or any other value.\<close>

datatype thrown = Thrown_gateway gateway_error | Thrown_error (thrown_name: string) (thrown_message: string)
  | Thrown_other

definition toGatewayError :: "thrown \<Rightarrow> gateway_error" where
  "toGatewayError t = (case t of
     Thrown_gateway e \<Rightarrow> e
   | Thrown_error n msg \<Rightarrow> gateway_err INTERNAL msg 500 []
   | Thrown_other \<Rightarrow> gateway_err INTERNAL ''Unexpected error'' 500 [])"

definition thrown_reason :: "thrown \<Rightarrow> string" where
  "thrown_reason t = (case t of
     Thrown_gateway e \<Rightarrow> ge_message e | Thrown_error n msg \<Rightarrow> msg | Thrown_other \<Rightarrow> ''unknown'')"

section \<open>Domain\<close>

datatype plan = Enterprise | Pro | Restricted
datatype role = Admin | Manager | Analyst | Viewer
datatype server_id = Salesforce | Postgres | Policy_engine

definition plan_str :: "plan \<Rightarrow> string" where
  "plan_str p = (case p of Enterprise \<Rightarrow> ''enterprise'' | Pro \<Rightarrow> ''pro'' | Restricted \<Rightarrow> ''restricted'')"

definition role_str :: "role \<Rightarrow> string" where
  "role_str r = (case r of Admin \<Rightarrow> ''admin'' | Manager \<Rightarrow> ''manager'' | Analyst \<Rightarrow> ''analyst''
     | Viewer \<Rightarrow> ''viewer'')"

definition server_str :: "server_id \<Rightarrow> string" where
  "server_str s = (case s of Salesforce \<Rightarrow> ''salesforce'' | Postgres \<Rightarrow> ''postgres''
     | Policy_engine \<Rightarrow> ''policy-engine'')"

definition parse_role :: "jval \<Rightarrow> role option" where
  "parse_role v = (case v of
     JStr s \<Rightarrow> List.find (\<lambda>r. role_str r = s) [Admin, Manager, Analyst, Viewer] | _ \<Rightarrow> None)"

definition parse_plan :: "string \<Rightarrow> plan option" where
  "parse_plan s = List.find (\<lambda>p. plan_str p = s) [Enterprise, Pro, Restricted]"

definition parse_server :: "string \<Rightarrow> server_id option" where
  "parse_server s = List.find (\<lambda>p. server_str p = s) [Salesforce, Postgres, Policy_engine]"

lemma role_str_inject [simp]: "role_str r = role_str q \<longleftrightarrow> r = q"
  by (cases r; cases q) (simp_all add: role_str_def)

lemma server_str_inject [simp]: "server_str r = server_str q \<longleftrightarrow> r = q"
  by (cases r; cases q) (simp_all add: server_str_def)

lemma parse_role_str [simp]: "parse_role (JStr (role_str r)) = Some r"
  by (cases r) (simp_all add: parse_role_def)

lemma parse_role_Some: "parse_role v = Some r \<longleftrightarrow> v = JStr (role_str r)"
  by (cases r) (auto simp: parse_role_def role_str_def split: jval.splits if_splits)

lemma parse_server_str [simp]: "parse_server (server_str r) = Some r"
  by (cases r) (simp_all add: parse_server_def)

lemma parse_server_Some: "parse_server s = Some r \<longleftrightarrow> s = server_str r"
  by (cases r) (auto simp: parse_server_def server_str_def split: if_splits)

lemma parse_plan_str [simp]: "parse_plan (plan_str r) = Some r"
  by (cases r) (simp_all add: parse_plan_def plan_str_def)

record principal =
  pn_subject :: string
  pn_tenantId :: string
  pn_email :: "string option"
  pn_name :: "string option"
  pn_role :: role
  pn_scopes :: "string list"
  pn_tokenId :: string
  pn_clientId :: string
  pn_expiresAt :: js_num

definition scopeFor :: "server_id \<Rightarrow> string \<Rightarrow> string" where
  "scopeFor s action = server_str s @ '':'' @ action"

definition hasScope :: "string list \<Rightarrow> string \<Rightarrow> bool" where
  "hasScope held required \<longleftrightarrow>
     required \<in> set held \<or> hd (split_on (CHR '':'') required) @ '':*'' \<in> set held"

lemma hasScope_mono: "set held \<subseteq> set held' \<Longrightarrow> hasScope held s \<Longrightarrow> hasScope held' s"
  by (auto simp: hasScope_def)

lemma hd_split_on_takeWhile: "hd (split_on c s) = takeWhile (\<lambda>x. x \<noteq> c) s"
  using hd_split_on [of c s] by simp

text \<open>A scope list grants a scope it lists, and every scope of a namespace it lists whole.\<close>

lemma hasScope_server:
  "hasScope held (scopeFor s a) \<longleftrightarrow>
     scopeFor s a \<in> set held \<or> server_str s @ '':*'' \<in> set held"
proof -
  have "CHR '':'' \<notin> set (server_str s)" by (cases s) (simp_all add: server_str_def)
  then have "takeWhile (\<lambda>x. x \<noteq> CHR '':'') (server_str s @ CHR '':'' # a) = server_str s"
    by (simp add: takeWhile_append takeWhile_tail)
  then show ?thesis by (simp add: hasScope_def scopeFor_def hd_split_on_takeWhile)
qed

end
