(* ===== verification/Js_Encoding.thy ===== *)
theory Js_Encoding
  imports Js_Value
begin

text \<open>
  The text encodings the OAuth code applies to credentials: \<open>encodeURIComponent\<close> and
  \<open>decodeURIComponent\<close>, and the base64 and base64url forms of \<open>Buffer\<close>. Bytes are characters.
  What decoding cannot express in the model's alphabet is, for the URI component, \<open>None\<close> (the
  library throws on malformed sequences) and, for bytes read as UTF-8, the character 0x1A (the
  library's replacement character).
\<close>

section \<open>URI components\<close>

definition uri_unreserved :: "char \<Rightarrow> bool" where
  "uri_unreserved c \<longleftrightarrow> is_letter c \<or> is_digit c \<or> code c \<in> {33, 39, 40, 41, 42, 45, 46, 95, 126}"

definition hex_upper :: "nat \<Rightarrow> char" where
  "hex_upper d = char_of (if d < 10 then 48 + d else 55 + d)"

definition percent :: "nat \<Rightarrow> string" where
  "percent n = [CHR ''%'', hex_upper (n div 16), hex_upper (n mod 16)]"

definition uri_char :: "char \<Rightarrow> string" where
  "uri_char c =
     (if uri_unreserved c then [c]
      else if code c < 128 then percent (code c)
      else percent (192 + code c div 64) @ percent (128 + code c mod 64))"

definition encodeURIComponent :: "string \<Rightarrow> string" where
  "encodeURIComponent s = concat (map uri_char s)"

definition percent_byte :: "string \<Rightarrow> (nat \<times> string) option" where
  "percent_byte s = (case s of
     p # a # b # r \<Rightarrow>
       if p = CHR ''%'' then
         (case (hex_digit a, hex_digit b) of (Some x, Some y) \<Rightarrow> Some (16 * x + y, r) | _ \<Rightarrow> None)
       else None
   | _ \<Rightarrow> None)"

lemma percent_byte_length: "percent_byte s = Some (n, r) \<Longrightarrow> length r < length s"
  by (auto simp: percent_byte_def split: list.splits option.splits if_splits)

function decodeURIComponent :: "string \<Rightarrow> string option" where
  "decodeURIComponent s = (case s of
     [] \<Rightarrow> Some []
   | c # r \<Rightarrow>
       if c \<noteq> CHR ''%'' then map_option (Cons c) (decodeURIComponent r)
       else (case percent_byte s of
           None \<Rightarrow> None
         | Some (n, r1) \<Rightarrow>
             if n < 128 then map_option (Cons (char_of n)) (decodeURIComponent r1)
             else if n \<in> {194, 195} then
               (case percent_byte r1 of
                  None \<Rightarrow> None
                | Some (m, r2) \<Rightarrow>
                    if 128 \<le> m \<and> m < 192
                    then map_option (Cons (char_of (64 * (n - 192) + (m - 128)))) (decodeURIComponent r2)
                    else None)
             else None))"
  by pat_completeness auto
termination
  by (relation "measure length") (auto dest!: percent_byte_length)

declare decodeURIComponent.simps [simp del]

lemma decode_Nil [simp]: "decodeURIComponent [] = Some []"
  by (simp add: decodeURIComponent.simps)

lemma hex_digit_upper: "d < 16 \<Longrightarrow> hex_digit (hex_upper d) = Some d"
proof -
  have "list_all (\<lambda>d. hex_digit (hex_upper d) = Some d) [0..<16]" by code_simp
  then show "d < 16 \<Longrightarrow> hex_digit (hex_upper d) = Some d" by (simp add: list_all_iff)
qed

lemma percent_byte_percent [simp]: "n < 256 \<Longrightarrow> percent_byte (percent n @ r) = Some (n, r)"
  by (simp add: percent_byte_def percent_def hex_digit_upper)

lemma percent_Cons: "percent n @ r = CHR ''%'' # hex_upper (n div 16) # hex_upper (n mod 16) # r"
  by (simp add: percent_def)

lemma unreserved_not_percent: "uri_unreserved c \<Longrightarrow> c \<noteq> CHR ''%''"
  by (auto simp: uri_unreserved_def is_letter_def is_digit_def code_def)

lemma decode_plain: "c \<noteq> CHR ''%'' \<Longrightarrow> decodeURIComponent (c # s) = map_option (Cons c) (decodeURIComponent s)"
  by (simp add: decodeURIComponent.simps [of "c # s"])

lemma decode_percent1:
  "n < 128 \<Longrightarrow> decodeURIComponent (percent n @ s) = map_option (Cons (char_of n)) (decodeURIComponent s)"
  using percent_byte_percent [of n s]
  by (simp only: percent_Cons) (simp add: decodeURIComponent.simps [of "CHR ''%'' # _"])

lemma decode_percent2:
  assumes "n \<in> {194, 195}" and "128 \<le> m" and "m < 192"
  shows "decodeURIComponent (percent n @ percent m @ s)
     = map_option (Cons (char_of (64 * (n - 192) + (m - 128)))) (decodeURIComponent s)"
proof -
  have "n < 256" "m < 256" "\<not> n < 128" using assms by auto
  then have pb: "percent_byte (percent n @ percent m @ s) = Some (n, percent m @ s)"
    "percent_byte (percent m @ s) = Some (m, s)" by simp_all
  obtain r where r: "percent n @ percent m @ s = CHR ''%'' # r" by (simp add: percent_Cons)
  from pb(1) r have pb1: "percent_byte (CHR ''%'' # r) = Some (n, percent m @ s)" by simp
  have "decodeURIComponent (CHR ''%'' # r)
     = map_option (Cons (char_of (64 * (n - 192) + (m - 128)))) (decodeURIComponent s)"
    using assms \<open>\<not> n < 128\<close>
    by (subst decodeURIComponent.simps) (simp only: pb1 pb(2) list.case option.case prod.case
        simp_thms if_False if_True)
  then show ?thesis by (simp only: r)
qed

lemma decode_uri_char: "decodeURIComponent (uri_char c @ s) = map_option (Cons c) (decodeURIComponent s)"
proof -
  consider "uri_unreserved c" | "\<not> uri_unreserved c" "code c < 128" | "\<not> uri_unreserved c" "128 \<le> code c"
    by linarith
  then show ?thesis
  proof cases
    case 1
    then show ?thesis by (simp add: uri_char_def unreserved_not_percent decode_plain)
  next
    case 2
    then have "decodeURIComponent (percent (code c) @ s) = map_option (Cons c) (decodeURIComponent s)"
      by (simp add: decode_percent1) (simp add: code_def)
    with 2 show ?thesis by (simp add: uri_char_def)
  next
    case 3
    have "128 div 64 \<le> code c div 64" using 3(2) by (rule div_le_mono)
    moreover have "code c div 64 < 4" using code_less [of c] by (intro less_mult_imp_div_less) simp
    ultimately have hi: "192 + code c div 64 \<in> {194, 195}" by auto
    have parts: "64 * (192 + code c div 64 - 192) + (128 + code c mod 64 - 128) = code c" by simp
    have ch: "char_of (code c) = c" by (simp add: code_def)
    have "decodeURIComponent (percent (192 + code c div 64) @ percent (128 + code c mod 64) @ s)
       = map_option (Cons c) (decodeURIComponent s)"
      using decode_percent2 [OF hi, of "128 + code c mod 64" s] unfolding parts ch by simp
    with 3 show ?thesis by (simp add: uri_char_def)
  qed
qed

text \<open>Decoding a URI component gives back what was encoded.\<close>

lemma decode_encodeURIComponent [simp]: "decodeURIComponent (encodeURIComponent s) = Some s"
  by (induction s) (simp_all add: encodeURIComponent_def decode_uri_char)

lemma hex_upper_chars: "d < 16 \<Longrightarrow> code (hex_upper d) < 128 \<and> hex_upper d \<noteq> CHR '':''"
proof -
  have "list_all (\<lambda>d. code (hex_upper d) < 128 \<and> hex_upper d \<noteq> CHR '':'') [0..<16]" by code_simp
  then show "d < 16 \<Longrightarrow> code (hex_upper d) < 128 \<and> hex_upper d \<noteq> CHR '':''" by (simp add: list_all_iff)
qed

lemma percent_chars: "n < 256 \<Longrightarrow> x \<in> set (percent n) \<Longrightarrow> code x < 128 \<and> x \<noteq> CHR '':''"
proof -
  assume n: "n < 256" and x: "x \<in> set (percent n)"
  have "n div 16 < 16" "n mod 16 < 16" using n by auto
  moreover from x have "x = CHR ''%'' \<or> x = hex_upper (n div 16) \<or> x = hex_upper (n mod 16)"
    by (auto simp: percent_def)
  moreover have "code (CHR ''%'') < 128" by (simp add: code_def)
  ultimately show ?thesis using hex_upper_chars by auto
qed

lemma unreserved_chars: "uri_unreserved x \<Longrightarrow> code x < 128 \<and> code x \<noteq> 58"
  by (auto simp: uri_unreserved_def is_letter_def is_digit_def)

lemma encodeURIComponent_chars:
  assumes "c \<in> set (encodeURIComponent s)"
  shows "code c < 128 \<and> c \<noteq> CHR '':''"
proof -
  obtain d where d: "c \<in> set (uri_char d)" using assms by (auto simp: encodeURIComponent_def)
  have colon: "code (CHR '':'') = 58" by (simp add: code_def)
  have b: "code d div 64 < 4" using code_less [of d] by (intro less_mult_imp_div_less) simp
  consider "uri_unreserved d" | "\<not> uri_unreserved d" "code d < 128" | "\<not> uri_unreserved d" "128 \<le> code d"
    by linarith
  then show ?thesis
  proof cases
    case 1
    with d show ?thesis using unreserved_chars [of d] colon by (auto simp: uri_char_def)
  next
    case 2
    with d show ?thesis using percent_chars [of "code d" c] by (simp add: uri_char_def)
  next
    case 3
    have "128 + code d mod 64 < 256" "192 + code d div 64 < 256" using b by auto
    from percent_chars [OF this(1), of c] percent_chars [OF this(2), of c] 3 d show ?thesis
      unfolding uri_char_def by auto
  qed
qed

lemma encodeURIComponent_Nil [simp]: "encodeURIComponent s = [] \<longleftrightarrow> s = []"
  by (cases s) (auto simp: encodeURIComponent_def uri_char_def percent_def)

section \<open>Base64\<close>

fun sextets :: "nat list \<Rightarrow> nat list" where
  "sextets (a # b # c # s) =
     [a div 4, 16 * (a mod 4) + b div 16, 4 * (b mod 16) + c div 64, c mod 64] @ sextets s"
| "sextets [a, b] = [a div 4, 16 * (a mod 4) + b div 16, 4 * (b mod 16)]"
| "sextets [a] = [a div 4, 16 * (a mod 4)]"
| "sextets [] = []"

fun octets :: "nat list \<Rightarrow> nat list" where
  "octets (p # q # r # t # s) =
     [4 * p + q div 16, 16 * (q mod 16) + r div 4, 64 * (r mod 4) + t] @ octets s"
| "octets [p, q, r] = [4 * p + q div 16, 16 * (q mod 16) + r div 4]"
| "octets [p, q] = [4 * p + q div 16]"
| "octets [p] = []"
| "octets [] = []"

lemma octets_sextets: "list_all (\<lambda>n. n < 256) bs \<Longrightarrow> octets (sextets bs) = bs"
  by (induction bs rule: sextets.induct) (auto simp: div_mult2_eq)

lemma sextets_bound: "list_all (\<lambda>n. n < 256) bs \<Longrightarrow> list_all (\<lambda>n. n < 64) (sextets bs)"
  by (induction bs rule: sextets.induct) auto

lemma length_sextets: "length (sextets bs) = (4 * length bs + 2) div 3"
  by (induction bs rule: sextets.induct) auto

text \<open>The two alphabets differ in the digits 62 and 63.\<close>

definition b64_char :: "bool \<Rightarrow> nat \<Rightarrow> char" where
  "b64_char url n = char_of
     (if n < 26 then 65 + n else if n < 52 then 71 + n else if n < 62 then n - 4
      else if n = 62 then (if url then 45 else 43) else (if url then 95 else 47))"

definition b64_val :: "char \<Rightarrow> nat option" where
  "b64_val c = (let n = code c in
     if 65 \<le> n \<and> n \<le> 90 then Some (n - 65) else if 97 \<le> n \<and> n \<le> 122 then Some (n - 71)
     else if 48 \<le> n \<and> n \<le> 57 then Some (n + 4) else if n \<in> {43, 45} then Some 62
     else if n \<in> {47, 95} then Some 63 else None)"

lemma b64_val_char: "n < 64 \<Longrightarrow> b64_val (b64_char url n) = Some n \<and> b64_char url n \<noteq> CHR ''=''"
proof -
  have "list_all (\<lambda>n. list_all (\<lambda>u. b64_val (b64_char u n) = Some n \<and> b64_char u n \<noteq> CHR ''='')
    [True, False]) [0..<64]" by code_simp
  then show "n < 64 \<Longrightarrow> b64_val (b64_char url n) = Some n \<and> b64_char url n \<noteq> CHR ''=''"
    by (cases url) (auto simp: list_all_iff)
qed

definition base64url :: "string \<Rightarrow> string" where
  "base64url s = map (b64_char True) (sextets (map code s))"

definition base64 :: "string \<Rightarrow> string" where
  "base64 s = map (b64_char False) (sextets (map code s))
     @ replicate ((3 - length s mod 3) mod 3) (CHR ''='')"

text \<open>\<open>Buffer.from(s, 'base64')\<close>: up to the padding, characters outside the alphabet are skipped.\<close>

definition from_base64 :: "string \<Rightarrow> string" where
  "from_base64 s = map char_of (octets (List.map_filter b64_val (takeWhile (\<lambda>c. c \<noteq> CHR ''='') s)))"

lemma map_filter_b64:
  "list_all (\<lambda>n. n < 64) ns \<Longrightarrow> List.map_filter b64_val (map (b64_char url) ns) = ns"
  by (induction ns) (auto simp: List.map_filter_simps b64_val_char)

lemma octets_codes: "map char_of (octets (sextets (map code s))) = s"
proof -
  have "list_all (\<lambda>n. n < 256) (map code s)" by (simp add: list_all_iff)
  then have "map char_of (octets (sextets (map code s))) = map (\<lambda>c. char_of (code c)) s"
    by (simp add: octets_sextets)
  then show ?thesis by (simp add: code_def)
qed

lemma codes_bound: "list_all (\<lambda>n. n < 64) (sextets (map code s))"
  by (rule sextets_bound) (simp add: list_all_iff)

lemma takeWhile_pad:
  "list_all (\<lambda>n. n < 64) ns \<Longrightarrow>
     takeWhile (\<lambda>c. c \<noteq> CHR ''='') (map (b64_char url) ns @ replicate k (CHR ''='')) = map (b64_char url) ns"
  by (induction ns) (auto simp: b64_val_char takeWhile_replicate)

lemma from_base64_base64 [simp]: "from_base64 (base64 s) = s"
  by (simp add: from_base64_def base64_def takeWhile_pad codes_bound map_filter_b64 octets_codes)

lemma from_base64_base64url [simp]: "from_base64 (base64url s) = s"
proof -
  have "takeWhile (\<lambda>c. c \<noteq> CHR ''='') (base64url s) = base64url s"
    using takeWhile_pad [OF codes_bound, of True s 0] by (simp only: base64url_def replicate_0 append_Nil2)
  then show ?thesis
    by (simp only: from_base64_def) (simp only: base64url_def codes_bound map_filter_b64 octets_codes)
qed

lemma base64url_inject [simp]: "base64url s = base64url t \<longleftrightarrow> s = t"
  by (metis from_base64_base64url)

lemma length_base64url: "length (base64url s) = (4 * length s + 2) div 3"
  by (simp add: base64url_def length_sextets)

text \<open>\<open>toString('utf8')\<close> of bytes.\<close>

fun utf8_decode :: "string \<Rightarrow> string" where
  "utf8_decode [] = []"
| "utf8_decode [c] = [if code c < 128 then c else CHR 0x1A]"
| "utf8_decode (c # d # s) =
     (if code c < 128 then c # utf8_decode (d # s)
      else if code c \<in> {194, 195} \<and> 128 \<le> code d \<and> code d < 192
      then char_of (64 * (code c - 192) + (code d - 128)) # utf8_decode s
      else CHR 0x1A # utf8_decode (d # s))"

lemma utf8_decode_ascii: "list_all (\<lambda>c. code c < 128) s \<Longrightarrow> utf8_decode s = s"
  by (induction s rule: utf8_decode.induct) auto

end
