(* ===== verification/Auth_Verify.thy ===== *)
theory Auth_Verify
  imports Gw_Domain Js_Encoding
begin

text \<open>
  Bearer tokens (\<open>packages/auth/src/verify.ts\<close>) and PKCE (\<open>packages/auth/src/pkce.ts\<close>):
  verification of an access token into a principal, the scope claim, and the code challenge.
  \<open>jwtVerify\<close> of \<open>jose\<close>, with the key lookup it is given, is the parameter \<open>verify\<close>: on a token
  and options it returns the payload or what it throws. SHA-256 is the parameter \<open>sha\<close>, to bytes.
\<close>

type_synonym claims = "(string \<times> jval) list"

section \<open>Verification\<close>

record verify_options =
  vo_issuer :: string
  vo_audience :: "string list option"
  vo_clockToleranceSeconds :: "int option"

text \<open>The options \<open>jwtVerify\<close> is called with.\<close>

record jwt_options =
  jo_issuer :: string
  jo_audience :: "string list option"
  jo_algorithms :: "string list"
  jo_clockTolerance :: int

definition ALLOWED_ALGORITHMS :: "string list" where
  "ALLOWED_ALGORITHMS = [''RS256'', ''RS384'', ''RS512'', ''ES256'', ''ES384'']"

definition jwt_options_of :: "verify_options \<Rightarrow> jwt_options" where
  "jwt_options_of o' = \<lparr>jo_issuer = vo_issuer o', jo_audience = vo_audience o',
     jo_algorithms = ALLOWED_ALGORITHMS,
     jo_clockTolerance = or_default (vo_clockToleranceSeconds o') 5\<rparr>"

definition parseScope :: "jval \<Rightarrow> string list" where
  "parseScope v = (case v of
     JStr s \<Rightarrow> words_by js_space s
   | JArr vs \<Rightarrow> List.map_filter as_string vs
   | _ \<Rightarrow> [])"

definition nonempty_string :: "jval \<Rightarrow> string option" where
  "nonempty_string v = (case v of JStr s \<Rightarrow> if s = [] then None else Some s | _ \<Rightarrow> None)"

definition principalFromClaims :: "claims \<Rightarrow> (gateway_error, principal) result" where
  "principalFromClaims payload =
     (case nonempty_string (own_prop payload ''sub'') of
        None \<Rightarrow> Inl (UnauthenticatedError ''Token carries no subject'' [])
      | Some subject \<Rightarrow>
     (case nonempty_string (own_prop payload ''tenant_id'') of
        None \<Rightarrow> Inl (UnauthenticatedError ''Token carries no tenant_id claim'' [])
      | Some tenantId \<Rightarrow>
     (case nonempty_string (own_prop payload ''jti'') of
        None \<Rightarrow> Inl (UnauthenticatedError ''Token carries no jti claim'' [])
      | Some tokenId \<Rightarrow> Inr
          \<lparr>pn_subject = subject, pn_tenantId = tenantId,
           pn_email = as_string (own_prop payload ''email''),
           pn_name = as_string (own_prop payload ''name''),
           pn_role = or_default (parse_role (own_prop payload ''role'')) Viewer,
           pn_scopes = parseScope (own_prop payload ''scope''), pn_tokenId = tokenId,
           pn_clientId = or_default (as_string (own_prop payload ''client_id'')) ''unknown'',
           pn_expiresAt = (case own_prop payload ''exp'' of JNum n \<Rightarrow> n | _ \<Rightarrow> JFin 0)\<rparr>)))"

text \<open>\<open>error.name === 'JWTExpired'\<close> for what \<open>jwtVerify\<close> throws; a gateway error raised by the key
  lookup carries the name of its class.\<close>

definition jwt_expired :: "thrown \<Rightarrow> bool" where
  "jwt_expired t = (case t of Thrown_error n msg \<Rightarrow> n = ''JWTExpired'' | _ \<Rightarrow> False)"

definition verifyAccessToken ::
    "(string \<Rightarrow> jwt_options \<Rightarrow> thrown + claims) \<Rightarrow> string \<Rightarrow> verify_options \<Rightarrow>
       (gateway_error, claims \<times> principal) result" where
  "verifyAccessToken verify token o' =
     (if token = [] then Inl bearer_required
      else case verify token (jwt_options_of o') of
          Inl t \<Rightarrow> Inl (if jwt_expired t then TokenExpiredError
            else UnauthenticatedError ''Access token verification failed''
              [(''reason'', JStr (thrown_reason t))])
        | Inr payload \<Rightarrow> bind_result (principalFromClaims payload) (\<lambda>p. Inr (payload, p)))"

definition remainingLifetimeSeconds :: "int \<Rightarrow> int \<Rightarrow> int" where
  "remainingLifetimeSeconds expiresAt now = max 0 (expiresAt - now div 1000)"

definition extractBearer :: "string option \<Rightarrow> string option" where
  "extractBearer header = (case header of
     None \<Rightarrow> None
   | Some h \<Rightarrow>
       if h = [] then None
       else (case split_on (CHR '' '') h of
           [] \<Rightarrow> None
         | scheme # rest \<Rightarrow>
             if to_lower scheme \<noteq> ''bearer'' then None
             else (let value = trim (join '' '' rest) in if value = [] then None else Some value)))"

section \<open>PKCE\<close>

record pkce_pair =
  pk_codeVerifier :: string
  pk_codeChallenge :: string
  pk_codeChallengeMethod :: string

definition challengeFor :: "(string \<Rightarrow> string) \<Rightarrow> string \<Rightarrow> string" where
  "challengeFor sha codeVerifier = base64url (sha codeVerifier)"

text \<open>\<open>bytes\<close> is what \<open>randomBytes(32)\<close> returned.\<close>

definition createPkcePair :: "(string \<Rightarrow> string) \<Rightarrow> string \<Rightarrow> pkce_pair" where
  "createPkcePair sha bytes =
     (let codeVerifier = base64url bytes
      in \<lparr>pk_codeVerifier = codeVerifier, pk_codeChallenge = challengeFor sha codeVerifier,
          pk_codeChallengeMethod = ''S256''\<rparr>)"

section \<open>What verification establishes\<close>

lemma nonempty_string_Some: "nonempty_string v = Some s \<longleftrightarrow> v = JStr s \<and> s \<noteq> []"
  by (auto simp: nonempty_string_def split: jval.splits)

lemma principalFromClaims_Inr:
  "principalFromClaims payload = Inr p \<Longrightarrow>
     own_prop payload ''sub'' = JStr (pn_subject p) \<and> own_prop payload ''tenant_id'' = JStr (pn_tenantId p) \<and>
     own_prop payload ''jti'' = JStr (pn_tokenId p) \<and>
     pn_subject p \<noteq> [] \<and> pn_tenantId p \<noteq> [] \<and> pn_tokenId p \<noteq> [] \<and>
     pn_scopes p = parseScope (own_prop payload ''scope'') \<and>
     pn_role p = or_default (parse_role (own_prop payload ''role'')) Viewer"
  by (auto simp: principalFromClaims_def nonempty_string_Some split: option.splits)

lemma parseScope_words: "s \<in> set (parseScope (JStr t)) \<Longrightarrow> s \<noteq> [] \<and> \<not> (\<exists>c \<in> set s. js_space c)"
  by (auto simp: parseScope_def dest: words_by_props)

text \<open>The scope claim an issuer writes is read back as the list it was written from.\<close>

lemma js_space_blank: "js_space (CHR '' '')"
  by (simp add: js_space_def code_def)

lemma parseScope_join:
  "\<forall>s \<in> set ss. s \<noteq> [] \<and> (\<forall>c \<in> set s. \<not> js_space c) \<Longrightarrow> parseScope (JStr (join '' '' ss)) = ss"
  by (simp add: parseScope_def words_by_join js_space_blank)

lemma extractBearer_Some:
  "extractBearer (Some (''Bearer '' @ t)) = (if trim t = [] then None else Some (trim t))"
proof -
  have "split_on (CHR '' '') (''Bearer '' @ t) = ''Bearer'' # split_on (CHR '' '') t"
    using split_on_append [of "CHR '' ''" "''Bearer''" t] by simp
  moreover have "to_lower ''Bearer'' = ''bearer''" by code_simp
  ultimately show ?thesis by (simp add: extractBearer_def join_split_on Let_def)
qed

end
