(* ===== verification/Oauth_Client.thy ===== *)
theory Oauth_Client
  imports Auth_Verify
begin

text \<open>
  The gateway's OAuth client (\<open>packages/auth/src/oauth-client.ts\<close>): discovery with its issuer check
  and memo, the grants it performs as form parameters with client authentication, and how the
  token endpoint's answers become errors. The network is the parameter \<open>fetch\<close> (\<open>None\<close>: refused,
  unreachable or timed out). A form body is its list of parameters. URLs are absolute \<open>http(s)\<close>
  URLs without user information, taken as written: \<open>URL\<close>'s normalisation is not modelled.
\<close>

section \<open>Requests\<close>

record http_request =
  rq_url :: string
  rq_method :: string
  rq_headers :: "(string \<times> string) list"
  rq_form :: "(string \<times> string) list"

text \<open>\<open>hr_body\<close> is the parsed JSON body, \<open>None\<close> if it does not parse.\<close>

record http_response =
  hr_status :: int
  hr_body :: "jval option"

definition response_ok :: "http_response \<Rightarrow> bool" where
  "response_ok r \<longleftrightarrow> 200 \<le> hr_status r \<and> hr_status r \<le> 299"

definition http_send ::
    "(http_request \<Rightarrow> http_response option) \<Rightarrow> http_request \<Rightarrow> (thrown, http_response) result" where
  "http_send fetch r = (case fetch r of
     None \<Rightarrow> Inl (Thrown_gateway (UpstreamUnavailableError ''identity-provider''))
   | Some resp \<Rightarrow> Inr resp)"

section \<open>URLs\<close>

definition strip_slash :: "string \<Rightarrow> string" where
  "strip_slash s = (if s \<noteq> [] \<and> last s = CHR ''/'' then butlast s else s)"

definition url_parts :: "string \<Rightarrow> (string \<times> string \<times> string) option" where
  "url_parts u =
     (let cut = (\<lambda>scheme. let r = drop (length scheme + 3) u;
                  host = takeWhile (\<lambda>c. c \<notin> {CHR ''/'', CHR ''?'', CHR ''#''}) r
              in if starts_with u (scheme @ ''://'') \<and> host \<noteq> []
                 then Some (scheme, host, drop (length host) r) else None)
      in case cut ''http'' of Some p \<Rightarrow> Some p | None \<Rightarrow> cut ''https'')"

definition rebase_url :: "string \<Rightarrow> string \<Rightarrow> string option" where
  "rebase_url base endpoint =
     (case (url_parts endpoint, url_parts base) of
        (Some (_, _, r), Some (scheme, host, _)) \<Rightarrow>
          Some (scheme @ ''://'' @ host @ (if r = [] \<or> hd r \<noteq> CHR ''/'' then ''/'' else []) @ r)
      | _ \<Rightarrow> None)"

section \<open>The client\<close>

definition TOKEN_EXCHANGE_GRANT :: string where
  "TOKEN_EXCHANGE_GRANT = ''urn:ietf:params:oauth:grant-type:token-exchange''"

definition ACCESS_TOKEN_TYPE :: string where
  "ACCESS_TOKEN_TYPE = ''urn:ietf:params:oauth:token-type:access_token''"

record oauth_client =
  oc_issuer :: string
  oc_baseUrl :: "string option"
  oc_clientId :: string
  oc_clientSecret :: "string option"
  oc_metadata :: "claims option"

definition new_oauth_client :: "string \<Rightarrow> string option \<Rightarrow> string \<Rightarrow> string option \<Rightarrow> oauth_client" where
  "new_oauth_client issuer baseUrl clientId clientSecret =
     \<lparr>oc_issuer = strip_slash issuer, oc_baseUrl = map_option strip_slash baseUrl,
      oc_clientId = clientId, oc_clientSecret = clientSecret, oc_metadata = None\<rparr>"

definition invalid_url :: thrown where
  "invalid_url = Thrown_error ''TypeError'' ''Invalid URL''"

text \<open>\<open>rebase\<close>: with no base URL (or an empty one) the endpoint is kept, whatever it is.\<close>

definition rebase :: "oauth_client \<Rightarrow> jval \<Rightarrow> (thrown, jval) result" where
  "rebase cl endpoint =
     (case oc_baseUrl cl of
        None \<Rightarrow> Inr endpoint
      | Some base \<Rightarrow>
          if base = [] then Inr endpoint
          else (case endpoint of
              JStr e \<Rightarrow> (case rebase_url base e of None \<Rightarrow> Inl invalid_url | Some u \<Rightarrow> Inr (JStr u))
            | _ \<Rightarrow> Inl invalid_url))"

text \<open>A field that is rebased only when it is truthy.\<close>

definition rebase_optional :: "oauth_client \<Rightarrow> string \<Rightarrow> claims \<Rightarrow> (thrown, claims) result" where
  "rebase_optional cl k raw =
     (case nonempty_string (own_prop raw k) of
        None \<Rightarrow> Inr raw
      | Some e \<Rightarrow> bind_result (rebase cl (JStr e)) (\<lambda>u. Inr (alist_set k u raw)))"

definition checked_metadata :: "(rat \<Rightarrow> string) \<Rightarrow> oauth_client \<Rightarrow> claims \<Rightarrow> (thrown, claims) result" where
  "checked_metadata fmt cl raw =
     (if own_prop raw ''issuer'' \<noteq> JStr (oc_issuer cl)
      then Inl (Thrown_gateway (UpstreamUnavailableError (concat
        [''oidc-discovery: issuer mismatch, expected '', quoted (oc_issuer cl),
         '' but the provider announced '',
         quoted (or_default (js_to_string fmt (own_prop raw ''issuer'')) [])])))
      else bind_result (rebase cl (own_prop raw ''token_endpoint'')) (\<lambda>te.
           bind_result (rebase cl (own_prop raw ''jwks_uri'')) (\<lambda>ju.
           bind_result (rebase_optional cl ''userinfo_endpoint''
             (alist_set ''jwks_uri'' ju (alist_set ''token_endpoint'' te raw))) (\<lambda>m.
           rebase_optional cl ''introspection_endpoint'' m))))"

definition fetchMetadata ::
    "(rat \<Rightarrow> string) \<Rightarrow> (http_request \<Rightarrow> http_response option) \<Rightarrow> oauth_client \<Rightarrow> (thrown, claims) result" where
  "fetchMetadata fmt fetch cl =
     bind_result (http_send fetch
       \<lparr>rq_url = or_default (oc_baseUrl cl) (oc_issuer cl) @ ''/.well-known/openid-configuration'',
        rq_method = ''GET'', rq_headers = [(''accept'', ''application/json'')], rq_form = []\<rparr>)
     (\<lambda>resp.
       if \<not> response_ok resp
       then Inl (Thrown_gateway (UpstreamUnavailableError
         (''oidc-discovery ('' @ int_str (hr_status resp) @ '')'')))
       else (case hr_body resp of
           Some (JObj raw) \<Rightarrow> checked_metadata fmt cl raw
         | Some _ \<Rightarrow> Inl (Thrown_error ''TypeError'' ''Cannot read properties'')
         | None \<Rightarrow> Inl (Thrown_error ''SyntaxError'' ''Unexpected token'')))"

text \<open>A success is kept; a failure is not.\<close>

definition metadata ::
    "(rat \<Rightarrow> string) \<Rightarrow> (http_request \<Rightarrow> http_response option) \<Rightarrow> oauth_client \<Rightarrow>
       (thrown, claims) result \<times> oauth_client" where
  "metadata fmt fetch cl =
     (case oc_metadata cl of
        Some m \<Rightarrow> (Inr m, cl)
      | None \<Rightarrow> (case fetchMetadata fmt fetch cl of
          Inl e \<Rightarrow> (Inl e, cl) | Inr m \<Rightarrow> (Inr m, cl\<lparr>oc_metadata := Some m\<rparr>)))"

definition basic_auth :: "string \<Rightarrow> string \<Rightarrow> string" where
  "basic_auth clientId secret =
     ''Basic '' @ base64 (encodeURIComponent clientId @ '':'' @ encodeURIComponent secret)"

text \<open>The request of a grant: a non-empty secret authenticates by header, otherwise the client
  identifies itself in the body.\<close>

definition token_request :: "oauth_client \<Rightarrow> string \<Rightarrow> (string \<times> string) list \<Rightarrow> http_request" where
  "token_request cl endpoint params =
     (let headers = [(''content-type'', ''application/x-www-form-urlencoded''), (''accept'', ''application/json'')]
      in case oc_clientSecret cl of
           Some s \<Rightarrow>
             if s = [] then \<lparr>rq_url = endpoint, rq_method = ''POST'', rq_headers = headers,
               rq_form = alist_set ''client_id'' (oc_clientId cl) params\<rparr>
             else \<lparr>rq_url = endpoint, rq_method = ''POST'',
               rq_headers = headers @ [(''authorization'', basic_auth (oc_clientId cl) s)], rq_form = params\<rparr>
         | None \<Rightarrow> \<lparr>rq_url = endpoint, rq_method = ''POST'', rq_headers = headers,
               rq_form = alist_set ''client_id'' (oc_clientId cl) params\<rparr>)"

definition token_refused :: "int \<Rightarrow> jval \<Rightarrow> gateway_error" where
  "token_refused status payload =
     (let err = or_default (as_string (js_get payload ''error'')) ''invalid_request'';
          desc = or_default (as_string (js_get payload ''error_description''))
            (''Token endpoint returned '' @ int_str status)
      in BadRequestError (err @ '': '' @ desc)
           [(''status'', jint status), (''oauthError'', JStr err)])"

definition oauth_token ::
    "(rat \<Rightarrow> string) \<Rightarrow> (http_request \<Rightarrow> http_response option) \<Rightarrow> oauth_client \<Rightarrow>
       (string \<times> string) list \<Rightarrow> (thrown, jval) result \<times> oauth_client" where
  "oauth_token fmt fetch cl params =
     (case metadata fmt fetch cl of
        (Inl e, cl') \<Rightarrow> (Inl e, cl')
      | (Inr meta, cl') \<Rightarrow>
          (bind_result (http_send fetch (token_request cl'
             (or_default (as_string (own_prop meta ''token_endpoint'')) []) params)) (\<lambda>resp.
             let payload = or_default (hr_body resp) (JObj []) in
             if response_ok resp then Inr payload
             else if payload \<in> {JNull, JUndef} then Inl (Thrown_error ''TypeError'' ''Cannot read properties'')
             else Inl (Thrown_gateway (token_refused (hr_status resp) payload))), cl'))"

section \<open>Grants\<close>

definition exchangeAuthorizationCode_params :: "string \<Rightarrow> string \<Rightarrow> string \<Rightarrow> (string \<times> string) list" where
  "exchangeAuthorizationCode_params code' redirectUri codeVerifier =
     [(''grant_type'', ''authorization_code''), (''code'', code'), (''redirect_uri'', redirectUri),
      (''code_verifier'', codeVerifier)]"

definition refresh_params :: "string \<Rightarrow> (string \<times> string) list" where
  "refresh_params refreshToken = [(''grant_type'', ''refresh_token''), (''refresh_token'', refreshToken)]"

definition clientCredentials_params ::
    "string \<Rightarrow> string list option \<Rightarrow> string option \<Rightarrow> (string \<times> string) list" where
  "clientCredentials_params tenantId scopes audience =
     [(''grant_type'', ''client_credentials''), (''tenant_id'', tenantId)]
     @ (case scopes of None \<Rightarrow> [] | Some ss \<Rightarrow> [(''scope'', join '' '' ss)])
     @ (case audience of None \<Rightarrow> [] | Some a \<Rightarrow> if a = [] then [] else [(''audience'', a)])"

record exchange_request =
  xr_subjectToken :: string
  xr_audience :: string
  xr_scopes :: "string list"
  xr_resource :: "string option"

definition exchangeToken_params :: "exchange_request \<Rightarrow> (string \<times> string) list" where
  "exchangeToken_params r =
     [(''grant_type'', TOKEN_EXCHANGE_GRANT), (''subject_token'', xr_subjectToken r),
      (''subject_token_type'', ACCESS_TOKEN_TYPE), (''requested_token_type'', ACCESS_TOKEN_TYPE),
      (''audience'', xr_audience r)]
     @ (if xr_scopes r = [] then [] else [(''scope'', join '' '' (xr_scopes r))])
     @ (case xr_resource r of None \<Rightarrow> [] | Some u \<Rightarrow> if u = [] then [] else [(''resource'', u)])"

definition exchangeToken ::
    "(rat \<Rightarrow> string) \<Rightarrow> (http_request \<Rightarrow> http_response option) \<Rightarrow> oauth_client \<Rightarrow> exchange_request \<Rightarrow>
       (thrown, jval) result \<times> oauth_client" where
  "exchangeToken fmt fetch cl r = oauth_token fmt fetch cl (exchangeToken_params r)"

text \<open>The authorization URL: the announced endpoint and the query parameters set on it, in order.\<close>

definition authorizationUrl ::
    "(rat \<Rightarrow> string) \<Rightarrow> (http_request \<Rightarrow> http_response option) \<Rightarrow> oauth_client \<Rightarrow>
       string \<Rightarrow> string list \<Rightarrow> string \<Rightarrow> string \<Rightarrow> string option \<Rightarrow>
       (thrown, string \<times> (string \<times> string) list) result \<times> oauth_client" where
  "authorizationUrl fmt fetch cl redirectUri scopes state' codeChallenge nonce =
     (case metadata fmt fetch cl of
        (Inl e, cl') \<Rightarrow> (Inl e, cl')
      | (Inr meta, cl') \<Rightarrow>
          ((case as_string (own_prop meta ''authorization_endpoint'') of
              None \<Rightarrow> Inl invalid_url
            | Some e \<Rightarrow> if url_parts e = None then Inl invalid_url else Inr (e,
                [(''response_type'', ''code''), (''client_id'', oc_clientId cl'), (''redirect_uri'', redirectUri),
                 (''scope'', join '' '' scopes), (''state'', state'), (''code_challenge'', codeChallenge),
                 (''code_challenge_method'', ''S256'')]
                @ (case nonce of None \<Rightarrow> [] | Some n \<Rightarrow> if n = [] then [] else [(''nonce'', n)]))), cl'))"

section \<open>Facts\<close>

lemma own_prop_alist_set: "own_prop (alist_set k v m) k' = (if k' = k then v else own_prop m k')"
  by (auto simp: own_prop_def)

lemma rebase_optional_issuer:
  "rebase_optional cl k raw = Inr m \<Longrightarrow> k \<noteq> ''issuer'' \<Longrightarrow> own_prop m ''issuer'' = own_prop raw ''issuer''"
  by (auto simp: rebase_optional_def own_prop_alist_set bind_result_Inr_iff split: option.splits)

text \<open>Metadata in use always announces the configured issuer, fetched now or kept.\<close>

definition metadata_ok :: "oauth_client \<Rightarrow> bool" where
  "metadata_ok cl \<longleftrightarrow> (case oc_metadata cl of None \<Rightarrow> True
     | Some m \<Rightarrow> own_prop m ''issuer'' = JStr (oc_issuer cl))"

lemma checked_metadata_issuer:
  "checked_metadata fmt cl raw = Inr m \<Longrightarrow> own_prop m ''issuer'' = JStr (oc_issuer cl)"
  by (auto simp: checked_metadata_def bind_result_Inr_iff own_prop_alist_set
      dest!: rebase_optional_issuer split: if_splits)

lemma fetchMetadata_issuer:
  "fetchMetadata fmt fetch cl = Inr m \<Longrightarrow> own_prop m ''issuer'' = JStr (oc_issuer cl)"
  by (auto simp: fetchMetadata_def bind_result_Inr_iff
      dest: checked_metadata_issuer split: if_splits option.splits jval.splits)

lemma metadata_keeps:
  assumes "metadata_ok cl" and "metadata fmt fetch cl = (r, cl')"
  shows "metadata_ok cl' \<and> oc_issuer cl' = oc_issuer cl \<and>
    (\<forall>m. r = Inr m \<longrightarrow> own_prop m ''issuer'' = JStr (oc_issuer cl) \<and> oc_metadata cl' = Some m)"
  using assms
  by (auto simp: metadata_def metadata_ok_def fetchMetadata_issuer split: option.splits sum.splits)

lemma metadata_failure_not_kept:
  "metadata fmt fetch cl = (Inl e, cl') \<Longrightarrow> cl' = cl \<and> oc_metadata cl = None"
  by (auto simp: metadata_def split: option.splits sum.splits)

end
