(* ===== verification/Token_Exchange.thy ===== *)
theory Token_Exchange
  imports Oauth_Client Canonical
begin

text \<open>
  Permission mirroring (\<open>packages/auth/src/token-exchange.ts\<close>): the cache key, the cache with its
  expiry, the checks on an exchanged token, and the service as a step relation in which several
  gateway instances share one cache and callers with the same key share one exchange. SHA-256 is
  \<open>sha\<close>; \<open>decodeJwt\<close> is \<open>decode\<close> (\<open>None\<close>: it throws). The cache holds what the class writes, or a
  text that does not parse. Times are milliseconds, expiry times in tokens seconds.
\<close>

section \<open>Keys\<close>

record exchange_config =
  tx_keyPrefix :: string
  tx_maxTtlSeconds :: int
  tx_earlyRefreshSeconds :: int

definition new_exchange_config ::
    "(string \<Rightarrow> string) \<Rightarrow> string option \<Rightarrow> int option \<Rightarrow> int option \<Rightarrow> string option \<Rightarrow> exchange_config" where
  "new_exchange_config sha issuer maxTtl early keyPrefix =
     (let tag = (case issuer of
          None \<Rightarrow> [] | Some i \<Rightarrow> if i = [] then [] else CHR '':'' # take 8 (sha256Hex sha i))
      in \<lparr>tx_keyPrefix = or_default keyPrefix ''tex'' @ tag, tx_maxTtlSeconds = or_default maxTtl 300,
          tx_earlyRefreshSeconds = or_default early 10\<rparr>)"

definition cacheKey :: "(string \<Rightarrow> string) \<Rightarrow> exchange_config \<Rightarrow> string \<Rightarrow> string \<Rightarrow> string list \<Rightarrow> string" where
  "cacheKey sha tx subject audience scopes =
     tx_keyPrefix tx @ '':'' @ subject @ '':'' @ audience @ '':'' @ scopeDigest sha scopes"

record mint_request =
  mr_principal :: principal
  mr_subjectToken :: string
  mr_audience :: string
  mr_scopes :: "string list"

definition request_key :: "(string \<Rightarrow> string) \<Rightarrow> exchange_config \<Rightarrow> mint_request \<Rightarrow> string" where
  "request_key sha tx r = cacheKey sha tx (pn_subject (mr_principal r)) (mr_audience r) (mr_scopes r)"

section \<open>The cache\<close>

record cache_entry =
  ce_t :: string
  ce_a :: string
  ce_s :: "string list"
  ce_e :: rat

datatype cache_text = Cached cache_entry | Garbled

record mirrored_token =
  mt_accessToken :: string
  mt_audience :: string
  mt_scopes :: "string list"
  mt_expiresAt :: rat
  mt_subject :: string
  mt_cached :: bool

type_synonym token_cache = "string \<Rightarrow> (cache_text \<times> int) option"

definition cache_get :: "int \<Rightarrow> token_cache \<Rightarrow> string \<Rightarrow> cache_text option" where
  "cache_get now cache k = (case cache k of
     None \<Rightarrow> None | Some (v, until) \<Rightarrow> if now < until then Some v else None)"

text \<open>\<open>up\<close>: the lookup is answered; \<open>del\<close>: a deletion is.\<close>

definition readCache ::
    "exchange_config \<Rightarrow> int \<Rightarrow> bool \<Rightarrow> bool \<Rightarrow> token_cache \<Rightarrow> string \<Rightarrow> string \<Rightarrow>
       mirrored_token option \<times> token_cache" where
  "readCache tx now up del cache k audience =
     (if \<not> up then (None, cache)
      else case cache_get now cache k of
          None \<Rightarrow> (None, cache)
        | Some Garbled \<Rightarrow> (None, if del then map_del cache k else cache)
        | Some (Cached e) \<Rightarrow>
            if ce_e e - of_int (tx_earlyRefreshSeconds tx) \<le> of_int (now div 1000) then (None, cache)
            else (Some \<lparr>mt_accessToken = ce_t e, mt_audience = audience, mt_scopes = ce_s e,
              mt_expiresAt = ce_e e, mt_subject = ce_a e, mt_cached = True\<rparr>, cache))"

text \<open>\<open>set\<close>: the write is accepted. Redis refuses a time to live that is not a whole number.\<close>

definition writeCache ::
    "exchange_config \<Rightarrow> int \<Rightarrow> bool \<Rightarrow> token_cache \<Rightarrow> string \<Rightarrow> mirrored_token \<Rightarrow> token_cache" where
  "writeCache tx now set' cache k tok =
     (let remaining = mt_expiresAt tok - of_int (now div 1000) - of_int (tx_earlyRefreshSeconds tx);
          ttl = min (of_int (tx_maxTtlSeconds tx)) remaining
      in if ttl \<le> 0 \<or> \<not> set' \<or> \<not> is_int_rat ttl then cache
         else map_set cache k
           (Cached \<lparr>ce_t = mt_accessToken tok, ce_a = mt_subject tok, ce_s = mt_scopes tok,
              ce_e = mt_expiresAt tok\<rparr>, now + 1000 * \<lfloor>ttl\<rfloor>))"

section \<open>One exchange\<close>

definition mirror_failed :: "mint_request \<Rightarrow> thrown \<Rightarrow> gateway_error" where
  "mirror_failed r t = PermissionMirrorError
     (concat [''Could not mint a downstream token for '', quoted (mr_audience r), '' on behalf of '',
        pn_subject (mr_principal r),
        ''. The request was refused rather than falling back to a shared credential.''])
     [(''audience'', JStr (mr_audience r)), (''subject'', JStr (pn_subject (mr_principal r))),
      (''detail'', JStr (case t of Thrown_gateway e \<Rightarrow> ge_message e | _ \<Rightarrow> ''token exchange failed''))]"

definition subject_mismatch :: "(rat \<Rightarrow> string) \<Rightarrow> mint_request \<Rightarrow> jval \<Rightarrow> gateway_error" where
  "subject_mismatch fmt r sub' = PermissionMirrorError
     ''Exchanged token names a different subject than the caller''
     [(''expected'', JStr (pn_subject (mr_principal r))),
      (''received'', JStr (if sub' \<in> {JUndef, JNull} then ''none'' else or_default (js_to_string fmt sub') [])),
      (''audience'', JStr (mr_audience r))]"

definition granted_scopes :: "jval \<Rightarrow> string list \<Rightarrow> string list" where
  "granted_scopes body scopes = (case nonempty_string (js_get body ''scope'') of
     None \<Rightarrow> scopes | Some s \<Rightarrow> filter (\<lambda>w. w \<noteq> []) (split_on (CHR '' '') s))"

text \<open>What \<open>performExchange\<close> makes of the provider's answer, before it is cached.\<close>

definition exchanged ::
    "(rat \<Rightarrow> string) \<Rightarrow> (string \<Rightarrow> claims option) \<Rightarrow> int \<Rightarrow> mint_request \<Rightarrow> (thrown, jval) result \<Rightarrow>
       (thrown, mirrored_token) result" where
  "exchanged fmt decode now r answer = (case answer of
     Inl t \<Rightarrow> Inl (Thrown_gateway (mirror_failed r t))
   | Inr body \<Rightarrow>
       (let token = or_default (as_string (js_get body ''access_token'')) [] in
        case decode token of
          None \<Rightarrow> Inl (Thrown_error ''JWTInvalid'' ''Invalid JWT'')
        | Some cl \<Rightarrow>
            if own_prop cl ''sub'' \<noteq> JStr (pn_subject (mr_principal r))
            then Inl (Thrown_gateway (subject_mismatch fmt r (own_prop cl ''sub'')))
            else Inr \<lparr>mt_accessToken = token, mt_audience = mr_audience r,
              mt_scopes = granted_scopes body (mr_scopes r),
              mt_expiresAt = (case own_prop cl ''exp'' of JNum n \<Rightarrow> num_rat n
                | _ \<Rightarrow> of_int (now div 1000) + (case js_get body ''expires_in'' of JNum n \<Rightarrow> num_rat n | _ \<Rightarrow> 60)),
              mt_subject = pn_subject (mr_principal r), mt_cached = False\<rparr>))"

section \<open>The service\<close>

text \<open>The clock, the shared cache, and per instance the exchanges in flight: their key and the
  requests that wait for them, the first of which is the one that is performed.\<close>

record exchange_state =
  xs_now :: int
  xs_cache :: token_cache
  xs_inFlight :: "nat \<Rightarrow> (string \<times> mint_request list) list"

type_synonym mint_reply = "mint_request \<times> (thrown, mirrored_token) result"

text \<open>A call of \<open>mint\<close> up to the point where it returns or waits.\<close>

definition mint_begin ::
    "(string \<Rightarrow> string) \<Rightarrow> exchange_config \<Rightarrow> bool \<Rightarrow> bool \<Rightarrow> nat \<Rightarrow> mint_request \<Rightarrow> exchange_state \<Rightarrow>
       mint_reply list \<times> exchange_state" where
  "mint_begin sha tx up del i r s =
     (let k = request_key sha tx r;
          (hit, cache) = readCache tx (xs_now s) up del (xs_cache s) k (mr_audience r);
          s1 = s\<lparr>xs_cache := cache\<rparr>;
          flights = xs_inFlight s i
      in case hit of
           Some tok \<Rightarrow> ([(r, Inr tok)], s1)
         | None \<Rightarrow> ([], s1\<lparr>xs_inFlight := (xs_inFlight s)(i := alist_set k
             (case map_of flights k of None \<Rightarrow> [r] | Some ws \<Rightarrow> ws @ [r]) flights)\<rparr>))"

text \<open>The provider's answer to the exchange under \<open>k\<close>: the token is checked and cached, the
  exchange leaves the map, and every waiting request gets the same outcome.\<close>

definition mint_end ::
    "(rat \<Rightarrow> string) \<Rightarrow> (string \<Rightarrow> claims option) \<Rightarrow> exchange_config \<Rightarrow> bool \<Rightarrow> nat \<Rightarrow> string \<Rightarrow>
       (thrown, jval) result \<Rightarrow> exchange_state \<Rightarrow> mint_reply list \<times> exchange_state" where
  "mint_end fmt decode tx set' i k answer s =
     (case map_of (xs_inFlight s i) k of
        None \<Rightarrow> ([], s)
      | Some [] \<Rightarrow> ([], s)
      | Some (r # ws) \<Rightarrow>
          (let out = exchanged fmt decode (xs_now s) r answer
           in (map (\<lambda>w. (w, out)) (r # ws),
               s\<lparr>xs_cache := (case out of Inl _ \<Rightarrow> xs_cache s
                   | Inr tok \<Rightarrow> writeCache tx (xs_now s) set' (xs_cache s) k tok),
                 xs_inFlight := (xs_inFlight s)(i := alist_del k (xs_inFlight s i))\<rparr>)))"

definition exchange_invalidate ::
    "(string \<Rightarrow> string) \<Rightarrow> exchange_config \<Rightarrow> bool \<Rightarrow> string \<Rightarrow> string \<Rightarrow> string list \<Rightarrow> exchange_state \<Rightarrow>
       exchange_state" where
  "exchange_invalidate sha tx del subject audience scopes s =
     (if del then s\<lparr>xs_cache := map_del (xs_cache s) (cacheKey sha tx subject audience scopes)\<rparr> else s)"

text \<open>The audiences the gateway's targets have: \<open>mcp:\<close> and a name without a colon.\<close>

definition mcp_audience :: "string \<Rightarrow> bool" where
  "mcp_audience a \<longleftrightarrow> starts_with a ''mcp:'' \<and> CHR '':'' \<notin> set (drop 4 a)"

inductive exchange_step ::
    "(string \<Rightarrow> string) \<Rightarrow> (rat \<Rightarrow> string) \<Rightarrow> (string \<Rightarrow> claims option) \<Rightarrow> exchange_config \<Rightarrow>
       exchange_state \<Rightarrow> mint_reply list \<Rightarrow> exchange_state \<Rightarrow> bool"
  for sha fmt decode tx where
  Begin: "mcp_audience (mr_audience r) \<Longrightarrow> mint_begin sha tx up del i r s = (out, s') \<Longrightarrow>
     exchange_step sha fmt decode tx s out s'"
| Answer: "mint_end fmt decode tx set' i k answer s = (out, s') \<Longrightarrow>
     exchange_step sha fmt decode tx s out s'"
| Invalidate: "exchange_step sha fmt decode tx s []
     (exchange_invalidate sha tx del subject audience scopes s)"
| Evict: "exchange_step sha fmt decode tx s [] (s\<lparr>xs_cache := map_del (xs_cache s) k\<rparr>)"
| Tick: "xs_now s \<le> t \<Longrightarrow> exchange_step sha fmt decode tx s [] (s\<lparr>xs_now := t\<rparr>)"

definition exchange_init :: "int \<Rightarrow> exchange_state" where
  "exchange_init now = \<lparr>xs_now = now, xs_cache = (\<lambda>k. None), xs_inFlight = (\<lambda>i. [])\<rparr>"

inductive exchange_reachable ::
    "(string \<Rightarrow> string) \<Rightarrow> (rat \<Rightarrow> string) \<Rightarrow> (string \<Rightarrow> claims option) \<Rightarrow> exchange_config \<Rightarrow>
       exchange_state \<Rightarrow> bool"
  for sha fmt decode tx where
  init: "exchange_reachable sha fmt decode tx (exchange_init now)"
| step: "exchange_reachable sha fmt decode tx s \<Longrightarrow> exchange_step sha fmt decode tx s out s' \<Longrightarrow>
     exchange_reachable sha fmt decode tx s'"

section \<open>Keys that name their owner\<close>

text \<open>A store whose keys determine, among the allowed requests, whom an entry belongs to: what is
  put in under a request's key is only ever taken out by a request of the same owner.\<close>

locale owned_keys =
  fixes key :: "'r \<Rightarrow> 'k"
    and allowed :: "'r \<Rightarrow> bool"
    and owner :: "'r \<Rightarrow> 'o"
    and belongs :: "'v \<Rightarrow> 'o \<Rightarrow> bool"
  assumes key_owner: "allowed r \<Longrightarrow> allowed q \<Longrightarrow> key r = key q \<Longrightarrow> owner r = owner q"
begin

definition owned :: "('k \<Rightarrow> 'v option) \<Rightarrow> bool" where
  "owned m \<longleftrightarrow> (\<forall>r v. allowed r \<longrightarrow> m (key r) = Some v \<longrightarrow> belongs v (owner r))"

lemma owned_lookup: "owned m \<Longrightarrow> allowed r \<Longrightarrow> m (key r) = Some v \<Longrightarrow> belongs v (owner r)"
  by (simp add: owned_def)

lemma owned_empty: "owned (\<lambda>k. None)"
  by (simp add: owned_def)

lemma owned_set:
  assumes "owned m" and "allowed r" and "belongs v (owner r)"
  shows "owned (map_set m (key r) v)"
  unfolding owned_def
proof (intro allI impI)
  fix q w
  assume q: "allowed q" and w: "map_set m (key r) v (key q) = Some w"
  show "belongs w (owner q)"
  proof (cases "key q = key r")
    case True
    with w key_owner [OF q assms(2)] assms(3) show ?thesis by simp
  next
    case False
    with w owned_lookup [OF assms(1) q] show ?thesis by simp
  qed
qed

lemma owned_del: "owned m \<Longrightarrow> owned (map_del m k)"
  by (auto simp: owned_def)

end

definition colon_free :: "(string \<Rightarrow> string) \<Rightarrow> bool" where
  "colon_free sha \<longleftrightarrow> (\<forall>t. CHR '':'' \<notin> set (sha t))"

lemma scopeDigest_colon: "colon_free sha \<Longrightarrow> CHR '':'' \<notin> set (scopeDigest sha ss)"
  by (auto simp: colon_free_def scopeDigest_def sha256Hex_def dest: in_set_takeD)

lemma mcp_audience_form: "mcp_audience a \<Longrightarrow> a = ''mcp'' @ CHR '':'' # drop 4 a \<and> CHR '':'' \<notin> set (drop 4 a)"
proof -
  assume h: "mcp_audience a"
  then have "take 4 a = ''mcp:''" by (simp add: mcp_audience_def starts_with_def numeral_eq_Suc)
  then have "a = ''mcp:'' @ drop 4 a" by (metis append_take_drop_id)
  with h show ?thesis unfolding mcp_audience_def by simp
qed

text \<open>Up to the digest of the scopes, a key determines the subject and the audience.\<close>

lemma cacheKey_inject:
  assumes "colon_free sha" and "mcp_audience a" and "mcp_audience a'"
    and eq: "cacheKey sha tx u a ss = cacheKey sha tx u' a' ss'"
  shows "u = u' \<and> a = a' \<and> scopeDigest sha ss = scopeDigest sha ss'"
proof -
  let ?d = "scopeDigest sha ss" let ?d' = "scopeDigest sha ss'"
  have "(u @ CHR '':'' # a) @ CHR '':'' # ?d = (u' @ CHR '':'' # a') @ CHR '':'' # ?d'"
    using eq by (simp add: cacheKey_def)
  then have d: "u @ CHR '':'' # a = u' @ CHR '':'' # a' \<and> ?d = ?d'"
    using scopeDigest_colon [OF assms(1)] by (intro delim_unique_last)
  have fa: "a = ''mcp'' @ CHR '':'' # drop 4 a" "CHR '':'' \<notin> set (drop 4 a)"
    "a' = ''mcp'' @ CHR '':'' # drop 4 a'" "CHR '':'' \<notin> set (drop 4 a')"
    using mcp_audience_form assms(2,3) by blast+
  have "(u @ '':mcp'') @ CHR '':'' # drop 4 a = (u' @ '':mcp'') @ CHR '':'' # drop 4 a'"
    using d fa(1,3) by (metis append.assoc append_Cons append_Nil)
  then have "u @ '':mcp'' = u' @ '':mcp'' \<and> drop 4 a = drop 4 a'"
    using fa(2,4) by (intro delim_unique_last)
  with d fa show ?thesis by simp
qed

type_synonym token_owner = "string \<times> string \<times> string"

definition request_owner :: "(string \<Rightarrow> string) \<Rightarrow> mint_request \<Rightarrow> token_owner" where
  "request_owner sha r = (pn_subject (mr_principal r), mr_audience r, scopeDigest sha (mr_scopes r))"

definition names_subject :: "(string \<Rightarrow> claims option) \<Rightarrow> string \<Rightarrow> string \<Rightarrow> bool" where
  "names_subject decode token subject \<longleftrightarrow> (case decode token of
     None \<Rightarrow> False | Some cl \<Rightarrow> own_prop cl ''sub'' = JStr subject)"

definition entry_belongs :: "(string \<Rightarrow> claims option) \<Rightarrow> cache_text \<times> int \<Rightarrow> token_owner \<Rightarrow> bool" where
  "entry_belongs decode v o' = (case fst v of
     Garbled \<Rightarrow> True | Cached e \<Rightarrow> ce_a e = fst o' \<and> names_subject decode (ce_t e) (fst o'))"

definition mint_allowed :: "(string \<Rightarrow> string) \<Rightarrow> mint_request \<Rightarrow> bool" where
  "mint_allowed sha r \<longleftrightarrow> colon_free sha \<and> mcp_audience (mr_audience r)"

interpretation tex: owned_keys "request_key sha tx" "mint_allowed sha" "request_owner sha" "entry_belongs decode"
  for sha tx decode
  by unfold_locales
    (auto simp: mint_allowed_def request_key_def request_owner_def dest: cacheKey_inject)

section \<open>Invariants\<close>

definition flights_ok :: "(string \<Rightarrow> string) \<Rightarrow> exchange_config \<Rightarrow> (string \<times> mint_request list) list \<Rightarrow> bool" where
  "flights_ok sha tx fs \<longleftrightarrow> distinct (map fst fs) \<and>
     (\<forall>k ws. (k, ws) \<in> set fs \<longrightarrow> (\<forall>w \<in> set ws. mcp_audience (mr_audience w) \<and> request_key sha tx w = k))"

definition exchange_inv ::
    "(string \<Rightarrow> string) \<Rightarrow> (string \<Rightarrow> claims option) \<Rightarrow> exchange_config \<Rightarrow> exchange_state \<Rightarrow> bool" where
  "exchange_inv sha decode tx s \<longleftrightarrow>
     tex.owned sha tx decode (xs_cache s) \<and> (\<forall>i. flights_ok sha tx (xs_inFlight s i))"

text \<open>What a reply carries, and what a stored lifetime is bounded by.\<close>

definition reply_ok :: "(string \<Rightarrow> claims option) \<Rightarrow> mint_request \<Rightarrow> mirrored_token \<Rightarrow> bool" where
  "reply_ok decode r tok \<longleftrightarrow> mt_subject tok = pn_subject (mr_principal r) \<and>
     mt_audience tok = mr_audience r \<and>
     names_subject decode (mt_accessToken tok) (pn_subject (mr_principal r))"

definition lifetime_ok :: "exchange_config \<Rightarrow> int \<Rightarrow> token_cache \<Rightarrow> bool" where
  "lifetime_ok tx now cache \<longleftrightarrow> (\<forall>k e until. cache k = Some (Cached e, until) \<longrightarrow>
     until \<le> now + 1000 * tx_maxTtlSeconds tx \<and>
     of_int until < 1000 * (ce_e e - of_int (tx_earlyRefreshSeconds tx)) + 1000)"

lemma exchanged_ok:
  "exchanged fmt decode now r answer = Inr tok \<Longrightarrow> reply_ok decode r tok \<and> \<not> mt_cached tok"
  by (auto simp: exchanged_def reply_ok_def names_subject_def Let_def
      split: sum.splits option.splits if_splits)

lemma map_of_alist_set_flights:
  assumes "flights_ok sha tx fs" and "mcp_audience (mr_audience r)" and "request_key sha tx r = k"
  shows "flights_ok sha tx (alist_set k (case map_of fs k of None \<Rightarrow> [r] | Some ws \<Rightarrow> ws @ [r]) fs)"
proof -
  let ?ws = "case map_of fs k of None \<Rightarrow> [r] | Some ws \<Rightarrow> ws @ [r]"
  have d: "distinct (map fst (alist_set k ?ws fs))"
    using assms(1) by (simp add: flights_ok_def distinct_alist_set)
  have "mcp_audience (mr_audience w) \<and> request_key sha tx w = k'"
    if m: "(k', ws) \<in> set (alist_set k ?ws fs)" and w: "w \<in> set ws" for k' ws w
  proof -
    from d m have "map_of (alist_set k ?ws fs) k' = Some ws" by (rule map_of_is_SomeI)
    then have "map_of fs k' = Some ws \<or> k' = k \<and> ws = ?ws" by (simp split: if_splits)
    moreover have "mcp_audience (mr_audience u) \<and> request_key sha tx u = k2"
      if "map_of fs k2 = Some us" "u \<in> set us" for k2 us u
      using assms(1) map_of_SomeD [OF that(1)] that(2) unfolding flights_ok_def by blast
    ultimately show ?thesis
      using assms(2,3) w by (cases "map_of fs k") auto
  qed
  with d show ?thesis by (simp add: flights_ok_def)
qed

lemma flights_ok_del: "flights_ok sha tx fs \<Longrightarrow> flights_ok sha tx (alist_del k fs)"
  by (auto simp: flights_ok_def distinct_alist_del) (auto simp: alist_del_def)

lemma readCache_owned:
  "tex.owned sha tx decode cache \<Longrightarrow> readCache tx now up del cache k a = (hit, cache') \<Longrightarrow>
     tex.owned sha tx decode cache'"
  by (auto simp: readCache_def tex.owned_del split: if_splits option.splits cache_text.splits)

lemma readCache_hit:
  assumes "tex.owned sha tx decode cache" and "mint_allowed sha r"
    and "readCache tx now up del cache (request_key sha tx r) (mr_audience r) = (Some tok, cache')"
  shows "reply_ok decode r tok"
proof -
  obtain e until where "cache (request_key sha tx r) = Some (Cached e, until)"
    "tok = \<lparr>mt_accessToken = ce_t e, mt_audience = mr_audience r, mt_scopes = ce_s e,
       mt_expiresAt = ce_e e, mt_subject = ce_a e, mt_cached = True\<rparr>"
    using assms(3) by (auto simp: readCache_def cache_get_def split: if_splits option.splits cache_text.splits)
  with tex.owned_lookup [OF assms(1,2)] show ?thesis
    by (auto simp: reply_ok_def entry_belongs_def request_owner_def)
qed

lemma writeCache_owned:
  assumes "tex.owned sha tx decode cache" and "mint_allowed sha r" and "reply_ok decode r tok"
  shows "tex.owned sha tx decode (writeCache tx now ok cache (request_key sha tx r) tok)"
  using assms(3)
  by (auto simp: writeCache_def Let_def assms(1) entry_belongs_def request_owner_def reply_ok_def
      intro!: tex.owned_set assms(1,2))

lemma mint_begin_inv:
  assumes "exchange_inv sha decode tx s" and "colon_free sha" and "mcp_audience (mr_audience r)"
    and "mint_begin sha tx up del i r s = (out, s')"
  shows "exchange_inv sha decode tx s' \<and> (\<forall>q tok. (q, Inr tok) \<in> set out \<longrightarrow> reply_ok decode q tok)"
proof -
  obtain hit cache where rc:
    "readCache tx (xs_now s) up del (xs_cache s) (request_key sha tx r) (mr_audience r) = (hit, cache)"
    by (metis surj_pair)
  have al: "mint_allowed sha r" using assms(2,3) by (simp add: mint_allowed_def)
  have inv: "tex.owned sha tx decode (xs_cache s)" "flights_ok sha tx (xs_inFlight s j)" for j
    using assms(1) by (auto simp: exchange_inv_def)
  have cache: "tex.owned sha tx decode cache" using readCache_owned [OF inv(1) rc] .
  show ?thesis
  proof (cases hit)
    case None
    with assms(4) rc cache inv(2) map_of_alist_set_flights [OF inv(2) assms(3) refl, of i]
    show ?thesis by (auto simp: mint_begin_def exchange_inv_def Let_def)
  next
    case (Some tok)
    with assms(4) rc cache inv(2) readCache_hit [OF inv(1) al rc [unfolded Some]]
    show ?thesis by (auto simp: mint_begin_def exchange_inv_def Let_def)
  qed
qed

lemma mint_end_inv:
  assumes "exchange_inv sha decode tx s" and "colon_free sha"
    and "mint_end fmt decode tx ok i k answer s = (out, s')"
  shows "exchange_inv sha decode tx s' \<and> (\<forall>q tok. (q, Inr tok) \<in> set out \<longrightarrow> reply_ok decode q tok)"
proof -
  have inv: "tex.owned sha tx decode (xs_cache s)" "flights_ok sha tx (xs_inFlight s j)" for j
    using assms(1) by (auto simp: exchange_inv_def)
  show ?thesis
  proof (cases "map_of (xs_inFlight s i) k")
    case None
    with assms(1,3) show ?thesis by (auto simp: mint_end_def)
  next
    case (Some ws)
    show ?thesis
    proof (cases ws)
      case Nil
      with assms(1,3) Some show ?thesis by (auto simp: mint_end_def)
    next
      case (Cons r us)
      let ?out = "exchanged fmt decode (xs_now s) r answer"
      have wk: "mcp_audience (mr_audience w) \<and> request_key sha tx w = k" if "w \<in> set ws" for w
        using inv(2) [of i] map_of_SomeD [OF Some] that unfolding flights_ok_def by blast
      have al: "mint_allowed sha w" if "w \<in> set ws" for w
        using wk [OF that] assms(2) by (simp add: mint_allowed_def)
      have same: "request_owner sha w = request_owner sha r" if "w \<in> set ws" for w
        using tex.key_owner [where tx = tx and r = w and q = r, OF al [OF that] al [of r]]
          wk [OF that] wk [of r] Cons by simp
      have k: "request_key sha tx r = k" using wk [of r] Cons by simp
      have served: "reply_ok decode w tok" if "?out = Inr tok" "w \<in> set ws" for w tok
        using exchanged_ok [OF that(1)] same [OF that(2)] by (simp add: reply_ok_def request_owner_def)
      have cache: "tex.owned sha tx decode (writeCache tx (xs_now s) ok (xs_cache s) k tok)"
        if "?out = Inr tok" for tok
        using writeCache_owned [OF inv(1) al [of r]] exchanged_ok [OF that] k Cons by auto
      show ?thesis
        using assms(3) Some Cons inv cache served
        by (auto simp: mint_end_def Let_def exchange_inv_def flights_ok_del split: sum.splits)
    qed
  qed
qed

lemma exchange_step_inv:
  assumes "exchange_step sha fmt decode tx s out s'" and "exchange_inv sha decode tx s" and "colon_free sha"
  shows "exchange_inv sha decode tx s' \<and> (\<forall>q tok. (q, Inr tok) \<in> set out \<longrightarrow> reply_ok decode q tok)"
  using assms
proof cases
  case (Begin r up del i)
  then show ?thesis using mint_begin_inv [OF assms(2,3)] by blast
next
  case (Answer ok i k answer)
  then show ?thesis using mint_end_inv [OF assms(2,3)] by blast
qed (use assms(2) in \<open>auto simp: exchange_inv_def exchange_invalidate_def tex.owned_del\<close>)

lemma exchange_reachable_inv:
  "exchange_reachable sha fmt decode tx s \<Longrightarrow> colon_free sha \<Longrightarrow> exchange_inv sha decode tx s"
proof (induction rule: exchange_reachable.induct)
  case (init now)
  then show ?case by (simp add: exchange_inv_def exchange_init_def tex.owned_empty flights_ok_def)
next
  case (step s out s')
  then show ?case using exchange_step_inv by blast
qed

section \<open>Lifetimes\<close>

lemma lifetime_ok_mono:
  assumes "lifetime_ok tx now cache" and "now \<le> later"
  shows "lifetime_ok tx later cache"
  unfolding lifetime_ok_def
proof (intro allI impI)
  fix k e until
  assume "cache k = Some (Cached e, until)"
  with assms(1) have "until \<le> now + 1000 * tx_maxTtlSeconds tx \<and>
    of_int until < 1000 * (ce_e e - of_int (tx_earlyRefreshSeconds tx)) + 1000"
    by (simp add: lifetime_ok_def)
  with assms(2) show "until \<le> later + 1000 * tx_maxTtlSeconds tx \<and>
    of_int until < 1000 * (ce_e e - of_int (tx_earlyRefreshSeconds tx)) + 1000" by simp
qed

lemma lifetime_ok_del: "lifetime_ok tx now cache \<Longrightarrow> lifetime_ok tx now (map_del cache k)"
  by (auto simp: lifetime_ok_def)

lemma readCache_lifetime:
  "lifetime_ok tx now cache \<Longrightarrow> readCache tx now' up del cache k a = (hit, cache') \<Longrightarrow> lifetime_ok tx now cache'"
  by (auto simp: readCache_def lifetime_ok_del split: if_splits option.splits cache_text.splits)

lemma readCache_fresh:
  "readCache tx now up del cache k a = (Some tok, cache') \<Longrightarrow>
     of_int (now div 1000) + of_int (tx_earlyRefreshSeconds tx) < mt_expiresAt tok"
  by (auto simp: readCache_def split: if_splits option.splits cache_text.splits)

lemma entry_lifetime:
  assumes "ttl = min (of_int (tx_maxTtlSeconds tx)) (x - of_int (now div 1000) - of_int (tx_earlyRefreshSeconds tx))"
  shows "now + 1000 * \<lfloor>ttl\<rfloor> \<le> now + 1000 * tx_maxTtlSeconds tx \<and>
    of_int (now + 1000 * \<lfloor>ttl\<rfloor>) < 1000 * (x - of_int (tx_earlyRefreshSeconds tx)) + (1000 :: rat)"
proof -
  have t: "ttl \<le> of_int (tx_maxTtlSeconds tx)" "ttl \<le> x - of_int (now div 1000) - of_int (tx_earlyRefreshSeconds tx)"
    by (auto simp: assms)
  have f: "of_int \<lfloor>ttl\<rfloor> \<le> ttl" by simp
  have "\<lfloor>ttl\<rfloor> \<le> tx_maxTtlSeconds tx" using t(1) by (metis floor_mono floor_of_int)
  moreover have "(of_int now :: rat) = 1000 * of_int (now div 1000) + of_int (now mod 1000)"
    by (metis mult_div_mod_eq of_int_add of_int_mult of_int_numeral)
  moreover have "(of_int (now mod 1000) :: rat) < 1000" by simp
  moreover have "1000 * of_int \<lfloor>ttl\<rfloor> \<le> 1000 * (x - of_int (now div 1000) - of_int (tx_earlyRefreshSeconds tx))"
    using order_trans [OF f t(2)] by simp
  ultimately show ?thesis by (auto simp: algebra_simps)
qed

lemma writeCache_lifetime:
  assumes "lifetime_ok tx now cache"
  shows "lifetime_ok tx now (writeCache tx now ok cache k tok)"
  using assms entry_lifetime [where tx = tx and x = "mt_expiresAt tok" and now = now, OF refl]
  by (auto simp: writeCache_def Let_def lifetime_ok_def)

lemma exchange_step_lifetime:
  assumes "exchange_step sha fmt decode tx s out s'" and "lifetime_ok tx (xs_now s) (xs_cache s)"
  shows "lifetime_ok tx (xs_now s') (xs_cache s') \<and>
    (\<forall>q tok. (q, Inr tok) \<in> set out \<longrightarrow> mt_cached tok \<longrightarrow>
       of_int (xs_now s div 1000) + of_int (tx_earlyRefreshSeconds tx) < mt_expiresAt tok)"
  using assms(1)
proof cases
  case (Begin r up del i)
  obtain hit cache where rc:
    "readCache tx (xs_now s) up del (xs_cache s) (request_key sha tx r) (mr_audience r) = (hit, cache)"
    by (metis surj_pair)
  show ?thesis
    using Begin(2) rc readCache_lifetime [OF assms(2) rc] readCache_fresh [of tx "xs_now s" up del "xs_cache s"]
    by (auto simp: mint_begin_def Let_def split: option.splits)
next
  case (Answer ok i k answer)
  then show ?thesis
    using assms(2)
    by (auto simp: mint_end_def Let_def writeCache_lifetime dest!: exchanged_ok
        split: option.splits list.splits sum.splits)
next
  case (Tick t)
  then show ?thesis using assms(2) by (auto intro: lifetime_ok_mono)
qed (use assms(2) in \<open>auto simp: exchange_invalidate_def lifetime_ok_del\<close>)

lemma exchange_reachable_lifetime:
  "exchange_reachable sha fmt decode tx s \<Longrightarrow> lifetime_ok tx (xs_now s) (xs_cache s)"
proof (induction rule: exchange_reachable.induct)
  case (init now)
  then show ?case by (simp add: lifetime_ok_def exchange_init_def)
next
  case (step s out s')
  then show ?case using exchange_step_lifetime by blast
qed

section \<open>Properties\<close>

definition demo_principal :: principal where
  "demo_principal = \<lparr>pn_subject = ''alice'', pn_tenantId = ''acme'', pn_email = None, pn_name = None,
     pn_role = Analyst, pn_scopes = [''salesforce:read''], pn_tokenId = ''t1'', pn_clientId = ''web'',
     pn_expiresAt = JFin 900\<rparr>"

definition demo_mint :: mint_request where
  "demo_mint = \<lparr>mr_principal = demo_principal, mr_subjectToken = ''tok'',
     mr_audience = ''mcp:salesforce'', mr_scopes = [''salesforce:read'']\<rparr>"

definition demo_decode :: "string \<Rightarrow> claims option" where
  "demo_decode t = Some [(''sub'', JStr t), (''exp'', jint 300)]"

definition demo_tx :: exchange_config where
  "demo_tx = new_exchange_config (\<lambda>s. s) None None None None"

definition demo_begun :: exchange_state where
  "demo_begun = snd (mint_begin (\<lambda>s. []) demo_tx True True 0 demo_mint (exchange_init 0))"

definition demo_ended :: "mint_reply list \<times> exchange_state" where
  "demo_ended = mint_end (\<lambda>q. []) demo_decode demo_tx True 0 ''tex:alice:mcp:salesforce:''
     (Inr (JObj [(''access_token'', JStr ''alice'')])) demo_begun"

definition demo_token :: mirrored_token where
  "demo_token = \<lparr>mt_accessToken = ''alice'', mt_audience = ''mcp:salesforce'',
     mt_scopes = [''salesforce:read''], mt_expiresAt = 300, mt_subject = ''alice'', mt_cached = False\<rparr>"

lemma demo_begin_reachable:
  "exchange_reachable (\<lambda>s. []) (\<lambda>q. []) demo_decode demo_tx demo_begun"
proof -
  have "mcp_audience (mr_audience demo_mint)" by code_simp
  then have "exchange_step (\<lambda>s. []) (\<lambda>q. []) demo_decode demo_tx (exchange_init 0)
    (fst (mint_begin (\<lambda>s. []) demo_tx True True 0 demo_mint (exchange_init 0))) demo_begun"
    unfolding demo_begun_def by (intro exchange_step.Begin) simp_all
  then show ?thesis by (rule exchange_reachable.step [OF exchange_reachable.init])
qed

lemma demo_end_step:
  "exchange_step (\<lambda>s. []) (\<lambda>q. []) demo_decode demo_tx demo_begun (fst demo_ended) (snd demo_ended)"
  unfolding demo_ended_def by (rule exchange_step.Answer) (simp add: prod_eq_iff)

lemma demo_ended_reply: "fst demo_ended = [(demo_mint, Inr demo_token)]"
  by code_simp

lemma demo_ended_cache:
  "xs_cache (snd demo_ended) ''tex:alice:mcp:salesforce:'' =
     Some (Cached \<lparr>ce_t = ''alice'', ce_a = ''alice'', ce_s = [''salesforce:read''], ce_e = 300\<rparr>, 290000)"
  by code_simp

text \<open>C5: no mirrored token is another user's. In every reachable state of the gateways that share the
  cache, whatever the provider answers and however lookups, exchanges, evictions and invalidations
  interleave, a token handed to a request, fresh, cached or from another request's exchange, is for
  the requested audience, is recorded for the caller, and itself names the caller as its subject.\<close>

theorem mirrored_token_own_subject:
  assumes "colon_free sha" and "exchange_reachable sha fmt decode tx s"
    and "exchange_step sha fmt decode tx s out s'" and "(r, Inr tok) \<in> set out"
  shows "mt_subject tok = pn_subject (mr_principal r) \<and> mt_audience tok = mr_audience r \<and>
    (\<exists>cl. decode (mt_accessToken tok) = Some cl \<and> own_prop cl ''sub'' = JStr (pn_subject (mr_principal r)))"
proof -
  have "reply_ok decode r tok"
    using exchange_step_inv [OF assms(3) exchange_reachable_inv [OF assms(2,1)] assms(1)] assms(4) by blast
  then show ?thesis by (auto simp: reply_ok_def names_subject_def split: option.splits)
qed

theorem mirrored_token_own_subject_witness:
  "mt_subject demo_token = pn_subject (mr_principal demo_mint) \<and> mt_audience demo_token = mr_audience demo_mint \<and>
    (\<exists>cl. demo_decode (mt_accessToken demo_token) = Some cl \<and>
       own_prop cl ''sub'' = JStr (pn_subject (mr_principal demo_mint)))"
  by (rule mirrored_token_own_subject [of "\<lambda>s. []", OF _ demo_begin_reachable demo_end_step])
    (simp_all add: colon_free_def demo_ended_reply)

text \<open>C36: how long a mirrored token is reused. In every reachable state a cached entry expires from the
  cache within the configured maximum of now, and before the second in which its token comes within
  the early-refresh margin of its expiry has passed.\<close>

theorem cached_token_lifetime:
  assumes "exchange_reachable sha fmt decode tx s" and "xs_cache s k = Some (Cached e, until)"
  shows "until \<le> xs_now s + 1000 * tx_maxTtlSeconds tx \<and>
    of_int until < 1000 * (ce_e e - of_int (tx_earlyRefreshSeconds tx)) + 1000"
  using exchange_reachable_lifetime [OF assms(1)] assms(2) by (simp add: lifetime_ok_def)

theorem cached_token_lifetime_witness:
  "(290000 :: int) \<le> xs_now (snd demo_ended) + 1000 * tx_maxTtlSeconds demo_tx \<and>
    of_int 290000 < 1000 * (300 - of_int (tx_earlyRefreshSeconds demo_tx)) + (1000 :: rat)"
  using cached_token_lifetime [OF exchange_reachable.step [OF demo_begin_reachable demo_end_step] demo_ended_cache]
  by simp

end
