(* ===== verification/Jwks_Cache.thy ===== *)
theory Jwks_Cache
  imports Oauth_Client
begin

text \<open>
  The signing-key cache (\<open>packages/auth/src/jwks-cache.ts\<close>): lookups, refreshes with their cooldown
  and shared fetch, and what a fetch makes of the provider's answer. Calls run up to the point
  where they return or wait for the fetch in flight; \<open>importJWK\<close> is the parameter \<open>import\<close>
  (\<open>None\<close>: it throws). Times are milliseconds.
\<close>

section \<open>State\<close>

datatype 'k imported = Asymmetric 'k | Symmetric

record 'k jwks_cache =
  jk_jwksUri :: string
  jk_ttlMs :: int
  jk_cooldownMs :: int
  jk_keys :: "(string \<times> 'k) list"
  jk_fetchedAt :: int
  jk_lastAttemptAt :: int
  jk_inFlight :: bool
  jk_waiting :: "string list"
  jk_fetches :: nat
  jk_hits :: nat
  jk_misses :: nat

definition new_jwks_cache :: "string \<Rightarrow> int option \<Rightarrow> int option \<Rightarrow> 'k jwks_cache" where
  "new_jwks_cache uri ttl cooldown = \<lparr>jk_jwksUri = uri, jk_ttlMs = or_default ttl 300000,
     jk_cooldownMs = or_default cooldown 10000, jk_keys = [], jk_fetchedAt = 0, jk_lastAttemptAt = 0,
     jk_inFlight = False, jk_waiting = [], jk_fetches = 0, jk_hits = 0, jk_misses = 0\<rparr>"

definition jwks_clear :: "'k jwks_cache \<Rightarrow> 'k jwks_cache" where
  "jwks_clear s = s\<lparr>jk_keys := [], jk_fetchedAt := 0, jk_lastAttemptAt := 0\<rparr>"

section \<open>Fetching\<close>

text \<open>\<open>None\<close>: the loop over the key set throws. The algorithm defaults to RS256.\<close>

fun import_keys ::
    "(jval \<Rightarrow> jval \<Rightarrow> 'k imported option) \<Rightarrow> jval list \<Rightarrow> (string \<times> 'k) list \<Rightarrow> (string \<times> 'k) list option" where
  "import_keys import [] next' = Some next'"
| "import_keys import (jwk # jwks) next' =
     (if jwk \<in> {JNull, JUndef} then None
      else case as_string (js_get jwk ''kid'') of
          None \<Rightarrow> import_keys import jwks next'
        | Some kid \<Rightarrow>
            (let alg = js_get jwk ''alg'' in
             case import jwk (if alg \<in> {JNull, JUndef} then JStr ''RS256'' else alg) of
               None \<Rightarrow> None
             | Some Symmetric \<Rightarrow> import_keys import jwks next'
             | Some (Asymmetric k) \<Rightarrow> import_keys import jwks (alist_set kid k next')))"

text \<open>The key set of an answer, or the error \<open>doFetch\<close> would throw for it.\<close>

definition fetched_keys ::
    "(jval \<Rightarrow> jval \<Rightarrow> 'k imported option) \<Rightarrow> string \<Rightarrow> http_response option \<Rightarrow>
       (gateway_error, (string \<times> 'k) list) result" where
  "fetched_keys import uri answer = (case answer of
     None \<Rightarrow> Inl (UpstreamUnavailableError ''jwks'')
   | Some resp \<Rightarrow>
       if \<not> response_ok resp
       then Inl (UpstreamUnavailableError (concat [''jwks: '', int_str (hr_status resp), '' from '', uri]))
       else (case hr_body resp of
           None \<Rightarrow> Inl (UpstreamUnavailableError ''jwks'')
         | Some body \<Rightarrow>
             if body \<in> {JNull, JUndef} then Inl (UpstreamUnavailableError ''jwks'')
             else (case js_get body ''keys'' of
                 JArr jwks \<Rightarrow> (case import_keys import jwks [] of
                     None \<Rightarrow> Inl (UpstreamUnavailableError ''jwks'') | Some ks \<Rightarrow> Inr ks)
               | _ \<Rightarrow> Inl (UpstreamUnavailableError ''jwks: response has no key set''))))"

definition doFetch ::
    "(jval \<Rightarrow> jval \<Rightarrow> 'k imported option) \<Rightarrow> int \<Rightarrow> http_response option \<Rightarrow> 'k jwks_cache \<Rightarrow>
       gateway_error option \<times> 'k jwks_cache" where
  "doFetch import now answer s =
     (case fetched_keys import (jk_jwksUri s) answer of
        Inr ks \<Rightarrow> (None, s\<lparr>jk_keys := ks, jk_fetchedAt := now, jk_fetches := Suc (jk_fetches s)\<rparr>)
      | Inl e \<Rightarrow> (if jk_keys s = [] then Some e else None, s))"

section \<open>Lookups\<close>

text \<open>Whether the caller has to wait for a fetch, and the cache with a new fetch begun if so.\<close>

definition jwks_refresh :: "bool \<Rightarrow> int \<Rightarrow> 'k jwks_cache \<Rightarrow> bool \<times> 'k jwks_cache" where
  "jwks_refresh force now s =
     (if \<not> force \<and> now - jk_lastAttemptAt s < jk_cooldownMs s \<and> jk_keys s \<noteq> [] then (False, s)
      else if jk_inFlight s then (True, s)
      else (True, s\<lparr>jk_lastAttemptAt := now, jk_inFlight := True\<rparr>))"

definition jwks_lookup :: "'k jwks_cache \<Rightarrow> string \<Rightarrow> (gateway_error, 'k) result" where
  "jwks_lookup s kid = (case map_of (jk_keys s) kid of
     None \<Rightarrow> Inl (UpstreamUnavailableError (''jwks: no key matching kid '' @ quoted kid))
   | Some k \<Rightarrow> Inr k)"

type_synonym 'k key_reply = "string \<times> (gateway_error, 'k) result"

definition getKey :: "int \<Rightarrow> string option \<Rightarrow> 'k jwks_cache \<Rightarrow> 'k key_reply list \<times> 'k jwks_cache" where
  "getKey now kid s = (case kid of
     None \<Rightarrow> ([([], Inl (UpstreamUnavailableError ''jwks: token header carries no kid''))], s)
   | Some kid \<Rightarrow>
       if \<not> jk_ttlMs s \<le> now - jk_fetchedAt s \<and> map_of (jk_keys s) kid \<noteq> None
       then ([(kid, jwks_lookup s kid)], s\<lparr>jk_hits := Suc (jk_hits s)\<rparr>)
       else (let (wait, s') = jwks_refresh False now (s\<lparr>jk_misses := Suc (jk_misses s)\<rparr>)
             in if wait then ([], s'\<lparr>jk_waiting := jk_waiting s' @ [kid]\<rparr>)
                else ([(kid, jwks_lookup s' kid)], s')))"

text \<open>The end of the fetch in flight: it is settled, and every waiting lookup resumes.\<close>

definition fetch_end ::
    "(jval \<Rightarrow> jval \<Rightarrow> 'k imported option) \<Rightarrow> int \<Rightarrow> http_response option \<Rightarrow> 'k jwks_cache \<Rightarrow>
       'k key_reply list \<times> 'k jwks_cache" where
  "fetch_end import now answer s =
     (if \<not> jk_inFlight s then ([], s)
      else (let (err, s') = doFetch import now answer s
            in (map (\<lambda>kid. (kid, case err of Some e \<Rightarrow> Inl e | None \<Rightarrow> jwks_lookup s' kid)) (jk_waiting s),
                s'\<lparr>jk_inFlight := False, jk_waiting := []\<rparr>)))"

section \<open>Runs\<close>

datatype jwks_event = Get_key "string option" | Refresh bool | Fetch_settled "http_response option"

definition jwks_step ::
    "(jval \<Rightarrow> jval \<Rightarrow> 'k imported option) \<Rightarrow> int \<times> jwks_event \<Rightarrow> 'k jwks_cache \<Rightarrow>
       'k key_reply list \<times> 'k jwks_cache" where
  "jwks_step import te s = (case snd te of
     Get_key kid \<Rightarrow> getKey (fst te) kid s
   | Refresh force \<Rightarrow> ([], snd (jwks_refresh force (fst te) s))
   | Fetch_settled answer \<Rightarrow> fetch_end import (fst te) answer s)"

fun jwks_run ::
    "(jval \<Rightarrow> jval \<Rightarrow> 'k imported option) \<Rightarrow> (int \<times> jwks_event) list \<Rightarrow> 'k jwks_cache \<Rightarrow>
       'k key_reply list \<times> 'k jwks_cache" where
  "jwks_run import [] s = ([], s)"
| "jwks_run import (te # tes) s =
     (let (out, s1) = jwks_step import te s; (outs, s2) = jwks_run import tes s1 in (out @ outs, s2))"

text \<open>The times at which a run begins a fetch.\<close>

fun fetch_starts ::
    "(jval \<Rightarrow> jval \<Rightarrow> 'k imported option) \<Rightarrow> (int \<times> jwks_event) list \<Rightarrow> 'k jwks_cache \<Rightarrow> int list" where
  "fetch_starts import [] s = []"
| "fetch_starts import (te # tes) s =
     (let s1 = snd (jwks_step import te s)
      in (if \<not> jk_inFlight s \<and> jk_inFlight s1 then [fst te] else []) @ fetch_starts import tes s1)"

section \<open>Facts\<close>

lemma jwks_refresh_frame:
  "jwks_refresh force now s = (w, s') \<Longrightarrow>
     jk_keys s' = jk_keys s \<and> jk_cooldownMs s' = jk_cooldownMs s \<and> jk_jwksUri s' = jk_jwksUri s \<and>
     (\<not> jk_inFlight s \<and> jk_inFlight s' \<longrightarrow> jk_lastAttemptAt s' = now \<and>
        (jk_keys s \<noteq> [] \<longrightarrow> \<not> force \<longrightarrow> jk_lastAttemptAt s + jk_cooldownMs s \<le> now)) \<and>
     (jk_inFlight s \<or> \<not> jk_inFlight s' \<longrightarrow> jk_lastAttemptAt s' = jk_lastAttemptAt s)"
  by (auto simp: jwks_refresh_def split: if_splits)

lemma getKey_frame:
  "getKey now kid s = (out, s') \<Longrightarrow>
     jk_keys s' = jk_keys s \<and> jk_cooldownMs s' = jk_cooldownMs s \<and> jk_jwksUri s' = jk_jwksUri s \<and>
     (\<not> jk_inFlight s \<and> jk_inFlight s' \<longrightarrow> jk_lastAttemptAt s' = now \<and>
        (jk_keys s \<noteq> [] \<longrightarrow> jk_lastAttemptAt s + jk_cooldownMs s \<le> now)) \<and>
     (jk_inFlight s \<or> \<not> jk_inFlight s' \<longrightarrow> jk_lastAttemptAt s' = jk_lastAttemptAt s)"
  by (auto simp: getKey_def Let_def dest!: jwks_refresh_frame split: option.splits if_splits prod.splits)

text \<open>An event that leaves a non-empty key set non-empty and respects the cooldown.\<close>

definition benign :: "(jval \<Rightarrow> jval \<Rightarrow> 'k imported option) \<Rightarrow> string \<Rightarrow> jwks_event \<Rightarrow> bool" where
  "benign import uri e = (case e of
     Get_key _ \<Rightarrow> True | Refresh force \<Rightarrow> \<not> force
   | Fetch_settled answer \<Rightarrow> fetched_keys import uri answer \<noteq> Inr [])"

lemma jwks_step_frame:
  assumes "jwks_step import te s = (out, s')" and "benign import (jk_jwksUri s) (snd te)" and "jk_keys s \<noteq> []"
  shows "jk_keys s' \<noteq> [] \<and> jk_cooldownMs s' = jk_cooldownMs s \<and> jk_jwksUri s' = jk_jwksUri s \<and>
    (if \<not> jk_inFlight s \<and> jk_inFlight s'
     then jk_lastAttemptAt s' = fst te \<and> jk_lastAttemptAt s + jk_cooldownMs s \<le> fst te
     else jk_lastAttemptAt s' = jk_lastAttemptAt s)"
proof (cases "snd te")
  case (Get_key kid)
  then show ?thesis
    using assms(1,3) getKey_frame [of "fst te" kid s out s'] by (auto simp: jwks_step_def)
next
  case (Refresh force)
  then show ?thesis
    using assms by (auto simp: jwks_step_def jwks_refresh_def benign_def split: if_splits)
next
  case (Fetch_settled answer)
  then show ?thesis
    using assms by (auto simp: jwks_step_def fetch_end_def doFetch_def benign_def split: if_splits sum.splits)
qed

abbreviation spaced :: "int \<Rightarrow> int list \<Rightarrow> bool" where
  "spaced c ts \<equiv> sorted_wrt (\<lambda>a b. a + c \<le> b) ts"

lemma fetch_starts_spaced:
  assumes "jk_keys s \<noteq> []" and "list_all (\<lambda>te. benign import (jk_jwksUri s) (snd te)) tes"
    and "0 \<le> jk_cooldownMs s"
  shows "spaced (jk_cooldownMs s) (fetch_starts import tes s) \<and>
    list_all (\<lambda>t. jk_lastAttemptAt s + jk_cooldownMs s \<le> t) (fetch_starts import tes s)"
  using assms
proof (induction tes arbitrary: s)
  case (Cons te tes)
  obtain out s1 where st: "jwks_step import te s = (out, s1)" by (metis surj_pair)
  have fr: "jk_keys s1 \<noteq> [] \<and> jk_cooldownMs s1 = jk_cooldownMs s \<and> jk_jwksUri s1 = jk_jwksUri s \<and>
    (if \<not> jk_inFlight s \<and> jk_inFlight s1
     then jk_lastAttemptAt s1 = fst te \<and> jk_lastAttemptAt s + jk_cooldownMs s \<le> fst te
     else jk_lastAttemptAt s1 = jk_lastAttemptAt s)"
    using jwks_step_frame [OF st] Cons.prems by simp
  have ih: "spaced (jk_cooldownMs s) (fetch_starts import tes s1) \<and>
    list_all (\<lambda>t. jk_lastAttemptAt s1 + jk_cooldownMs s \<le> t) (fetch_starts import tes s1)"
    using Cons.IH [of s1] Cons.prems fr by simp
  show ?case
    using ih fr Cons.prems(3) by (auto simp: st list_all_iff split: if_splits)
qed simp

lemma spaced_length:
  assumes "spaced c ts" and "list_all (\<lambda>t. t0 \<le> t \<and> t \<le> t1) ts" and "0 < c" and "t0 \<le> t1"
  shows "int (length ts) \<le> (t1 - t0) div c + 1"
  using assms
proof (induction ts arbitrary: t0)
  case Nil
  then show ?case by (simp add: pos_imp_zdiv_nonneg_iff)
next
  case (Cons t ts)
  show ?case
  proof (cases ts)
    case Nil
    with Cons.prems show ?thesis by (simp add: pos_imp_zdiv_nonneg_iff)
  next
    case (Cons u us)
    have le: "t0 + c \<le> t1" using Cons.prems(1,2) Cons by auto
    have "int (length ts) \<le> (t1 - (t0 + c)) div c + 1"
      using Cons.prems Cons le by (intro Cons.IH) (auto simp: list_all_iff)
    also have "(t1 - (t0 + c)) div c = (t1 - t0) div c - 1"
      using div_add_self2 [of c "t1 - (t0 + c)"] Cons.prems(3) by simp
    finally show ?thesis by simp
  qed
qed

lemma fetch_starts_times:
  "list_all (\<lambda>te. P (fst te)) tes \<Longrightarrow> list_all P (fetch_starts import tes s)"
  by (induction tes arbitrary: s) (auto simp: Let_def)

section \<open>Outages\<close>

definition outage :: "(jval \<Rightarrow> jval \<Rightarrow> 'k imported option) \<Rightarrow> string \<Rightarrow> jwks_event \<Rightarrow> bool" where
  "outage import uri e = (case e of
     Fetch_settled answer \<Rightarrow> (case fetched_keys import uri answer of Inl _ \<Rightarrow> True | Inr _ \<Rightarrow> False) | _ \<Rightarrow> True)"

lemma jwks_step_outage:
  assumes "jwks_step import te s = (out, s')" and "outage import (jk_jwksUri s) (snd te)" and "jk_keys s \<noteq> []"
  shows "jk_keys s' = jk_keys s \<and> jk_jwksUri s' = jk_jwksUri s \<and>
    (\<forall>kid r. (kid, r) \<in> set out \<longrightarrow> map_of (jk_keys s) kid \<noteq> None \<longrightarrow> kid \<noteq> [] \<longrightarrow> r = jwks_lookup s kid)"
proof (cases "snd te")
  case (Get_key kid)
  then show ?thesis
    using assms
    by (auto simp: jwks_step_def getKey_def jwks_refresh_def jwks_lookup_def Let_def
        split: option.splits if_splits prod.splits)
next
  case (Refresh force)
  then show ?thesis using assms by (auto simp: jwks_step_def jwks_refresh_def split: if_splits)
next
  case (Fetch_settled answer)
  then show ?thesis
    using assms
    by (auto simp: jwks_step_def fetch_end_def doFetch_def outage_def jwks_lookup_def split: if_splits sum.splits)
qed

lemma jwks_run_outage:
  assumes "jk_keys s \<noteq> []" and "list_all (\<lambda>te. outage import (jk_jwksUri s) (snd te)) tes"
    and "map_of (jk_keys s) kid = Some k" and "kid \<noteq> []"
    and "(kid, r) \<in> set (fst (jwks_run import tes s))"
  shows "r = Inr k"
  using assms
proof (induction tes arbitrary: s)
  case (Cons te tes)
  obtain out s1 where st: "jwks_step import te s = (out, s1)" by (metis surj_pair)
  have fr: "jk_keys s1 = jk_keys s \<and> jk_jwksUri s1 = jk_jwksUri s \<and>
    (\<forall>kid r. (kid, r) \<in> set out \<longrightarrow> map_of (jk_keys s) kid \<noteq> None \<longrightarrow> kid \<noteq> [] \<longrightarrow> r = jwks_lookup s kid)"
    using jwks_step_outage [OF st] Cons.prems by simp
  from Cons.prems(5) consider "(kid, r) \<in> set out" | "(kid, r) \<in> set (fst (jwks_run import tes s1))"
    by (auto simp: st split: prod.splits)
  then show ?case
  proof cases
    case 1
    with fr Cons.prems(3,4) have "r = jwks_lookup s kid" by blast
    with Cons.prems(3) show ?thesis by (simp add: jwks_lookup_def)
  next
    case 2
    with Cons.prems(1-4) fr show ?thesis by (intro Cons.IH [of s1]) simp_all
  qed
qed simp

section \<open>Properties\<close>

text \<open>Unknown key identifiers cannot cause a fetch storm. While the key set is not empty, no answer
  empties it and nobody forces a refresh, whatever the lookups of an interval are, the number of
  fetches begun in it is at most one more than the number of whole cooldown periods it contains.\<close>

theorem jwks_fetch_rate:
  assumes "jk_keys s \<noteq> []" and "0 < jk_cooldownMs s" and "t0 \<le> t1"
    and "list_all (\<lambda>te. benign import (jk_jwksUri s) (snd te)) tes"
    and "list_all (\<lambda>te. t0 \<le> fst te \<and> fst te \<le> t1) tes"
  shows "int (length (fetch_starts import tes s)) \<le> (t1 - t0) div jk_cooldownMs s + 1"
  using fetch_starts_spaced [OF assms(1,4)] fetch_starts_times [OF assms(5)] assms(2,3)
  by (intro spaced_length) simp_all

definition demo_jwks :: "bool jwks_cache" where
  "demo_jwks = (new_jwks_cache ''http://idp/jwks'' None None)
     \<lparr>jk_keys := [(''k1'', True)], jk_fetchedAt := 5000, jk_lastAttemptAt := 5000\<rparr>"

definition demo_lookups :: "(int \<times> jwks_event) list" where
  "demo_lookups = [(6000, Get_key (Some ''bogus'')), (16000, Get_key (Some ''bogus'')),
     (16001, Get_key (Some ''k1'')), (16002, Fetch_settled None), (400000, Get_key (Some ''k1'')),
     (400001, Fetch_settled None)]"

theorem jwks_fetch_rate_witness:
  "int (length (fetch_starts (\<lambda>j a. None) demo_lookups demo_jwks)) \<le> (400001 - 6000) div 10000 + 1"
proof -
  have "jk_cooldownMs demo_jwks = 10000" by (simp add: demo_jwks_def new_jwks_cache_def)
  moreover have "int (length (fetch_starts (\<lambda>j a. None) demo_lookups demo_jwks))
    \<le> (400001 - 6000) div jk_cooldownMs demo_jwks + 1"
    by (rule jwks_fetch_rate)
      (simp_all add: demo_jwks_def new_jwks_cache_def demo_lookups_def benign_def fetched_keys_def)
  ultimately show ?thesis by simp
qed



end
