(* ===== verification/Idp_Tokens.thy ===== *)
theory Idp_Tokens
  imports Oauth_Client
begin

text \<open>
  The identity provider's directory, keys and token contents (\<open>apps/mock-idp/src/store.ts\<close>,
  \<open>keys.ts\<close>, \<open>tokens.ts\<close>). Signing is the parameter \<open>sign\<close>, from a key and the claims to the text
  of a token; a signing key is its identifier and its material.
\<close>

section \<open>Directory\<close>

record seed_user =
  su_id :: string
  su_email :: string
  su_password :: string
  su_name :: string
  su_tenantId :: string
  su_role :: role
  su_title :: string
  su_territory :: "string option"
  su_managerId :: "string option"

record seed_client =
  sc_clientId :: string
  sc_clientSecret :: "string option"
  sc_name :: string
  sc_confidential :: bool
  sc_redirectUris :: "string list"
  sc_allowedScopes :: "string list"
  sc_allowedGrants :: "string list"

record seed =
  sd_scopeSets :: "(string \<times> string list) list"
  sd_audienceNamespaces :: "(string \<times> string list) list"
  sd_users :: "seed_user list"
  sd_clients :: "seed_client list"

definition ALWAYS_GRANTED :: "string list" where
  "ALWAYS_GRANTED = [''openid'', ''profile'', ''email'', ''policy:evaluate'', ''policy:read'']"

text \<open>The maps are built from the lists in order, so of two entries with one key the last stays.\<close>

definition find_last :: "('a \<Rightarrow> bool) \<Rightarrow> 'a list \<Rightarrow> 'a option" where
  "find_last P xs = List.find P (rev xs)"

definition findUserByEmail :: "seed \<Rightarrow> string \<Rightarrow> seed_user option" where
  "findUserByEmail sd email = find_last (\<lambda>u. to_lower (su_email u) = to_lower (trim email)) (sd_users sd)"

definition findUserById :: "seed \<Rightarrow> string \<Rightarrow> seed_user option" where
  "findUserById sd i = find_last (\<lambda>u. su_id u = i) (sd_users sd)"

definition findClient :: "seed \<Rightarrow> string \<Rightarrow> seed_client option" where
  "findClient sd i = find_last (\<lambda>c. sc_clientId c = i) (sd_clients sd)"

definition entitlementsFor :: "seed \<Rightarrow> seed_user \<Rightarrow> string list" where
  "entitlementsFor sd u = ALWAYS_GRANTED @ or_default (map_of (sd_scopeSets sd) (role_str (su_role u))) []"

text \<open>Audiences are not names of members of every object, such as \<open>constructor\<close>, which the lookup
  in the source would find.\<close>

definition namespacesFor :: "seed \<Rightarrow> string \<Rightarrow> string list" where
  "namespacesFor sd audience = or_default (map_of (sd_audienceNamespaces sd) audience) []"

lemma find_last_Some: "find_last P xs = Some x \<Longrightarrow> x \<in> set xs \<and> P x"
  using find_Some_in_set [of P "rev xs" x] by (simp add: find_last_def)

lemma findUserById_Some: "findUserById sd i = Some u \<Longrightarrow> u \<in> set (sd_users sd) \<and> su_id u = i"
  by (auto simp: findUserById_def dest: find_last_Some)

lemma findUserByEmail_Some: "findUserByEmail sd e = Some u \<Longrightarrow> u \<in> set (sd_users sd)"
  by (auto simp: findUserByEmail_def dest: find_last_Some)

lemma findClient_Some: "findClient sd i = Some c \<Longrightarrow> c \<in> set (sd_clients sd) \<and> sc_clientId c = i"
  by (auto simp: findClient_def dest: find_last_Some)

lemma findUserById_distinct:
  assumes "distinct (map su_id (sd_users sd))" and "u \<in> set (sd_users sd)"
  shows "findUserById sd (su_id u) = Some u"
proof -
  have "\<exists>v. findUserById sd (su_id u) = Some v"
    using assms(2) by (cases "findUserById sd (su_id u)")
      (auto simp: findUserById_def find_last_def find_None_iff)
  then obtain v where v: "findUserById sd (su_id u) = Some v" by blast
  from findUserById_Some [OF v] assms have "v = u"
    by (auto simp: distinct_map dest: inj_onD)
  with v show ?thesis by simp
qed

section \<open>Keys\<close>

record signing_key =
  sk_kid :: string
  sk_material :: string

definition createKeyring :: "signing_key \<Rightarrow> signing_key list" where
  "createKeyring k = [k]"

definition rotate_keys :: "signing_key \<Rightarrow> signing_key list \<Rightarrow> signing_key list" where
  "rotate_keys next' keys = take 2 (next' # keys)"

text \<open>\<open>None\<close>: the keyring is empty, and reading the active key throws.\<close>

definition active_key :: "signing_key list \<Rightarrow> signing_key option" where
  "active_key keys = (case keys of [] \<Rightarrow> None | k # _ \<Rightarrow> Some k)"

definition resolveLocalKey :: "signing_key list \<Rightarrow> string option \<Rightarrow> signing_key option" where
  "resolveLocalKey keys kid =
     (case List.find (\<lambda>k. Some (sk_kid k) = kid) keys of Some k \<Rightarrow> Some k | None \<Rightarrow> active_key keys)"

lemma rotate_keeps_previous:
  "active_key keys = Some k \<Longrightarrow> rotate_keys n keys = [n, k] \<and>
     resolveLocalKey (rotate_keys n keys) (Some (sk_kid k)) = Some (if sk_kid n = sk_kid k then n else k)"
  by (cases keys) (auto simp: active_key_def rotate_keys_def resolveLocalKey_def)

section \<open>Scopes\<close>

definition parseScopeParam :: "string option \<Rightarrow> string list" where
  "parseScopeParam v = (case v of
     None \<Rightarrow> [] | Some s \<Rightarrow> words_by (\<lambda>c. js_space c \<or> c = CHR ''+'') s)"

definition scope_namespace :: "string \<Rightarrow> string" where
  "scope_namespace scope = hd (split_on (CHR '':'') scope)"

definition narrowScopes :: "string list \<Rightarrow> string list \<Rightarrow> string list \<Rightarrow> string list \<Rightarrow> string list" where
  "narrowScopes requested subjectEntitlements clientAllowed audienceNamespaces =
     (let candidates = (if requested \<noteq> [] then requested else subjectEntitlements)
      in sort (filter (\<lambda>scope. audienceNamespaces = [] \<or> scope_namespace scope \<in> set audienceNamespaces)
           (filter (\<lambda>scope. scope \<in> set clientAllowed)
             (filter (\<lambda>scope. scope \<in> set subjectEntitlements) (nub candidates)))))"

lemma set_narrowScopes:
  "set (narrowScopes req ent allowed ns) =
     {s \<in> set (if req \<noteq> [] then req else ent). s \<in> set ent \<and> s \<in> set allowed \<and>
        (ns = [] \<or> scope_namespace s \<in> set ns)}"
  by (auto simp: narrowScopes_def Let_def)

section \<open>Tokens\<close>

text \<open>The claims of an access token issued at second \<open>now\<close>; an absent actor leaves out its claim.\<close>

definition access_claims ::
    "string \<Rightarrow> seed_user \<Rightarrow> string \<Rightarrow> string \<Rightarrow> string list \<Rightarrow> int \<Rightarrow> string option \<Rightarrow> int \<Rightarrow> string \<Rightarrow> claims" where
  "access_claims issuer u clientId audience scopes ttl actor now jti =
     [(''scope'', JStr (join '' '' scopes)), (''client_id'', JStr clientId), (''tenant_id'', JStr (su_tenantId u)),
      (''role'', JStr (role_str (su_role u))), (''email'', JStr (su_email u)), (''name'', JStr (su_name u)),
      (''territory'', case su_territory u of None \<Rightarrow> JNull | Some t \<Rightarrow> JStr t)]
     @ (case actor of None \<Rightarrow> [] | Some a \<Rightarrow> [(''act'', JObj [(''sub'', JStr a)])])
     @ [(''iss'', JStr issuer), (''sub'', JStr (su_id u)), (''aud'', JStr audience), (''iat'', jint now),
        (''nbf'', jint now), (''exp'', jint (now + ttl)), (''jti'', JStr jti)]"

definition id_claims ::
    "string \<Rightarrow> seed_user \<Rightarrow> string \<Rightarrow> string option \<Rightarrow> int \<Rightarrow> int \<Rightarrow> string \<Rightarrow> claims" where
  "id_claims issuer u clientId nonce ttl now jti =
     [(''email'', JStr (su_email u)), (''email_verified'', JBool True), (''name'', JStr (su_name u)),
      (''preferred_username'', JStr (su_email u)), (''tenant_id'', JStr (su_tenantId u)),
      (''role'', JStr (role_str (su_role u)))]
     @ (case nonce of None \<Rightarrow> [] | Some n \<Rightarrow> if n = [] then [] else [(''nonce'', JStr n)])
     @ [(''iss'', JStr issuer), (''sub'', JStr (su_id u)), (''aud'', JStr clientId), (''iat'', jint now),
        (''exp'', jint (now + ttl)), (''jti'', JStr jti)]"

lemma access_claims_props:
  "own_prop (access_claims issuer u c a ss ttl act now jti) ''sub'' = JStr (su_id u)"
  "own_prop (access_claims issuer u c a ss ttl act now jti) ''tenant_id'' = JStr (su_tenantId u)"
  "own_prop (access_claims issuer u c a ss ttl act now jti) ''scope'' = JStr (join '' '' ss)"
  "own_prop (access_claims issuer u c a ss ttl act now jti) ''jti'' = JStr jti"
  "own_prop (access_claims issuer u c a ss ttl act now jti) ''aud'' = JStr a"
  "own_prop (access_claims issuer u c a ss ttl act now jti) ''role'' = JStr (role_str (su_role u))"
  "own_prop (access_claims issuer u c a ss ttl act now jti) ''exp'' = jint (now + ttl)"
  "own_prop (access_claims issuer u c a ss ttl act now jti) ''client_id'' = JStr c"
  "own_prop (access_claims issuer u c a ss ttl act now jti) ''email'' = JStr (su_email u)"
  "own_prop (access_claims issuer u c a ss ttl act now jti) ''name'' = JStr (su_name u)"
  "own_prop (access_claims issuer u c a ss ttl act now jti) ''act'' =
     (case act of None \<Rightarrow> JUndef | Some x \<Rightarrow> JObj [(''sub'', JStr x)])"
  by (simp_all add: access_claims_def own_prop_def split: option.split)

text \<open>The principal a service reads from a token is the user it was issued for. Projecting the claims
  of an issued access token gives the user's identifier, tenant, role, mail and name, the client and
  token identifiers, the expiry, and the granted scopes as they were granted, provided the
  identifiers are not empty and no scope is empty or contains white space.\<close>

theorem issued_principal_roundtrip:
  assumes "su_id u \<noteq> []" and "su_tenantId u \<noteq> []" and "jti \<noteq> []"
    and "list_all (\<lambda>s. s \<noteq> [] \<and> list_all (\<lambda>c. \<not> js_space c) s) scopes"
  shows "principalFromClaims (access_claims issuer u clientId audience scopes ttl actor now jti) =
    Inr \<lparr>pn_subject = su_id u, pn_tenantId = su_tenantId u, pn_email = Some (su_email u),
      pn_name = Some (su_name u), pn_role = su_role u, pn_scopes = scopes, pn_tokenId = jti,
      pn_clientId = clientId, pn_expiresAt = JFin (of_int (now + ttl))\<rparr>"
  using assms parseScope_join [of scopes]
  by (simp add: principalFromClaims_def access_claims_props nonempty_string_def jint_def list_all_iff)

definition demo_user :: seed_user where
  "demo_user = \<lparr>su_id = ''usr_alice'', su_email = ''alice@acme'', su_password = ''pw'', su_name = ''Alice'',
     su_tenantId = ''acme-corp'', su_role = Analyst, su_title = ''Analyst'', su_territory = Some ''West'',
     su_managerId = None\<rparr>"

theorem issued_principal_roundtrip_witness:
  "principalFromClaims (access_claims ''http://idp'' demo_user ''web'' ''mcp:postgres''
     [''postgres:query'', ''postgres:read''] 300 (Some ''mcp-gateway'') 1000 ''j1'') =
    Inr \<lparr>pn_subject = ''usr_alice'', pn_tenantId = ''acme-corp'', pn_email = Some ''alice@acme'',
      pn_name = Some ''Alice'', pn_role = Analyst, pn_scopes = [''postgres:query'', ''postgres:read''],
      pn_tokenId = ''j1'', pn_clientId = ''web'', pn_expiresAt = JFin (of_int (1000 + 300))\<rparr>"
  by (subst issued_principal_roundtrip)
    (simp_all add: demo_user_def js_space_def code_def)

end
