(* ===== verification/Idp.thy ===== *)
theory Idp
  imports Idp_Tokens
begin

text \<open>
  The identity provider's server (\<open>apps/mock-idp/src/server.ts\<close>): discovery, the authorization
  page and codes, the token endpoint with client authentication and its four grants,
  introspection, user information, revocation, the expiry sweep and key rotation. Parameters:
  \<open>sign\<close> signs claims with a key, \<open>verify resolve issuer now token\<close> is \<open>jwtVerify\<close> with its key
  lookup (\<open>None\<close>: it throws), \<open>sha\<close> is SHA-256 to bytes, \<open>issue field\<close> the message of a failed
  validation, \<open>is_url\<close> the validator's URL test. Fresh identifiers and the time are arguments.
\<close>

section \<open>State and replies\<close>

record auth_code =
  ac_userId :: string
  ac_clientId :: string
  ac_redirectUri :: string
  ac_scopes :: "string list"
  ac_codeChallenge :: string
  ac_nonce :: "string option"
  ac_expiresAt :: int

record refresh_grant =
  rg_userId :: string
  rg_clientId :: string
  rg_scopes :: "string list"
  rg_expiresAt :: int

record idp_config =
  ic_issuer :: string
  ic_accessTokenTtl :: int
  ic_seed :: seed

record idp_state =
  is_keys :: "signing_key list"
  is_codes :: "(string \<times> auth_code) list"
  is_refreshTokens :: "(string \<times> refresh_grant) list"

record fresh_ids =
  fr_code :: string
  fr_jti :: string
  fr_idJti :: string
  fr_refresh :: string

record idp_token_response =
  it_access_token :: string
  it_issued_token_type :: "string option"
  it_expires_in :: int
  it_scope :: string
  it_id_token :: "string option"
  it_refresh_token :: "string option"

datatype idp_reply =
    Idp_error int string string
  | Idp_login string "string list" "(string \<times> string) list" "(string \<times> string) option"
  | Idp_redirect string "(string \<times> string) list"
  | Idp_token idp_token_response
  | Idp_json "(string \<times> jval) list"
  | Idp_throws

definition AUTH_CODE_TTL_MS :: int where
  "AUTH_CODE_TTL_MS = 60000"

definition REFRESH_TTL_MS :: int where
  "REFRESH_TTL_MS = 8 * 60 * 60 * 1000"

definition verifyPkce :: "(string \<Rightarrow> string) \<Rightarrow> string \<Rightarrow> string \<Rightarrow> bool" where
  "verifyPkce sha verifier challenge \<longleftrightarrow> base64url (sha verifier) = challenge"

section \<open>Discovery\<close>

definition idp_metadata :: "idp_config \<Rightarrow> claims" where
  "idp_metadata cfg = (let issuer = ic_issuer cfg; strs = (\<lambda>xs. JArr (map JStr xs)) in
     [(''issuer'', JStr issuer), (''authorization_endpoint'', JStr (issuer @ ''/authorize'')),
      (''token_endpoint'', JStr (issuer @ ''/token'')), (''jwks_uri'', JStr (issuer @ ''/jwks'')),
      (''userinfo_endpoint'', JStr (issuer @ ''/userinfo'')),
      (''introspection_endpoint'', JStr (issuer @ ''/introspect'')),
      (''revocation_endpoint'', JStr (issuer @ ''/revoke'')),
      (''response_types_supported'', strs [''code'']),
      (''grant_types_supported'', strs [''authorization_code'', ''refresh_token'', ''client_credentials'',
         TOKEN_EXCHANGE_GRANT]),
      (''code_challenge_methods_supported'', strs [''S256'']),
      (''token_endpoint_auth_methods_supported'', strs [''client_secret_basic'', ''client_secret_post'', ''none'']),
      (''subject_types_supported'', strs [''public'']),
      (''id_token_signing_alg_values_supported'', strs [''RS256'']),
      (''scopes_supported'', strs (sort (nub (concat (map sc_allowedScopes (sd_clients (ic_seed cfg)))))))])"

section \<open>Authorization\<close>

record authorize_params =
  ap_response_type :: string
  ap_client_id :: string
  ap_redirect_uri :: string
  ap_scope :: "string option"
  ap_state :: "string option"
  ap_nonce :: "string option"
  ap_code_challenge :: string
  ap_code_challenge_method :: string

text \<open>The schema: \<open>Inl\<close> names the first field that fails, in the order of the schema.\<close>

definition authorize_schema ::
    "(string \<Rightarrow> bool) \<Rightarrow> (string \<times> string) list \<Rightarrow> (string, authorize_params) result" where
  "authorize_schema is_url q =
     (if map_of q ''response_type'' \<noteq> Some ''code'' then Inl ''response_type''
      else if map_of q ''client_id'' \<in> {None, Some []} then Inl ''client_id''
      else if \<not> (case map_of q ''redirect_uri'' of None \<Rightarrow> False | Some u \<Rightarrow> is_url u) then Inl ''redirect_uri''
      else if \<not> (case map_of q ''code_challenge'' of None \<Rightarrow> False
          | Some ch \<Rightarrow> 43 \<le> length ch \<and> length ch \<le> 128) then Inl ''code_challenge''
      else if map_of q ''code_challenge_method'' \<noteq> Some ''S256'' then Inl ''code_challenge_method''
      else Inr \<lparr>ap_response_type = ''code'', ap_client_id = the (map_of q ''client_id''),
        ap_redirect_uri = the (map_of q ''redirect_uri''), ap_scope = map_of q ''scope'',
        ap_state = map_of q ''state'', ap_nonce = map_of q ''nonce'',
        ap_code_challenge = the (map_of q ''code_challenge''), ap_code_challenge_method = ''S256''\<rparr>)"

definition hidden_fields :: "authorize_params \<Rightarrow> (string \<times> string) list" where
  "hidden_fields p =
     [(''response_type'', ap_response_type p), (''client_id'', ap_client_id p),
      (''redirect_uri'', ap_redirect_uri p), (''scope'', or_default (ap_scope p) []),
      (''state'', or_default (ap_state p) []), (''nonce'', or_default (ap_nonce p) []),
      (''code_challenge'', ap_code_challenge p), (''code_challenge_method'', ap_code_challenge_method p)]"

definition offered_scopes :: "seed_client \<Rightarrow> authorize_params \<Rightarrow> string list" where
  "offered_scopes c p = filter (\<lambda>s. s \<in> set (sc_allowedScopes c)) (parseScopeParam (ap_scope p))"

definition authorize_page ::
    "(string \<Rightarrow> string) \<Rightarrow> (string \<Rightarrow> bool) \<Rightarrow> idp_config \<Rightarrow> (string \<times> string) list \<Rightarrow> idp_reply" where
  "authorize_page issue is_url cfg q =
     (case authorize_schema is_url q of
        Inl f \<Rightarrow> Idp_error 400 ''invalid_request'' (issue f)
      | Inr p \<Rightarrow>
          (case findClient (ic_seed cfg) (ap_client_id p) of
             None \<Rightarrow> Idp_error 400 ''invalid_client'' ''Unknown client''
           | Some c \<Rightarrow>
               if ap_redirect_uri p \<notin> set (sc_redirectUris c)
               then Idp_error 400 ''invalid_request'' ''redirect_uri is not registered''
               else if ''authorization_code'' \<notin> set (sc_allowedGrants c)
               then Idp_error 400 ''unauthorized_client'' ''Grant not permitted for this client''
               else Idp_login (sc_name c) (offered_scopes c p) (hidden_fields p) None))"

definition new_code ::
    "idp_config \<Rightarrow> seed_client \<Rightarrow> seed_user \<Rightarrow> authorize_params \<Rightarrow> int \<Rightarrow> auth_code" where
  "new_code cfg c u p now =
     \<lparr>ac_userId = su_id u, ac_clientId = sc_clientId c, ac_redirectUri = ap_redirect_uri p,
      ac_scopes = narrowScopes (parseScopeParam (ap_scope p)) (entitlementsFor (ic_seed cfg) u)
        (sc_allowedScopes c) [],
      ac_codeChallenge = ap_code_challenge p,
      ac_nonce = (case ap_nonce p of None \<Rightarrow> None | Some n \<Rightarrow> if n = [] then None else Some n),
      ac_expiresAt = now + AUTH_CODE_TTL_MS\<rparr>"

definition authorize_submit ::
    "(string \<Rightarrow> string) \<Rightarrow> (string \<Rightarrow> bool) \<Rightarrow> idp_config \<Rightarrow> int \<Rightarrow> fresh_ids \<Rightarrow> (string \<times> string) list \<Rightarrow>
       idp_state \<Rightarrow> idp_reply \<times> idp_state" where
  "authorize_submit issue is_url cfg now fr q s =
     (let checked = bind_result (authorize_schema is_url q) (\<lambda>p.
          if map_of q ''email'' \<in> {None, Some []} then Inl ''email''
          else if map_of q ''password'' \<in> {None, Some []} then Inl ''password''
          else Inr (p, the (map_of q ''email''), the (map_of q ''password'')))
      in case checked of
           Inl f \<Rightarrow> (Idp_error 400 ''invalid_request'' (issue f), s)
         | Inr (p, email, password) \<Rightarrow>
             (case findClient (ic_seed cfg) (ap_client_id p) of
                None \<Rightarrow> (Idp_error 400 ''invalid_client'' ''Unknown client or redirect_uri'', s)
              | Some c \<Rightarrow>
                  if ap_redirect_uri p \<notin> set (sc_redirectUris c)
                  then (Idp_error 400 ''invalid_client'' ''Unknown client or redirect_uri'', s)
                  else (case findUserByEmail (ic_seed cfg) email of
                      None \<Rightarrow> (Idp_login (sc_name c) (offered_scopes c p) (hidden_fields p)
                        (Some (''Those credentials are not valid.'', email)), s)
                    | Some u \<Rightarrow>
                        if su_password u \<noteq> password
                        then (Idp_login (sc_name c) (offered_scopes c p) (hidden_fields p)
                          (Some (''Those credentials are not valid.'', email)), s)
                        else (Idp_redirect (ap_redirect_uri p)
                            ([(''code'', fr_code fr)] @ (case ap_state p of None \<Rightarrow> []
                               | Some st \<Rightarrow> if st = [] then [] else [(''state'', st)])),
                          s\<lparr>is_codes := alist_set (fr_code fr) (new_code cfg c u p now) (is_codes s)\<rparr>))))"

section \<open>Client authentication\<close>

type_synonym form = "string \<Rightarrow> string option"

definition truthy :: "string option \<Rightarrow> string option" where
  "truthy v = (case v of None \<Rightarrow> None | Some s \<Rightarrow> if s = [] then None else Some s)"

text \<open>\<open>Inl\<close>: decoding a component throws.\<close>

definition resolveClientCredentials ::
    "string option \<Rightarrow> form \<Rightarrow> (unit, string option \<times> string option) result" where
  "resolveClientCredentials authorization body =
     (let from_body = Inr (truthy (body ''client_id''), truthy (body ''client_secret'')) in
      case authorization of
        None \<Rightarrow> from_body
      | Some h \<Rightarrow>
          if \<not> starts_with h ''Basic '' then from_body
          else (let decoded = utf8_decode (from_base64 (drop 6 h)) in
            case index_of (CHR '':'') decoded of
              None \<Rightarrow> from_body
            | Some n \<Rightarrow>
                if n = 0 then from_body
                else (case (decodeURIComponent (take n decoded), decodeURIComponent (drop (Suc n) decoded)) of
                    (Some i, Some sec) \<Rightarrow> Inr (Some i, Some sec)
                  | _ \<Rightarrow> Inl ())))"

section \<open>Issuing\<close>

record issue_input =
  ii_user :: seed_user
  ii_clientId :: string
  ii_scopes :: "string list"
  ii_audience :: string
  ii_includeIdToken :: bool
  ii_includeRefresh :: bool
  ii_nonce :: "string option"

definition issueTokenResponse ::
    "(signing_key \<Rightarrow> claims \<Rightarrow> string) \<Rightarrow> idp_config \<Rightarrow> int \<Rightarrow> fresh_ids \<Rightarrow> issue_input \<Rightarrow> idp_state \<Rightarrow>
       idp_reply \<times> idp_state" where
  "issueTokenResponse sign cfg now fr i s =
     (case active_key (is_keys s) of
        None \<Rightarrow> (Idp_throws, s)
      | Some k \<Rightarrow>
          (Idp_token
            \<lparr>it_access_token = sign k (access_claims (ic_issuer cfg) (ii_user i) (ii_clientId i)
               (ii_audience i) (ii_scopes i) (ic_accessTokenTtl cfg) None (now div 1000) (fr_jti fr)),
             it_issued_token_type = None, it_expires_in = ic_accessTokenTtl cfg,
             it_scope = join '' '' (ii_scopes i),
             it_id_token = (if ii_includeIdToken i then Some (sign k (id_claims (ic_issuer cfg) (ii_user i)
               (ii_clientId i) (ii_nonce i) (ic_accessTokenTtl cfg) (now div 1000) (fr_idJti fr))) else None),
             it_refresh_token = (if ii_includeRefresh i then Some (fr_refresh fr) else None)\<rparr>,
           if ii_includeRefresh i
           then s\<lparr>is_refreshTokens := alist_set (fr_refresh fr)
             \<lparr>rg_userId = su_id (ii_user i), rg_clientId = ii_clientId i, rg_scopes = ii_scopes i,
              rg_expiresAt = now + REFRESH_TTL_MS\<rparr> (is_refreshTokens s)\<rparr>
           else s))"

section \<open>Grants\<close>

definition handleAuthorizationCode ::
    "(signing_key \<Rightarrow> claims \<Rightarrow> string) \<Rightarrow> (string \<Rightarrow> string) \<Rightarrow> idp_config \<Rightarrow> int \<Rightarrow> fresh_ids \<Rightarrow>
       form \<Rightarrow> string \<Rightarrow> idp_state \<Rightarrow> idp_reply \<times> idp_state" where
  "handleAuthorizationCode sign sha cfg now fr body clientId s =
     (case (truthy (body ''code''), truthy (body ''code_verifier'')) of
        (Some cd, Some verifier) \<Rightarrow>
          (let s1 = s\<lparr>is_codes := alist_del cd (is_codes s)\<rparr>
           in case map_of (is_codes s) cd of
                None \<Rightarrow> (Idp_error 400 ''invalid_grant'' ''Unknown or already-used code'', s1)
              | Some g \<Rightarrow>
                  if ac_expiresAt g < now
                  then (Idp_error 400 ''invalid_grant'' ''Authorization code has expired'', s1)
                  else if ac_clientId g \<noteq> clientId
                  then (Idp_error 400 ''invalid_grant'' ''Code was issued to a different client'', s1)
                  else if body ''redirect_uri'' \<notin> {None, Some (ac_redirectUri g)}
                  then (Idp_error 400 ''invalid_grant'' ''redirect_uri mismatch'', s1)
                  else if \<not> verifyPkce sha verifier (ac_codeChallenge g)
                  then (Idp_error 400 ''invalid_grant'' ''PKCE verification failed'', s1)
                  else (case findUserById (ic_seed cfg) (ac_userId g) of
                      None \<Rightarrow> (Idp_error 400 ''invalid_grant'' ''Subject no longer exists'', s1)
                    | Some u \<Rightarrow> issueTokenResponse sign cfg now fr
                        \<lparr>ii_user = u, ii_clientId = clientId, ii_scopes = ac_scopes g, ii_audience = clientId,
                         ii_includeIdToken = ''openid'' \<in> set (ac_scopes g),
                         ii_includeRefresh = ''offline_access'' \<in> set (ac_scopes g),
                         ii_nonce = truthy (ac_nonce g)\<rparr> s1))
      | _ \<Rightarrow> (Idp_error 400 ''invalid_request'' ''code and code_verifier are required'', s))"

definition handleRefresh ::
    "(signing_key \<Rightarrow> claims \<Rightarrow> string) \<Rightarrow> idp_config \<Rightarrow> int \<Rightarrow> fresh_ids \<Rightarrow> form \<Rightarrow> string \<Rightarrow>
       idp_state \<Rightarrow> idp_reply \<times> idp_state" where
  "handleRefresh sign cfg now fr body clientId s =
     (case truthy (body ''refresh_token'') of
        None \<Rightarrow> (Idp_error 400 ''invalid_request'' ''refresh_token is required'', s)
      | Some t \<Rightarrow>
          (let s1 = s\<lparr>is_refreshTokens := alist_del t (is_refreshTokens s)\<rparr>
           in case map_of (is_refreshTokens s) t of
                None \<Rightarrow> (Idp_error 400 ''invalid_grant'' ''Refresh token is not valid'', s1)
              | Some g \<Rightarrow>
                  if rg_expiresAt g < now
                  then (Idp_error 400 ''invalid_grant'' ''Refresh token is not valid'', s1)
                  else if rg_clientId g \<noteq> clientId
                  then (Idp_error 400 ''invalid_grant'' ''Refresh token belongs to another client'', s1)
                  else (case findUserById (ic_seed cfg) (rg_userId g) of
                      None \<Rightarrow> (Idp_error 400 ''invalid_grant'' ''Subject no longer exists'', s1)
                    | Some u \<Rightarrow> issueTokenResponse sign cfg now fr
                        \<lparr>ii_user = u, ii_clientId = clientId, ii_scopes = rg_scopes g, ii_audience = clientId,
                         ii_includeIdToken = False, ii_includeRefresh = True, ii_nonce = None\<rparr> s1)))"

definition servicePrincipal :: "string \<Rightarrow> string \<Rightarrow> seed_user" where
  "servicePrincipal clientId tenantId =
     \<lparr>su_id = ''svc_'' @ clientId, su_email = clientId @ ''@service.local'', su_password = [],
      su_name = clientId, su_tenantId = tenantId, su_role = Analyst, su_title = ''Service principal'',
      su_territory = None, su_managerId = None\<rparr>"

definition handleClientCredentials ::
    "(signing_key \<Rightarrow> claims \<Rightarrow> string) \<Rightarrow> idp_config \<Rightarrow> int \<Rightarrow> fresh_ids \<Rightarrow> form \<Rightarrow> string \<Rightarrow>
       string list \<Rightarrow> idp_state \<Rightarrow> idp_reply \<times> idp_state" where
  "handleClientCredentials sign cfg now fr body clientId clientAllowed s =
     (case truthy (body ''tenant_id'') of
        None \<Rightarrow> (Idp_error 400 ''invalid_request'' ''tenant_id is required for this grant'', s)
      | Some tenantId \<Rightarrow> issueTokenResponse sign cfg now fr
          \<lparr>ii_user = servicePrincipal clientId tenantId, ii_clientId = clientId,
           ii_scopes = narrowScopes (parseScopeParam (body ''scope'')) clientAllowed clientAllowed [],
           ii_audience = or_default (body ''audience'') clientId, ii_includeIdToken = False,
           ii_includeRefresh = False, ii_nonce = None\<rparr> s)"

type_synonym jwt_verifier =
  "(string option \<Rightarrow> signing_key option) \<Rightarrow> string \<Rightarrow> int \<Rightarrow> string \<Rightarrow> claims option"

definition exchange_grant ::
    "idp_config \<Rightarrow> form \<Rightarrow> seed_user \<Rightarrow> claims \<Rightarrow> string list \<Rightarrow> string \<Rightarrow> string list" where
  "exchange_grant cfg body u cl clientAllowed audience =
     narrowScopes (parseScopeParam (body ''scope''))
       (filter (\<lambda>s. s \<in> set (entitlementsFor (ic_seed cfg) u))
         (parseScopeParam (as_string (own_prop cl ''scope''))))
       clientAllowed (namespacesFor (ic_seed cfg) audience)"

definition handleTokenExchange ::
    "(signing_key \<Rightarrow> claims \<Rightarrow> string) \<Rightarrow> jwt_verifier \<Rightarrow> idp_config \<Rightarrow> int \<Rightarrow> fresh_ids \<Rightarrow> form \<Rightarrow> string \<Rightarrow>
       string list \<Rightarrow> idp_state \<Rightarrow> idp_reply \<times> idp_state" where
  "handleTokenExchange sign verify cfg now fr body clientId clientAllowed s =
     (case (truthy (body ''subject_token''), truthy (body ''audience'')) of
        (Some subjectToken, Some audience) \<Rightarrow>
          if body ''subject_token_type'' \<noteq> Some ACCESS_TOKEN_TYPE
          then (Idp_error 400 ''invalid_request'' ''Unsupported subject_token_type'', s)
          else (case verify (resolveLocalKey (is_keys s)) (ic_issuer cfg) now subjectToken of
              None \<Rightarrow> (Idp_error 400 ''invalid_grant'' ''subject_token is not valid'', s)
            | Some cl \<Rightarrow>
                (case (case as_string (own_prop cl ''sub'') of None \<Rightarrow> None
                     | Some i \<Rightarrow> findUserById (ic_seed cfg) i) of
                   None \<Rightarrow> (Idp_error 400 ''invalid_grant'' ''Unknown subject'', s)
                 | Some u \<Rightarrow>
                     (let granted = exchange_grant cfg body u cl clientAllowed audience in
                      if granted = []
                      then (Idp_error 400 ''invalid_scope''
                        (''Subject holds no scopes valid for audience '' @ quoted audience), s)
                      else (case active_key (is_keys s) of
                          None \<Rightarrow> (Idp_throws, s)
                        | Some k \<Rightarrow>
                            (let ttl = min (ic_accessTokenTtl cfg) 300
                             in (Idp_token
                                 \<lparr>it_access_token = sign k (access_claims (ic_issuer cfg) u clientId audience
                                    granted ttl (Some clientId) (now div 1000) (fr_jti fr)),
                                  it_issued_token_type = Some ACCESS_TOKEN_TYPE, it_expires_in = ttl,
                                  it_scope = join '' '' granted, it_id_token = None,
                                  it_refresh_token = None\<rparr>, s))))))
      | _ \<Rightarrow> (Idp_error 400 ''invalid_request'' ''subject_token and audience are required'', s))"

section \<open>The token endpoint\<close>

text \<open>Authentication of the client and its permission for the grant.\<close>

definition authenticate_client ::
    "seed \<Rightarrow> string option \<Rightarrow> form \<Rightarrow> (idp_reply, seed_client \<times> string) result" where
  "authenticate_client sd authorization body =
     (case resolveClientCredentials authorization body of
        Inl _ \<Rightarrow> Inl Idp_throws
      | Inr (clientId, secret) \<Rightarrow>
          (case (case truthy clientId of None \<Rightarrow> None | Some i \<Rightarrow> findClient sd i) of
             None \<Rightarrow> Inl (Idp_error 401 ''invalid_client'' ''Unknown client'')
           | Some c \<Rightarrow>
               if sc_confidential c \<and> (truthy secret = None \<or> sc_clientSecret c = None)
               then Inl (Idp_error 401 ''invalid_client'' ''Client authentication required'')
               else if sc_confidential c \<and> sc_clientSecret c \<noteq> secret
               then Inl (Idp_error 401 ''invalid_client'' ''Client authentication failed'')
               else (case body ''grant_type'' of
                   None \<Rightarrow> Inl (Idp_error 400 ''unauthorized_client'' (concat [''Grant '', quoted ''undefined'', '' not permitted'']))
                 | Some gt \<Rightarrow>
                     if gt \<notin> set (sc_allowedGrants c)
                     then Inl (Idp_error 400 ''unauthorized_client'' (concat [''Grant '', quoted gt, '' not permitted'']))
                     else Inr (c, gt))))"

definition token_endpoint ::
    "(signing_key \<Rightarrow> claims \<Rightarrow> string) \<Rightarrow> jwt_verifier \<Rightarrow> (string \<Rightarrow> string) \<Rightarrow> idp_config \<Rightarrow> int \<Rightarrow> fresh_ids \<Rightarrow>
       string option \<Rightarrow> form \<Rightarrow> idp_state \<Rightarrow> idp_reply \<times> idp_state" where
  "token_endpoint sign verify sha cfg now fr authorization body s =
     (case authenticate_client (ic_seed cfg) authorization body of
        Inl r \<Rightarrow> (r, s)
      | Inr (c, gt) \<Rightarrow>
          if gt = ''authorization_code''
          then handleAuthorizationCode sign sha cfg now fr body (sc_clientId c) s
          else if gt = ''refresh_token''
          then handleRefresh sign cfg now fr body (sc_clientId c) s
          else if gt = ''client_credentials''
          then handleClientCredentials sign cfg now fr body (sc_clientId c) (sc_allowedScopes c) s
          else if gt = TOKEN_EXCHANGE_GRANT
          then handleTokenExchange sign verify cfg now fr body (sc_clientId c) (sc_allowedScopes c) s
          else (Idp_error 400 ''unsupported_grant_type'' (''Unsupported: '' @ gt), s))"

section \<open>Introspection, user information, revocation, upkeep\<close>

definition introspect :: "jwt_verifier \<Rightarrow> idp_config \<Rightarrow> int \<Rightarrow> form \<Rightarrow> idp_state \<Rightarrow> idp_reply" where
  "introspect verify cfg now body s =
     (case truthy (body ''token'') of
        None \<Rightarrow> Idp_json [(''active'', JBool False)]
      | Some t \<Rightarrow>
          (case verify (resolveLocalKey (is_keys s)) (ic_issuer cfg) now t of
             None \<Rightarrow> Idp_json [(''active'', JBool False)]
           | Some cl \<Rightarrow> Idp_json ([(''active'', JBool True)]
               @ filter (\<lambda>(k, v). v \<noteq> JUndef) (map (\<lambda>k. (k, own_prop cl k))
                   [''sub'', ''aud'', ''iss'', ''exp'', ''iat'', ''jti'', ''scope'', ''client_id'', ''tenant_id'',
                    ''role'', ''act''])
               @ [(''token_type'', JStr ''Bearer'')])))"

definition userinfo :: "jwt_verifier \<Rightarrow> idp_config \<Rightarrow> int \<Rightarrow> string option \<Rightarrow> idp_state \<Rightarrow> idp_reply" where
  "userinfo verify cfg now header s =
     (case (case header of None \<Rightarrow> None
          | Some h \<Rightarrow> if starts_with h ''Bearer '' then truthy (Some (drop 7 h)) else None) of
        None \<Rightarrow> Idp_error 401 ''invalid_token'' ''Bearer token required''
      | Some t \<Rightarrow>
          (case verify (resolveLocalKey (is_keys s)) (ic_issuer cfg) now t of
             None \<Rightarrow> Idp_error 401 ''invalid_token'' ''Token is not valid''
           | Some cl \<Rightarrow>
               (case (case as_string (own_prop cl ''sub'') of None \<Rightarrow> None
                    | Some i \<Rightarrow> findUserById (ic_seed cfg) i) of
                  None \<Rightarrow> Idp_error 401 ''invalid_token'' ''Unknown subject''
                | Some u \<Rightarrow> Idp_json
                    [(''sub'', JStr (su_id u)), (''email'', JStr (su_email u)), (''email_verified'', JBool True),
                     (''name'', JStr (su_name u)), (''tenant_id'', JStr (su_tenantId u)),
                     (''role'', JStr (role_str (su_role u))), (''title'', JStr (su_title u)),
                     (''territory'', case su_territory u of None \<Rightarrow> JNull | Some t \<Rightarrow> JStr t)])))"

definition revoke :: "form \<Rightarrow> idp_state \<Rightarrow> idp_reply \<times> idp_state" where
  "revoke body s = (Idp_json [], case truthy (body ''token'') of
     None \<Rightarrow> s | Some t \<Rightarrow> s\<lparr>is_refreshTokens := alist_del t (is_refreshTokens s)\<rparr>)"

definition sweep :: "int \<Rightarrow> idp_state \<Rightarrow> idp_state" where
  "sweep now s = s\<lparr>is_codes := filter (\<lambda>(k, g). \<not> ac_expiresAt g < now) (is_codes s),
     is_refreshTokens := filter (\<lambda>(k, g). \<not> rg_expiresAt g < now) (is_refreshTokens s)\<rparr>"

section \<open>Requests and reachable states\<close>

datatype idp_request =
    Authorize_page "(string \<times> string) list"
  | Authorize_submit "(string \<times> string) list"
  | Token_request "string option" form
  | Introspect form
  | Userinfo "string option"
  | Revoke form
  | Sweep
  | Rotate signing_key

record idp_env =
  en_sign :: "signing_key \<Rightarrow> claims \<Rightarrow> string"
  en_verify :: jwt_verifier
  en_sha :: "string \<Rightarrow> string"
  en_issue :: "string \<Rightarrow> string"
  en_is_url :: "string \<Rightarrow> bool"
  en_config :: idp_config

definition idp_step ::
    "idp_env \<Rightarrow> int \<times> fresh_ids \<times> idp_request \<Rightarrow> idp_state \<Rightarrow> idp_reply \<times> idp_state" where
  "idp_step en e s = (case e of (now, fr, req) \<Rightarrow> (case req of
     Authorize_page q \<Rightarrow> (authorize_page (en_issue en) (en_is_url en) (en_config en) q, s)
   | Authorize_submit q \<Rightarrow> authorize_submit (en_issue en) (en_is_url en) (en_config en) now fr q s
   | Token_request authorization body \<Rightarrow>
       token_endpoint (en_sign en) (en_verify en) (en_sha en) (en_config en) now fr authorization body s
   | Introspect body \<Rightarrow> (introspect (en_verify en) (en_config en) now body s, s)
   | Userinfo header \<Rightarrow> (userinfo (en_verify en) (en_config en) now header s, s)
   | Revoke body \<Rightarrow> revoke body s
   | Sweep \<Rightarrow> (Idp_json [], sweep now s)
   | Rotate k \<Rightarrow> (Idp_json [], s\<lparr>is_keys := rotate_keys k (is_keys s)\<rparr>)))"

definition idp_init :: "signing_key \<Rightarrow> idp_state" where
  "idp_init k = \<lparr>is_keys = createKeyring k, is_codes = [], is_refreshTokens = []\<rparr>"

inductive idp_reachable :: "idp_env \<Rightarrow> idp_state \<Rightarrow> bool" for en where
  init: "idp_reachable en (idp_init k)"
| step: "idp_reachable en s \<Longrightarrow> idp_step en e s = (r, s') \<Longrightarrow> idp_reachable en s'"

end
