(* ===== verification/Idp_Properties.thy ===== *)
theory Idp_Properties
  imports Idp_Grants
begin

text \<open>
  The identity provider's properties: bounds on issued and exchanged tokens, single use of codes
  and refresh tokens, what redeeming a code requires, and the agreement with the gateway's OAuth
  client on credentials and PKCE.
\<close>

section \<open>Single use\<close>

fun count_uses :: "('e \<Rightarrow> 's \<Rightarrow> 's) \<Rightarrow> ('e \<Rightarrow> 's \<Rightarrow> bool) \<Rightarrow> 'e list \<Rightarrow> 's \<Rightarrow> nat" where
  "count_uses step redeems [] s = 0"
| "count_uses step redeems (e # es) s =
     (if redeems e s then 1 else 0) + count_uses step redeems es (step e s)"

text \<open>A store of vouchers: redeeming one requires and removes it, and only minting brings it in.\<close>

locale single_use =
  fixes step :: "'e \<Rightarrow> 's \<Rightarrow> 's"
    and holds :: "'s \<Rightarrow> 'v \<Rightarrow> bool"
    and mints :: "'e \<Rightarrow> 'v \<Rightarrow> bool"
    and redeems :: "'v \<Rightarrow> 'e \<Rightarrow> 's \<Rightarrow> bool"
  assumes redeem_held: "redeems v e s \<Longrightarrow> holds s v"
    and redeem_spends: "redeems v e s \<Longrightarrow> \<not> mints e v \<Longrightarrow> \<not> holds (step e s) v"
    and only_minted: "holds (step e s) v \<Longrightarrow> \<not> mints e v \<Longrightarrow> holds s v"
begin

lemma unheld_unused:
  "list_all (\<lambda>e. \<not> mints e v) es \<Longrightarrow> \<not> holds s v \<Longrightarrow> count_uses step (redeems v) es s = 0"
proof (induction es arbitrary: s)
  case (Cons e es)
  then have "\<not> redeems v e s" "\<not> holds (step e s) v" using redeem_held only_minted by auto
  with Cons show ?case by simp
qed simp

lemma used_at_most_once:
  "list_all (\<lambda>e. \<not> mints e v) es \<Longrightarrow> count_uses step (redeems v) es s \<le> 1"
proof (induction es arbitrary: s)
  case (Cons e es)
  then show ?case
    using redeem_spends [of v e s] unheld_unused [of v es "step e s"] by (cases "redeems v e s") auto
qed simp

end

definition keys_of :: "('k \<times> 'v) list \<Rightarrow> 'k set" where
  "keys_of m = fst ` set m"

lemma keys_of_alist_set [simp]: "keys_of (alist_set k v m) = insert k (keys_of m)"
  by (simp add: keys_of_def keys_alist_set)

lemma keys_of_alist_del [simp]: "keys_of (alist_del k m) = keys_of m - {k}"
  by (induction m) (auto simp: keys_of_def alist_del_def)

lemma keys_of_map_of: "map_of m k = None \<longleftrightarrow> k \<notin> keys_of m"
  by (auto simp: keys_of_def map_of_eq_None_iff)

lemma keys_of_filter: "keys_of (filter P m) \<subseteq> keys_of m"
  by (auto simp: keys_of_def)

lemma issue_frame:
  assumes "issueTokenResponse sign cfg now fr i s = (r, s')"
  shows "is_codes s' = is_codes s \<and>
    keys_of (is_refreshTokens s') \<subseteq> insert (fr_refresh fr) (keys_of (is_refreshTokens s))"
  using assms by (auto simp: issueTokenResponse_def split: option.splits if_splits)

lemma handleAuthorizationCode_frame:
  assumes "handleAuthorizationCode sign sha cfg now fr body clientId s = (r, s')"
  shows "is_codes s' = (case (truthy (body ''code''), truthy (body ''code_verifier'')) of
      (Some cd, Some _) \<Rightarrow> alist_del cd (is_codes s) | _ \<Rightarrow> is_codes s) \<and>
    keys_of (is_refreshTokens s') \<subseteq> insert (fr_refresh fr) (keys_of (is_refreshTokens s))"
  using assms
  by (auto simp: handleAuthorizationCode_def Let_def split: option.splits if_splits dest!: issue_frame)

lemma handleRefresh_frame:
  assumes "handleRefresh sign cfg now fr body clientId s = (r, s')"
  shows "is_codes s' = is_codes s \<and> keys_of (is_refreshTokens s') \<subseteq> insert (fr_refresh fr)
    (case truthy (body ''refresh_token'') of Some t \<Rightarrow> keys_of (alist_del t (is_refreshTokens s))
       | None \<Rightarrow> keys_of (is_refreshTokens s))"
  using assms
  by (auto simp: handleRefresh_def Let_def split: option.splits if_splits dest!: issue_frame)

lemma handleClientCredentials_frame:
  "handleClientCredentials sign cfg now fr body clientId allowed s = (r, s') \<Longrightarrow> s' = s"
  by (auto simp: handleClientCredentials_def issueTokenResponse_def split: option.splits)

lemma handleTokenExchange_frame:
  "handleTokenExchange sign verify cfg now fr body clientId allowed s = (r, s') \<Longrightarrow> s' = s"
  by (auto simp: handleTokenExchange_def Let_def split: option.splits if_splits)

lemma token_endpoint_frame:
  assumes "token_endpoint sign verify sha cfg now fr a body s = (r, s')"
  shows "keys_of (is_codes s') \<subseteq> keys_of (is_codes s) \<and>
    keys_of (is_refreshTokens s') \<subseteq> insert (fr_refresh fr) (keys_of (is_refreshTokens s))"
  using assms
  by (auto simp: token_endpoint_def split: sum.splits prod.splits if_splits option.splits
      dest!: handleAuthorizationCode_frame handleRefresh_frame handleClientCredentials_frame
        handleTokenExchange_frame)

definition is_token :: "idp_reply \<Rightarrow> bool" where
  "is_token r = (case r of Idp_token _ \<Rightarrow> True | _ \<Rightarrow> False)"

text \<open>The requests in which the code, or the refresh token, is exchanged for tokens.\<close>

definition redeems_code :: "idp_env \<Rightarrow> string \<Rightarrow> int \<times> fresh_ids \<times> idp_request \<Rightarrow> idp_state \<Rightarrow> bool" where
  "redeems_code en v e s = (case e of (now, fr, req) \<Rightarrow> (case req of
     Token_request a body \<Rightarrow> body ''grant_type'' = Some ''authorization_code'' \<and>
       truthy (body ''code'') = Some v \<and> is_token (fst (idp_step en e s))
   | _ \<Rightarrow> False))"

definition redeems_refresh :: "idp_env \<Rightarrow> string \<Rightarrow> int \<times> fresh_ids \<times> idp_request \<Rightarrow> idp_state \<Rightarrow> bool" where
  "redeems_refresh en v e s = (case e of (now, fr, req) \<Rightarrow> (case req of
     Token_request a body \<Rightarrow> body ''grant_type'' = Some ''refresh_token'' \<and>
       truthy (body ''refresh_token'') = Some v \<and> is_token (fst (idp_step en e s))
   | _ \<Rightarrow> False))"

abbreviation idp_next :: "idp_env \<Rightarrow> int \<times> fresh_ids \<times> idp_request \<Rightarrow> idp_state \<Rightarrow> idp_state" where
  "idp_next en e s \<equiv> snd (idp_step en e s)"

lemma token_endpoint_grant:
  assumes "token_endpoint sign verify sha cfg now fr a body s = (Idp_token t, s')" and "body ''grant_type'' = Some gt"
  obtains c where "authenticate_client (ic_seed cfg) a body = Inr (c, gt)"
    "\<exists>i. findClient (ic_seed cfg) i = Some c"
proof -
  obtain c where c: "authenticate_client (ic_seed cfg) a body = Inr (c, gt)"
    using assms authenticate_client_error [of "ic_seed cfg" a body]
      authenticate_client_found [of "ic_seed cfg" a body]
    by (cases "authenticate_client (ic_seed cfg) a body") (auto simp: token_endpoint_def)
  with authenticate_client_found [OF c] that show ?thesis by blast
qed

lemma code_redemption:
  assumes "redeems_code en v e s"
  shows "v \<in> keys_of (is_codes s) \<and> v \<notin> keys_of (is_codes (idp_next en e s))"
proof -
  obtain now fr a body where e: "e = (now, fr, Token_request a body)"
    and b: "body ''grant_type'' = Some ''authorization_code''" "truthy (body ''code'') = Some v"
    and tok: "is_token (fst (idp_step en e s))"
    using assms by (auto simp: redeems_code_def split: prod.splits idp_request.splits)
  let ?cfg = "en_config en"
  obtain t s' where te: "token_endpoint (en_sign en) (en_verify en) (en_sha en) ?cfg now fr a body s = (Idp_token t, s')"
    using tok e by (auto simp: idp_step_def is_token_def split: idp_reply.splits) (metis prod.collapse)
  obtain c where "authenticate_client (ic_seed ?cfg) a body = Inr (c, ''authorization_code'')"
    using te b(1) by (rule token_endpoint_grant)
  with te have h: "handleAuthorizationCode (en_sign en) (en_sha en) ?cfg now fr body (sc_clientId c) s = (Idp_token t, s')"
    by (simp add: token_endpoint_def)
  then have "map_of (is_codes s) v \<noteq> None" "truthy (body ''code_verifier'') \<noteq> None"
    using b(2) by (auto simp: handleAuthorizationCode_def Let_def split: option.splits)
  moreover from this handleAuthorizationCode_frame [OF h] b(2) have "is_codes s' = alist_del v (is_codes s)" by auto
  ultimately show ?thesis
    using te e by (auto simp: idp_step_def keys_of_map_of)
qed

lemma refresh_redemption:
  assumes "redeems_refresh en v e s"
  shows "v \<in> keys_of (is_refreshTokens s) \<and>
    (fr_refresh (fst (snd e)) \<noteq> v \<longrightarrow> v \<notin> keys_of (is_refreshTokens (idp_next en e s)))"
proof -
  obtain now fr a body where e: "e = (now, fr, Token_request a body)"
    and b: "body ''grant_type'' = Some ''refresh_token''" "truthy (body ''refresh_token'') = Some v"
    and tok: "is_token (fst (idp_step en e s))"
    using assms by (auto simp: redeems_refresh_def split: prod.splits idp_request.splits)
  let ?cfg = "en_config en"
  obtain t s' where te: "token_endpoint (en_sign en) (en_verify en) (en_sha en) ?cfg now fr a body s = (Idp_token t, s')"
    using tok e by (auto simp: idp_step_def is_token_def split: idp_reply.splits) (metis prod.collapse)
  obtain c where "authenticate_client (ic_seed ?cfg) a body = Inr (c, ''refresh_token'')"
    using te b(1) by (rule token_endpoint_grant)
  with te have h: "handleRefresh (en_sign en) ?cfg now fr body (sc_clientId c) s = (Idp_token t, s')"
    by (simp add: token_endpoint_def)
  then have "map_of (is_refreshTokens s) v \<noteq> None"
    using b(2) by (auto simp: handleRefresh_def Let_def split: option.splits)
  with handleRefresh_frame [OF h] b(2) te e show ?thesis
    by (auto simp: idp_step_def keys_of_map_of)
qed

lemma authorize_submit_frame:
  assumes "authorize_submit issue is_url cfg now fr q s = (r, s')"
  shows "keys_of (is_codes s') \<subseteq> insert (fr_code fr) (keys_of (is_codes s)) \<and>
    is_refreshTokens s' = is_refreshTokens s"
  using assms
  by (auto simp: authorize_submit_def Let_def split: sum.splits prod.splits option.splits if_splits)

lemma idp_step_frame:
  assumes "idp_step en (now, fr, req) s = (r, s')"
  shows "keys_of (is_codes s') \<subseteq> insert (fr_code fr) (keys_of (is_codes s)) \<and>
    keys_of (is_refreshTokens s') \<subseteq> insert (fr_refresh fr) (keys_of (is_refreshTokens s))"
proof (cases req)
  case (Authorize_submit q)
  with assms authorize_submit_frame show ?thesis by (fastforce simp: idp_step_def)
next
  case (Token_request a b)
  with assms token_endpoint_frame show ?thesis by (fastforce simp: idp_step_def)
next
  case (Revoke b)
  with assms show ?thesis by (auto simp: idp_step_def revoke_def split: option.splits)
next
  case Sweep
  with assms show ?thesis
    using keys_of_filter [of _ "is_codes s"] keys_of_filter [of _ "is_refreshTokens s"]
    by (fastforce simp: idp_step_def sweep_def)
qed (use assms in \<open>auto simp: idp_step_def\<close>)

interpretation code_use: single_use "idp_next en" "\<lambda>s v. v \<in> keys_of (is_codes s)"
    "\<lambda>e v. fr_code (fst (snd e)) = v" "redeems_code en" for en
proof
  show "redeems_code en v e s \<Longrightarrow> v \<in> keys_of (is_codes s)" for v e s
    using code_redemption by blast
  show "redeems_code en v e s \<Longrightarrow> fr_code (fst (snd e)) \<noteq> v \<Longrightarrow> v \<notin> keys_of (is_codes (idp_next en e s))" for v e s
    using code_redemption by blast
  show "v \<in> keys_of (is_codes (idp_next en e s)) \<Longrightarrow> fr_code (fst (snd e)) \<noteq> v \<Longrightarrow> v \<in> keys_of (is_codes s)" for v e s
    using idp_step_frame [of en "fst e" "fst (snd e)" "snd (snd e)" s] by (cases "idp_step en e s") auto
qed

interpretation refresh_use: single_use "idp_next en" "\<lambda>s v. v \<in> keys_of (is_refreshTokens s)"
    "\<lambda>e v. fr_refresh (fst (snd e)) = v" "redeems_refresh en" for en
proof
  show "redeems_refresh en v e s \<Longrightarrow> v \<in> keys_of (is_refreshTokens s)" for v e s
    using refresh_redemption by blast
  show "redeems_refresh en v e s \<Longrightarrow> fr_refresh (fst (snd e)) \<noteq> v \<Longrightarrow>
    v \<notin> keys_of (is_refreshTokens (idp_next en e s))" for v e s
    using refresh_redemption by blast
  show "v \<in> keys_of (is_refreshTokens (idp_next en e s)) \<Longrightarrow> fr_refresh (fst (snd e)) \<noteq> v \<Longrightarrow>
    v \<in> keys_of (is_refreshTokens s)" for v e s
    using idp_step_frame [of en "fst e" "fst (snd e)" "snd (snd e)" s] by (cases "idp_step en e s") auto
qed

section \<open>A provider to evaluate\<close>

definition demo_client :: seed_client where
  "demo_client = \<lparr>sc_clientId = ''claude'', sc_clientSecret = None, sc_name = ''Claude'', sc_confidential = False,
     sc_redirectUris = [''http://127.0.0.1/callback''], sc_allowedScopes = [''openid'', ''salesforce:read''],
     sc_allowedGrants = [''authorization_code'']\<rparr>"

definition demo_gateway :: seed_client where
  "demo_gateway = \<lparr>sc_clientId = ''mcp-gateway'', sc_clientSecret = Some ''secret'', sc_name = ''MCP Gateway'',
     sc_confidential = True, sc_redirectUris = [],
     sc_allowedScopes = [''salesforce:read'', ''salesforce:write'', ''postgres:read''],
     sc_allowedGrants = [TOKEN_EXCHANGE_GRANT]\<rparr>"

text \<open>The scope sets and namespaces that \<open>seed.json\<close> ships.\<close>

definition seed_scope_sets :: "(string \<times> string list) list" where
  "seed_scope_sets =
     [(''viewer'', [''salesforce:read'', ''postgres:read'']),
      (''analyst'', [''salesforce:read'', ''postgres:read'', ''postgres:query'']),
      (''manager'', [''salesforce:read'', ''salesforce:read.team'', ''salesforce:write'', ''postgres:read'',
         ''postgres:query'']),
      (''admin'', [''salesforce:read'', ''salesforce:read.team'', ''salesforce:read.all'', ''salesforce:write'',
         ''postgres:read'', ''postgres:query'', ''postgres:admin'', ''policy:read'', ''gateway:admin''])]"

definition seed_namespaces :: "(string \<times> string list) list" where
  "seed_namespaces = [(''mcp:salesforce'', [''salesforce'']), (''mcp:postgres'', [''postgres'']),
     (''mcp:policy-engine'', [''policy''])]"

definition demo_seed :: seed where
  "demo_seed = \<lparr>sd_scopeSets = seed_scope_sets, sd_audienceNamespaces = seed_namespaces,
     sd_users = [demo_user], sd_clients = [demo_client, demo_gateway]\<rparr>"

definition demo_env :: idp_env where
  "demo_env = \<lparr>en_sign = (\<lambda>k cl. sk_material k),
     en_verify = (\<lambda>resolve issuer now t. Some [(''sub'', JStr t), (''scope'', JStr ''openid salesforce:read'')]),
     en_sha = (\<lambda>t. t), en_issue = (\<lambda>f. f), en_is_url = (\<lambda>u. True),
     en_config = \<lparr>ic_issuer = ''http://idp'', ic_accessTokenTtl = 900, ic_seed = demo_seed\<rparr>\<rparr>"

definition demo_key :: signing_key where
  "demo_key = \<lparr>sk_kid = ''k1'', sk_material = ''sig''\<rparr>"

definition demo_fresh :: fresh_ids where
  "demo_fresh = \<lparr>fr_code = ''c1'', fr_jti = ''j1'', fr_idJti = ''j2'', fr_refresh = ''r1''\<rparr>"

definition demo_exchange_body :: "(string \<times> string) list" where
  "demo_exchange_body =
     [(''grant_type'', TOKEN_EXCHANGE_GRANT), (''client_id'', ''mcp-gateway''), (''client_secret'', ''secret''),
      (''subject_token'', ''usr_alice''), (''subject_token_type'', ACCESS_TOKEN_TYPE),
      (''audience'', ''mcp:salesforce'')]"

definition demo_exchange_reply :: idp_token_response where
  "demo_exchange_reply = \<lparr>it_access_token = ''sig'', it_issued_token_type = Some ACCESS_TOKEN_TYPE,
     it_expires_in = 300, it_scope = ''salesforce:read'', it_id_token = None, it_refresh_token = None\<rparr>"

lemma demo_exchange:
  "token_endpoint (en_sign demo_env) (en_verify demo_env) (en_sha demo_env) (en_config demo_env) 5000 demo_fresh
     None (map_of demo_exchange_body) (idp_init demo_key) = (Idp_token demo_exchange_reply, idp_init demo_key)"
  by code_simp

lemma demo_seed_ok: "seed_ok (ic_seed (en_config demo_env))"
  by code_simp

section \<open>Properties\<close>

text \<open>C7: the provider never issues more than may be granted. In every reachable state, a token request
  is answered with a token only for an authenticated client that may use the grant; the token is
  signed by the active key, and its scopes are registered for that client and entitlements of its
  subject, a user of the directory (or the client itself, for its own credentials).\<close>

theorem issued_scopes_bounded:
  assumes "seed_ok (ic_seed (en_config en))" and "idp_reachable en s"
    and "token_endpoint (en_sign en) (en_verify en) (en_sha en) (en_config en) now fr a body s = (Idp_token t, s')"
  shows "\<exists>c gt. authenticate_client (ic_seed (en_config en)) a body = Inr (c, gt) \<and>
    gt \<in> set (sc_allowedGrants c) \<and>
    token_in_bounds (en_sign en) (en_config en) s (sc_clientId c) (it_access_token t)"
proof -
  obtain c gt where c: "authenticate_client (ic_seed (en_config en)) a body = Inr (c, gt)"
    "token_in_bounds (en_sign en) (en_config en) s (sc_clientId c) (it_access_token t)"
    using token_endpoint_step [OF idp_reachable_inv [OF assms(2,1)] assms(3)] by blast
  with authenticate_client_found [OF c(1)] show ?thesis by blast
qed

theorem issued_scopes_bounded_witness:
  "\<exists>c gt. authenticate_client (ic_seed (en_config demo_env)) None (map_of demo_exchange_body) = Inr (c, gt) \<and>
    gt \<in> set (sc_allowedGrants c) \<and>
    token_in_bounds (en_sign demo_env) (en_config demo_env) (idp_init demo_key) (sc_clientId c)
      (it_access_token demo_exchange_reply)"
  by (rule issued_scopes_bounded [OF demo_seed_ok idp_reachable.init demo_exchange])

text \<open>C6: exchanging a token only narrows. When the provider answers a token exchange with a token, the
  presented token verified and names a user of the directory; the new token names the same subject,
  the requested audience and, as its actor, the client; it lives at most 300 seconds; and each of its
  scopes is one the presented token carries, an entitlement of the user now, registered for the
  client, and of a namespace of the audience when the audience has any.\<close>

theorem exchange_never_widens:
  assumes "token_endpoint sign verify sha cfg now fr a body s = (Idp_token t, s')"
    and "body ''grant_type'' = Some TOKEN_EXCHANGE_GRANT"
  shows "\<exists>c cl u k token audience granted ttl.
    authenticate_client (ic_seed cfg) a body = Inr (c, TOKEN_EXCHANGE_GRANT) \<and>
    body ''subject_token'' = Some token \<and> body ''audience'' = Some audience \<and>
    verify (resolveLocalKey (is_keys s)) (ic_issuer cfg) now token = Some cl \<and>
    own_prop cl ''sub'' = JStr (su_id u) \<and> findUserById (ic_seed cfg) (su_id u) = Some u \<and>
    active_key (is_keys s) = Some k \<and>
    it_access_token t = sign k (access_claims (ic_issuer cfg) u (sc_clientId c) audience granted ttl
      (Some (sc_clientId c)) (now div 1000) (fr_jti fr)) \<and> ttl \<le> 300 \<and>
    set granted \<subseteq> set (parseScopeParam (as_string (own_prop cl ''scope''))) \<inter>
      set (entitlementsFor (ic_seed cfg) u) \<inter> set (sc_allowedScopes c) \<and>
    set (map scope_namespace granted) \<subseteq>
      (if namespacesFor (ic_seed cfg) audience = [] then UNIV else set (namespacesFor (ic_seed cfg) audience))"
proof -
  obtain c where c: "authenticate_client (ic_seed cfg) a body = Inr (c, TOKEN_EXCHANGE_GRANT)"
    using assms by (rule token_endpoint_grant)
  have gts: "TOKEN_EXCHANGE_GRANT \<noteq> ''authorization_code''" "TOKEN_EXCHANGE_GRANT \<noteq> ''refresh_token''"
    "TOKEN_EXCHANGE_GRANT \<noteq> ''client_credentials''"
    by (simp_all add: TOKEN_EXCHANGE_GRANT_def)
  from assms(1) c gts have
    "handleTokenExchange sign verify cfg now fr body (sc_clientId c) (sc_allowedScopes c) s = (Idp_token t, s')"
    by (simp add: token_endpoint_def)
  then obtain k cl u token audience where h:
    "truthy (body ''subject_token'') = Some token" "truthy (body ''audience'') = Some audience"
    "verify (resolveLocalKey (is_keys s)) (ic_issuer cfg) now token = Some cl"
    "own_prop cl ''sub'' = JStr (su_id u)" "findUserById (ic_seed cfg) (su_id u) = Some u"
    "active_key (is_keys s) = Some k"
    "it_access_token t = sign k (access_claims (ic_issuer cfg) u (sc_clientId c) audience
       (exchange_grant cfg body u cl (sc_allowedScopes c) audience) (min (ic_accessTokenTtl cfg) 300)
       (Some (sc_clientId c)) (now div 1000) (fr_jti fr))"
    by (rule handleTokenExchange_token)
  let ?g = "exchange_grant cfg body u cl (sc_allowedScopes c) audience"
  have given: "body ''subject_token'' = Some token" "body ''audience'' = Some audience"
    using h(1,2) by (auto simp: truthy_def split: option.splits if_splits)
  have bounds: "set ?g \<subseteq> set (parseScopeParam (as_string (own_prop cl ''scope''))) \<inter>
      set (entitlementsFor (ic_seed cfg) u) \<inter> set (sc_allowedScopes c)"
    using exchange_grant_bounds [of cfg body u cl "sc_allowedScopes c" audience] by blast
  have ns: "set (map scope_namespace ?g) \<subseteq>
      (if namespacesFor (ic_seed cfg) audience = [] then UNIV else set (namespacesFor (ic_seed cfg) audience))"
    using exchange_grant_namespace [of _ cfg body u cl "sc_allowedScopes c" audience] by auto
  have "min (ic_accessTokenTtl cfg) 300 \<le> 300" by simp
  with c given h(3-7) bounds ns show ?thesis by blast
qed

theorem exchange_never_widens_witness:
  "\<exists>c cl u k token audience granted ttl.
    authenticate_client (ic_seed (en_config demo_env)) None (map_of demo_exchange_body) = Inr (c, TOKEN_EXCHANGE_GRANT) \<and>
    map_of demo_exchange_body ''subject_token'' = Some token \<and> map_of demo_exchange_body ''audience'' = Some audience \<and>
    en_verify demo_env (resolveLocalKey (is_keys (idp_init demo_key))) (ic_issuer (en_config demo_env)) 5000 token = Some cl \<and>
    own_prop cl ''sub'' = JStr (su_id u) \<and> findUserById (ic_seed (en_config demo_env)) (su_id u) = Some u \<and>
    active_key (is_keys (idp_init demo_key)) = Some k \<and>
    it_access_token demo_exchange_reply = en_sign demo_env k (access_claims (ic_issuer (en_config demo_env)) u
      (sc_clientId c) audience granted ttl (Some (sc_clientId c)) (5000 div 1000) (fr_jti demo_fresh)) \<and> ttl \<le> 300 \<and>
    set granted \<subseteq> set (parseScopeParam (as_string (own_prop cl ''scope''))) \<inter>
      set (entitlementsFor (ic_seed (en_config demo_env)) u) \<inter> set (sc_allowedScopes c) \<and>
    set (map scope_namespace granted) \<subseteq>
      (if namespacesFor (ic_seed (en_config demo_env)) audience = [] then UNIV
       else set (namespacesFor (ic_seed (en_config demo_env)) audience))"
  by (rule exchange_never_widens [OF demo_exchange]) (simp add: demo_exchange_body_def)

text \<open>C8: codes and refresh tokens are single use. In any sequence of requests, with every kind of request
  in between, an authorization code that is not drawn again is exchanged for tokens at most once, and
  so is a refresh token.\<close>

theorem grants_redeemed_once:
  assumes "list_all (\<lambda>e. fr_code (fst (snd e)) \<noteq> v \<and> fr_refresh (fst (snd e)) \<noteq> v) es"
  shows "count_uses (idp_next en) (redeems_code en v) es s \<le> 1 \<and>
    count_uses (idp_next en) (redeems_refresh en v) es s \<le> 1"
  using assms by (intro conjI code_use.used_at_most_once refresh_use.used_at_most_once)
    (auto simp: list_all_iff)

text \<open>The code \<open>c1\<close> redeemed, and presented again.\<close>

definition demo_challenge :: string where
  "demo_challenge = base64url (replicate 32 (CHR ''v''))"

definition demo_code_body :: "(string \<times> string) list" where
  "demo_code_body =
     [(''grant_type'', ''authorization_code''), (''client_id'', ''claude''), (''code'', ''c1''),
      (''code_verifier'', replicate 32 (CHR ''v''))]"

definition demo_coded :: idp_state where
  "demo_coded = snd (idp_step demo_env (1000, demo_fresh, Authorize_submit
     [(''response_type'', ''code''), (''client_id'', ''claude''), (''redirect_uri'', ''http://127.0.0.1/callback''),
      (''code_challenge'', demo_challenge), (''code_challenge_method'', ''S256''), (''email'', ''alice@acme''),
      (''password'', ''pw'')]) (idp_init demo_key))"

definition demo_redeem :: "int \<times> fresh_ids \<times> idp_request" where
  "demo_redeem = (2000, demo_fresh\<lparr>fr_code := ''c2''\<rparr>, Token_request None (map_of demo_code_body))"

theorem grants_redeemed_once_witness:
  "redeems_code demo_env ''c1'' demo_redeem demo_coded \<and>
   count_uses (idp_next demo_env) (redeems_code demo_env ''c1'') [demo_redeem, demo_redeem] demo_coded \<le> 1 \<and>
   count_uses (idp_next demo_env) (redeems_refresh demo_env ''c1'') [demo_redeem, demo_redeem] demo_coded \<le> 1"
proof -
  have "redeems_code demo_env ''c1'' demo_redeem demo_coded" by code_simp
  moreover have "list_all (\<lambda>e. fr_code (fst (snd e)) \<noteq> ''c1'' \<and> fr_refresh (fst (snd e)) \<noteq> ''c1'')
    [demo_redeem, demo_redeem]"
    by (simp add: demo_redeem_def demo_fresh_def)
  ultimately show ?thesis using grants_redeemed_once by blast
qed

text \<open>What redeeming a code takes. A token request by an authenticated client for the code grant is
  answered with tokens exactly if it presents a code on file and a verifier, the code has not expired
  and was issued to this client, the redirect address, if given, is the code's, the verifier hashes
  to the challenge the code was requested with, and the user still exists.\<close>

theorem code_redeemed_iff:
  assumes "authenticate_client (ic_seed cfg) a body = Inr (c, ''authorization_code'')" and "is_keys s \<noteq> []"
  shows "is_token (fst (token_endpoint sign verify sha cfg now fr a body s)) \<longleftrightarrow>
    (\<exists>cd verifier g u. truthy (body ''code'') = Some cd \<and> truthy (body ''code_verifier'') = Some verifier \<and>
       map_of (is_codes s) cd = Some g \<and> now \<le> ac_expiresAt g \<and> ac_clientId g = sc_clientId c \<and>
       body ''redirect_uri'' \<in> {None, Some (ac_redirectUri g)} \<and>
       base64url (sha verifier) = ac_codeChallenge g \<and>
       findUserById (ic_seed cfg) (ac_userId g) = Some u)"
  using assms active_key_keys [of "is_keys s"]
  by (auto simp: token_endpoint_def handleAuthorizationCode_def Let_def is_token_def issueTokenResponse_def
      verifyPkce_def not_less split: option.splits)

theorem code_redeemed_iff_witness:
  "is_token (fst (token_endpoint (en_sign demo_env) (en_verify demo_env) (en_sha demo_env) (en_config demo_env)
     2000 demo_fresh None (map_of demo_code_body) demo_coded)) \<longleftrightarrow>
    (\<exists>cd verifier g u. truthy (map_of demo_code_body ''code'') = Some cd \<and>
       truthy (map_of demo_code_body ''code_verifier'') = Some verifier \<and>
       map_of (is_codes demo_coded) cd = Some g \<and> 2000 \<le> ac_expiresAt g \<and> ac_clientId g = sc_clientId demo_client \<and>
       map_of demo_code_body ''redirect_uri'' \<in> {None, Some (ac_redirectUri g)} \<and>
       base64url (en_sha demo_env verifier) = ac_codeChallenge g \<and>
       findUserById (ic_seed (en_config demo_env)) (ac_userId g) = Some u)"
  by (rule code_redeemed_iff; code_simp)

section \<open>The gateway's client and the provider\<close>

lemma index_of_append: "c \<notin> set s \<Longrightarrow> index_of c (s @ c # r) = Some (length s)"
  by (induction s) auto

text \<open>The provider reads the credentials the client sent. Whatever the client identifier, if not
  empty, and the secret are, special characters included, the header of the client's token requests
  decodes at the provider to that identifier and that secret, whatever the body says.\<close>

theorem client_credentials_roundtrip:
  assumes "clientId \<noteq> []"
  shows "resolveClientCredentials (Some (basic_auth clientId secret)) body = Inr (Some clientId, Some secret)"
proof -
  let ?i = "encodeURIComponent clientId" let ?t = "?i @ '':'' @ encodeURIComponent secret"
  have "list_all (\<lambda>c. code c < 128) ?t"
    using encodeURIComponent_chars by (auto simp: list_all_iff code_def)
  then have dec: "utf8_decode ?t = ?t" by (rule utf8_decode_ascii)
  have b: "basic_auth clientId secret = ''Basic '' @ base64 ?t" by (simp add: basic_auth_def)
  have h: "starts_with (basic_auth clientId secret) ''Basic ''" unfolding b by (rule starts_with_append)
  have d: "drop 6 (basic_auth clientId secret) = base64 ?t" unfolding b by simp
  have ix: "index_of (CHR '':'') ?t = Some (length ?i)"
    using index_of_append [of "CHR '':''" ?i "encodeURIComponent secret"] encodeURIComponent_chars by auto
  show ?thesis
    using assms unfolding resolveClientCredentials_def
    by (simp only: option.case h d from_base64_base64 dec ix Let_def) (simp add: h)
qed

theorem client_credentials_roundtrip_witness:
  "resolveClientCredentials (Some (basic_auth ''mcp-gateway'' ''s:cret 100%'')) (\<lambda>k. None) =
     Inr (Some ''mcp-gateway'', Some ''s:cret 100%'')"
  by (rule client_credentials_roundtrip) simp

text \<open>C38: a PKCE pair the client makes is one the provider accepts. With 32 random bytes and a 32-byte
  digest, the challenge has the length the authorization request is checked for and the verifier is
  accepted for it; and any verifier accepted for it has the digest of the original one.\<close>

theorem pkce_roundtrip:
  assumes "length (sha (base64url bytes)) = 32"
  shows "length (pk_codeChallenge (createPkcePair sha bytes)) = 43 \<and>
    verifyPkce sha (pk_codeVerifier (createPkcePair sha bytes)) (pk_codeChallenge (createPkcePair sha bytes)) \<and>
    (verifyPkce sha v (pk_codeChallenge (createPkcePair sha bytes)) \<longleftrightarrow>
       sha v = sha (pk_codeVerifier (createPkcePair sha bytes)))"
  using assms by (simp add: createPkcePair_def challengeFor_def verifyPkce_def Let_def length_base64url)

theorem pkce_roundtrip_witness:
  "length (pk_codeChallenge (createPkcePair (take 32) (replicate 32 (CHR ''r'')))) = 43 \<and>
    verifyPkce (take 32) (pk_codeVerifier (createPkcePair (take 32) (replicate 32 (CHR ''r''))))
      (pk_codeChallenge (createPkcePair (take 32) (replicate 32 (CHR ''r'')))) \<and>
    (verifyPkce (take 32) ''x'' (pk_codeChallenge (createPkcePair (take 32) (replicate 32 (CHR ''r'')))) \<longleftrightarrow>
       take 32 ''x'' = take 32 (pk_codeVerifier (createPkcePair (take 32) (replicate 32 (CHR ''r'')))))"
  by (rule pkce_roundtrip) (simp add: length_base64url)

section \<open>Refresh tokens\<close>

text \<open>A refresh token is issued with a code grant whose scopes include \<open>offline_access\<close>.\<close>

definition offline_entitled :: "seed \<Rightarrow> bool" where
  "offline_entitled sd \<longleftrightarrow>
     list_ex (\<lambda>u. ''offline_access'' \<in> set (entitlementsFor sd u)) (sd_users sd)"

lemma no_offline_code:
  assumes "\<not> offline_entitled sd" and "grant_ok sd i c ss"
  shows "''offline_access'' \<notin> set ss"
  using assms findUserById_Some [of sd i] by (auto simp: grant_ok_def offline_entitled_def list_ex_iff)

lemma no_refresh_token_endpoint:
  assumes "idp_inv (ic_seed cfg) s" and "\<not> offline_entitled (ic_seed cfg)" and "is_refreshTokens s = []"
    and "token_endpoint sign verify sha cfg now fr a body s = (r, s')"
  shows "is_refreshTokens s' = []"
proof -
  have code: "''offline_access'' \<notin> set (ac_scopes g)" if "map_of (is_codes s) cd = Some g" for cd g
    using no_offline_code [OF assms(2)] assms(1) map_of_SomeD [OF that] unfolding idp_inv_def by blast
  have "is_refreshTokens s' = []"
    if "handleAuthorizationCode sign sha cfg now fr body cid s = (r, s')" for cid
    using that assms(3) code
    by (auto simp: handleAuthorizationCode_def Let_def issueTokenResponse_def split: option.splits if_splits)
  moreover have "is_refreshTokens s' = []" if "handleRefresh sign cfg now fr body cid s = (r, s')" for cid
    using that assms(3) by (auto simp: handleRefresh_def Let_def alist_del_def split: option.splits)
  ultimately show ?thesis
    using assms(3,4)
    by (auto simp: token_endpoint_def dest!: handleClientCredentials_frame handleTokenExchange_frame
        split: sum.splits prod.splits if_splits)
qed

text \<open>With the shipped scope sets no refresh token is ever issued. \<open>offline_access\<close>, which the console
  requests, the clients are registered for and the code grant tests, is in no role's entitlements,
  so it is filtered from every grant, and the refresh grant can never succeed.\<close>

theorem refresh_never_issued:
  assumes "sd_scopeSets (ic_seed (en_config en)) = seed_scope_sets" and "seed_ok (ic_seed (en_config en))"
    and "idp_reachable en s"
  shows "is_refreshTokens s = []"
proof -
  let ?sd = "ic_seed (en_config en)"
  have "''offline_access'' \<notin> set (entitlementsFor ?sd u)" for u
    unfolding entitlementsFor_def assms(1)
    by (cases "su_role u") (simp_all add: ALWAYS_GRANTED_def seed_scope_sets_def role_str_def)
  then have no: "\<not> offline_entitled ?sd" by (simp add: offline_entitled_def list_ex_iff)
  show ?thesis
    using assms(3)
  proof (induction rule: idp_reachable.induct)
    case (init k)
    then show ?case by (simp add: idp_init_def)
  next
    case (step s e r s')
    note inv = idp_reachable_inv [OF step.hyps(1) assms(2)]
    obtain now fr req where e: "e = (now, fr, req)" by (metis surj_pair)
    show ?case
    proof (cases req)
      case (Authorize_submit q)
      then have "authorize_submit (en_issue en) (en_is_url en) (en_config en) now fr q s = (r, s')"
        using step.hyps(2) by (simp add: e idp_step_def)
      from authorize_submit_frame [OF this] step.IH show ?thesis by simp
    next
      case (Token_request a b)
      then have "token_endpoint (en_sign en) (en_verify en) (en_sha en) (en_config en) now fr a b s = (r, s')"
        using step.hyps(2) by (simp add: e idp_step_def)
      then show ?thesis by (rule no_refresh_token_endpoint [OF inv no step.IH])
    qed (use step.hyps(2) step.IH in \<open>auto simp: e idp_step_def revoke_def sweep_def alist_del_def
        split: option.splits\<close>)
  qed
qed

theorem refresh_never_issued_witness: "is_refreshTokens demo_coded = []"
proof -
  have "idp_reachable demo_env demo_coded"
    unfolding demo_coded_def by (rule idp_reachable.step [OF idp_reachable.init]) (rule surjective_pairing)
  then show ?thesis
    by (intro refresh_never_issued [of demo_env] demo_seed_ok) (simp_all add: demo_env_def demo_seed_def)
qed

end
