(* ===== verification/Client_Pool.thy ===== *)
theory Client_Pool
  imports Gw_Domain
begin

text \<open>
  Upstream connections (\<open>packages/mcp-runtime/src/client-pool.ts\<close>, \<open>client.ts\<close>): the pool with its
  exclusive checkout, credentials set and cleared on the entries, as a step relation over
  interleaved calls; and what an upstream answer or failure becomes. An entry of the pool is a
  number, calls are numbers, headers are lists of names and values.
\<close>

type_synonym headers = "(string \<times> string) list"

section \<open>The pool\<close>

text \<open>Idle entries per destination; each entry's current headers and destination; the calls in
  progress with their entry and the headers they were made with; the entries closed.\<close>

record pool_state =
  pl_idle :: "string \<Rightarrow> nat list option"
  pl_headers :: "nat \<Rightarrow> headers"
  pl_url :: "nat \<Rightarrow> string"
  pl_next :: nat
  pl_held :: "nat \<Rightarrow> (nat \<times> headers) option"
  pl_discarded :: "nat list"
  pl_closed :: bool
  pl_maxIdle :: nat

definition new_pool :: "nat option \<Rightarrow> pool_state" where
  "new_pool maxIdle = \<lparr>pl_idle = (\<lambda>u. None), pl_headers = (\<lambda>e. []), pl_url = (\<lambda>e. []), pl_next = 0,
     pl_held = (\<lambda>c. None), pl_discarded = [], pl_closed = False, pl_maxIdle = or_default maxIdle 32\<rparr>"

definition pool_take :: "string \<Rightarrow> pool_state \<Rightarrow> nat option \<times> pool_state" where
  "pool_take url s = (case pl_idle s url of
     None \<Rightarrow> (None, s)
   | Some bucket \<Rightarrow>
       if bucket = [] then (None, s)
       else (Some (last bucket), s\<lparr>pl_idle := (pl_idle s)(url \<mapsto> butlast bucket)\<rparr>))"

definition pool_build :: "string \<Rightarrow> headers \<Rightarrow> pool_state \<Rightarrow> nat \<times> pool_state" where
  "pool_build url hdrs s =
     (pl_next s, s\<lparr>pl_next := Suc (pl_next s), pl_headers := (pl_headers s)(pl_next s := hdrs),
        pl_url := (pl_url s)(pl_next s := url)\<rparr>)"

definition pool_discard :: "nat \<Rightarrow> pool_state \<Rightarrow> pool_state" where
  "pool_discard e s = s\<lparr>pl_discarded := e # pl_discarded s\<rparr>"

definition pool_give :: "nat \<Rightarrow> pool_state \<Rightarrow> pool_state" where
  "pool_give e s =
     (if pl_closed s then pool_discard e s
      else (let s1 = s\<lparr>pl_headers := (pl_headers s)(e := [])\<rparr>;
                bucket = or_default (pl_idle s (pl_url s e)) []
            in if pl_maxIdle s \<le> length bucket then pool_discard e s1
               else s1\<lparr>pl_idle := (pl_idle s)(pl_url s e \<mapsto> bucket @ [e])\<rparr>))"

text \<open>\<open>withClient\<close> for call \<open>c\<close>, up to the moment \<open>fn\<close> runs: an idle entry or a new one, with this
  call's headers.\<close>

definition pool_begin :: "nat \<Rightarrow> string \<Rightarrow> headers \<Rightarrow> pool_state \<Rightarrow> pool_state" where
  "pool_begin c url hdrs s =
     (let (e, s1) = (case pool_take url s of
          (Some e, s1) \<Rightarrow> (e, s1) | (None, s1) \<Rightarrow> pool_build url hdrs s1)
      in s1\<lparr>pl_headers := (pl_headers s1)(e := hdrs), pl_held := (pl_held s1)(c \<mapsto> (e, hdrs))\<rparr>)"

text \<open>The end of call \<open>c\<close>: the entry goes back, or is closed after an error.\<close>

definition pool_end :: "nat \<Rightarrow> bool \<Rightarrow> pool_state \<Rightarrow> pool_state" where
  "pool_end c ok s = (case pl_held s c of
     None \<Rightarrow> s
   | Some (e, hdrs) \<Rightarrow>
       (let s1 = s\<lparr>pl_held := (pl_held s)(c := None)\<rparr>
        in if ok then pool_give e s1 else pool_discard e s1))"

text \<open>A request that call \<open>c\<close>'s client sends: the headers are read from the entry.\<close>

definition pool_send :: "nat \<Rightarrow> pool_state \<Rightarrow> headers option" where
  "pool_send c s = (case pl_held s c of None \<Rightarrow> None | Some (e, _) \<Rightarrow> Some (pl_headers s e))"

definition pool_close :: "string list \<Rightarrow> pool_state \<Rightarrow> pool_state" where
  "pool_close urls s = s\<lparr>pl_closed := True, pl_idle := (\<lambda>u. None),
     pl_discarded := concat (map (\<lambda>u. or_default (pl_idle s u) []) urls) @ pl_discarded s\<rparr>"

definition pool_stats :: "string list \<Rightarrow> pool_state \<Rightarrow> (string \<times> nat) list" where
  "pool_stats urls s = List.map_filter (\<lambda>u. map_option (\<lambda>b. (u, length b)) (pl_idle s u)) urls"

text \<open>Calls interleave at these points. A call begins once: its number is free. The destinations
  of a closing are those in use.\<close>

datatype pool_event = Begin_call nat string headers | End_call nat bool | Close_pool "string list"

definition pool_enabled :: "pool_state \<Rightarrow> pool_event \<Rightarrow> bool" where
  "pool_enabled s ev = (case ev of Begin_call c url hdrs \<Rightarrow> pl_held s c = None | _ \<Rightarrow> True)"

definition pool_apply :: "pool_event \<Rightarrow> pool_state \<Rightarrow> pool_state" where
  "pool_apply ev s = (case ev of
     Begin_call c url hdrs \<Rightarrow> pool_begin c url hdrs s
   | End_call c ok \<Rightarrow> pool_end c ok s
   | Close_pool urls \<Rightarrow> pool_close urls s)"

fun pool_run :: "pool_event list \<Rightarrow> pool_state \<Rightarrow> pool_state option" where
  "pool_run [] s = Some s"
| "pool_run (ev # evs) s = (if pool_enabled s ev then pool_run evs (pool_apply ev s) else None)"

inductive pool_reachable :: "pool_state \<Rightarrow> bool" where
  init: "pool_reachable (new_pool maxIdle)"
| step: "pool_reachable s \<Longrightarrow> pool_enabled s ev \<Longrightarrow> pool_reachable (pool_apply ev s)"

section \<open>A tool call\<close>

record upstream_call =
  uc_url :: string
  uc_server :: string
  uc_toolName :: string
  uc_arguments :: jval
  uc_accessToken :: string
  uc_timeoutMs :: "int option"

record upstream_result =
  ur_isError :: bool
  ur_text :: string
  ur_structured :: "(string \<times> jval) list option"
  ur_latencyMs :: js_num

text \<open>The headers of a call; \<open>trace\<close> is what the propagator adds.\<close>

definition call_headers :: "headers \<Rightarrow> upstream_call \<Rightarrow> headers" where
  "call_headers trace call = alist_set ''authorization'' (''Bearer '' @ uc_accessToken call) [] @ trace"

text \<open>\<open>block.text\<close> of the text blocks; a null block is the \<open>TypeError\<close> of reading its property.\<close>

fun text_blocks :: "jval list \<Rightarrow> (thrown, string list) result" where
  "text_blocks [] = Inr []"
| "text_blocks (b # bs) =
     (if b = JNull \<or> b = JUndef
      then Inl (Thrown_error ''TypeError'' (concat [''Cannot read properties of '',
              if b = JNull then ''null'' else ''undefined'', '' (reading '', quoted ''type'', '')'']))
      else bind_result (text_blocks bs) (\<lambda>ts. Inr
        (case (js_get b ''type'', js_get b ''text'') of
           (JStr ty, JStr t) \<Rightarrow> if ty = ''text'' then t # ts else ts
         | _ \<Rightarrow> ts)))"

definition isRecord :: "jval \<Rightarrow> (string \<times> jval) list option" where
  "isRecord v = (case v of JObj kvs \<Rightarrow> Some kvs | _ \<Rightarrow> None)"

definition read_tool_result :: "js_num \<Rightarrow> jval \<Rightarrow> (thrown, upstream_result) result" where
  "read_tool_result latencyMs r =
     bind_result (text_blocks (case js_get r ''content'' of JArr bs \<Rightarrow> bs | _ \<Rightarrow> [])) (\<lambda>ts.
       Inr \<lparr>ur_isError = (js_get r ''isError'' = JBool True), ur_text = join ''\<newline>'' ts,
            ur_structured = isRecord (js_get r ''structuredContent''), ur_latencyMs = latencyMs\<rparr>)"

definition isConnectionError :: "thrown \<Rightarrow> bool" where
  "isConnectionError t = (case t of
     Thrown_other \<Rightarrow> False
   | _ \<Rightarrow> (let message = to_lower (thrown_reason t)
          in list_ex (\<lambda>w. has_sub w message)
               [''econnrefused'', ''enotfound'', ''fetch failed'', ''socket hang up'', ''timeout'']))"

definition upstream_failure :: "upstream_call \<Rightarrow> thrown \<Rightarrow> gateway_error" where
  "upstream_failure call t =
     (if isConnectionError t then UpstreamUnavailableError (uc_server call)
      else UpstreamError (uc_server call)
             (if t = Thrown_other then ''Upstream tool call failed'' else thrown_reason t)
             [(''tool'', JStr (uc_toolName call))])"

text \<open>The answer of the client library, or what connecting or calling threw, as the call's outcome.\<close>

definition callUpstreamTool ::
  "upstream_call \<Rightarrow> js_num \<Rightarrow> (thrown, jval) result \<Rightarrow> (gateway_error, upstream_result) result" where
  "callUpstreamTool call latencyMs answer =
     (case bind_result answer (read_tool_result latencyMs) of
        Inl t \<Rightarrow> Inl (upstream_failure call t)
      | Inr r \<Rightarrow> Inr r)"

section \<open>Exclusive checkout\<close>

definition is_idle :: "pool_state \<Rightarrow> nat \<Rightarrow> bool" where
  "is_idle s e \<longleftrightarrow> (\<exists>u b. pl_idle s u = Some b \<and> e \<in> set b)"

definition is_held :: "pool_state \<Rightarrow> nat \<Rightarrow> bool" where
  "is_held s e \<longleftrightarrow> (\<exists>c h. pl_held s c = Some (e, h))"

text \<open>Each part of the invariant on its own, so that each step keeps it by simplification.\<close>

definition held_own :: "pool_state \<Rightarrow> bool" where
  "held_own s \<longleftrightarrow> (\<forall>c e h. pl_held s c = Some (e, h) \<longrightarrow> pl_headers s e = h \<and> e < pl_next s \<and> \<not> is_idle s e)"

definition held_once :: "pool_state \<Rightarrow> bool" where
  "held_once s \<longleftrightarrow> (\<forall>c c' e h h'. pl_held s c = Some (e, h) \<longrightarrow> pl_held s c' = Some (e, h') \<longrightarrow> c = c')"

definition idle_ok :: "pool_state \<Rightarrow> bool" where
  "idle_ok s \<longleftrightarrow> (\<forall>u b. pl_idle s u = Some b \<longrightarrow> distinct b \<and> length b \<le> pl_maxIdle s \<and>
     (\<forall>e \<in> set b. pl_url s e = u \<and> pl_headers s e = [] \<and> e < pl_next s))"

definition pool_inv :: "pool_state \<Rightarrow> bool" where
  "pool_inv s \<longleftrightarrow> held_own s \<and> held_once s \<and> idle_ok s"

lemma held_once_cong: "pl_held s = pl_held t \<Longrightarrow> held_once s = held_once t"
  by (simp only: held_once_def)

lemma pool_inv_new: "pool_inv (new_pool m)"
  by (simp add: pool_inv_def held_own_def held_once_def idle_ok_def new_pool_def)

text \<open>Handing an entry to a call: any entry that is neither held nor idle, with the call's headers.\<close>

definition pool_hold :: "nat \<Rightarrow> nat \<Rightarrow> headers \<Rightarrow> pool_state \<Rightarrow> pool_state" where
  "pool_hold c e hdrs s =
     s\<lparr>pl_headers := (pl_headers s)(e := hdrs), pl_held := (pl_held s)(c \<mapsto> (e, hdrs))\<rparr>"

lemma pool_hold_inv:
  assumes "pool_inv s" and "\<not> is_held s e" and "\<not> is_idle s e" and "e < pl_next s" and "pl_held s c = None"
  shows "pool_inv (pool_hold c e hdrs s)"
proof -
  have idle [simp]: "is_idle (pool_hold c e hdrs s) x = is_idle s x" for x
    by (simp add: is_idle_def pool_hold_def)
  have "held_own (pool_hold c e hdrs s)"
    unfolding held_own_def idle using assms unfolding pool_inv_def held_own_def is_held_def
    by (auto simp: pool_hold_def split: if_splits)
  moreover have "held_once (pool_hold c e hdrs s)"
    using assms unfolding pool_inv_def held_once_def is_held_def
    by (simp add: pool_hold_def) metis
  moreover have "idle_ok (pool_hold c e hdrs s)"
    using assms(1,3) unfolding pool_inv_def idle_ok_def is_idle_def by (auto simp: pool_hold_def)
  ultimately show ?thesis by (simp add: pool_inv_def)
qed

lemma pool_take_inv:
  assumes "pool_inv s" and "pool_take url s = (Some e, s1)"
  shows "pool_inv s1 \<and> \<not> is_held s1 e \<and> \<not> is_idle s1 e \<and> e < pl_next s1 \<and> pl_held s1 = pl_held s"
proof -
  obtain b where b: "pl_idle s url = Some b" "b \<noteq> []" "e = last b"
    "s1 = s\<lparr>pl_idle := (pl_idle s)(url \<mapsto> butlast b)\<rparr>"
    using assms(2) by (auto simp: pool_take_def split: option.splits if_splits)
  have ok: "idle_ok s" using assms(1) by (simp add: pool_inv_def)
  have bl: "b = butlast b @ [e]" using b(2,3) by simp
  have db: "distinct b" using ok b(1) by (simp add: idle_ok_def)
  have fresh: "e \<notin> set (butlast b)" "e \<in> set b"
    using db bl by (metis distinct_append disjoint_insert(1) list.set(2) inf_commute, metis in_set_conv_decomp)
  have urls: "pl_url s x = u" if "pl_idle s u = Some d" "x \<in> set d" for u d x
    using ok that by (auto simp: idle_ok_def)
  have sub: "is_idle s1 x \<Longrightarrow> is_idle s x" for x
    using b by (auto simp: is_idle_def dest: in_set_butlastD split: if_splits)
  have len: "length b \<le> pl_maxIdle s" using ok b(1) by (simp add: idle_ok_def)
  have "idle_ok s1"
    unfolding idle_ok_def
  proof (intro allI impI)
    fix u d
    assume d: "pl_idle s1 u = Some d"
    show "distinct d \<and> length d \<le> pl_maxIdle s1 \<and>
      (\<forall>y \<in> set d. pl_url s1 y = u \<and> pl_headers s1 y = [] \<and> y < pl_next s1)"
    proof (cases "u = url")
      case True
      with d b have db': "d = butlast b" by simp
      have "pl_url s y = url \<and> pl_headers s y = [] \<and> y < pl_next s" if "y \<in> set b" for y
        using ok b(1) that by (simp add: idle_ok_def)
      with db' db len True b(4) show ?thesis
        by (auto simp: distinct_butlast dest: in_set_butlastD)
    next
      case False
      with d b have "pl_idle s u = Some d" by simp
      with ok b(4) show ?thesis by (simp add: idle_ok_def)
    qed
  qed
  moreover have "held_own s1"
    using assms(1) b(4) sub by (auto simp: pool_inv_def held_own_def)
  moreover have "held_once s1" using assms(1) b(4) by (simp add: pool_inv_def held_once_def)
  moreover have "\<not> is_held s1 e"
    using assms(1) b(1,4) fresh(2) by (auto simp: pool_inv_def held_own_def is_held_def is_idle_def)
  moreover have "\<not> is_idle s1 e"
  proof
    assume "is_idle s1 e"
    then obtain u d where d: "pl_idle s1 u = Some d" "e \<in> set d" unfolding is_idle_def by blast
    with b(4) fresh(1) have "u \<noteq> url" by auto
    with d b(4) have "pl_idle s u = Some d" by simp
    then have "pl_url s e = u" using d(2) by (rule urls)
    with urls [OF b(1) fresh(2)] \<open>u \<noteq> url\<close> show False by simp
  qed
  moreover have "e < pl_next s1" using ok b(1,4) fresh(2) by (auto simp: idle_ok_def)
  ultimately show ?thesis using b(4) by (simp add: pool_inv_def)
qed

lemma pool_build_inv:
  assumes "pool_inv s" and "pool_build url hdrs s = (e, s1)"
  shows "pool_inv s1 \<and> \<not> is_held s1 e \<and> \<not> is_idle s1 e \<and> e < pl_next s1 \<and> pl_held s1 = pl_held s"
proof -
  have s1: "s1 = s\<lparr>pl_next := Suc e, pl_headers := (pl_headers s)(e := hdrs), pl_url := (pl_url s)(e := url)\<rparr>"
    "e = pl_next s"
    using assms(2) by (auto simp: pool_build_def)
  have idle: "is_idle s1 x = is_idle s x" for x by (simp add: s1 is_idle_def)
  have lt: "is_idle s x \<Longrightarrow> x < pl_next s" for x
    using assms(1) by (auto simp: pool_inv_def idle_ok_def is_idle_def)
  have hl: "pl_held s c = Some (x, h) \<Longrightarrow> x < pl_next s" for c x h
    using assms(1) by (auto simp: pool_inv_def held_own_def)
  have "held_own s1" unfolding held_own_def idle
    using assms(1) hl by (fastforce simp: s1 pool_inv_def held_own_def)
  moreover have "held_once s1" using assms(1) by (simp add: s1 pool_inv_def held_once_def)
  moreover have "idle_ok s1"
    using assms(1) by (fastforce simp: s1 pool_inv_def idle_ok_def)
  moreover have "\<not> is_held s1 e" using hl by (fastforce simp: s1 is_held_def)
  moreover have "\<not> is_idle s1 e" using lt [of e] unfolding idle s1(2) by auto
  ultimately show ?thesis by (simp add: pool_inv_def s1)
qed

lemma pool_begin_inv:
  assumes "pool_inv s" and "pl_held s c = None"
  shows "pool_inv (pool_begin c url hdrs s)"
proof (cases "pool_take url s")
  case (Pair o' s1)
  show ?thesis
  proof (cases o')
    case (Some e)
    with Pair have "pool_begin c url hdrs s = pool_hold c e hdrs s1" by (simp add: pool_begin_def pool_hold_def)
    with pool_take_inv [OF assms(1), of url e s1] Pair Some assms(2) show ?thesis by (simp add: pool_hold_inv)
  next
    case None
    with Pair have s1: "s1 = s" by (auto simp: pool_take_def split: option.splits if_splits)
    obtain e s2 where b: "pool_build url hdrs s = (e, s2)" by (metis surj_pair)
    with Pair None s1 have "pool_begin c url hdrs s = pool_hold c e hdrs s2"
      by (simp add: pool_begin_def pool_hold_def)
    with pool_build_inv [OF assms(1) b] assms(2) show ?thesis by (simp add: pool_hold_inv)
  qed
qed

lemma pool_end_inv:
  assumes "pool_inv s"
  shows "pool_inv (pool_end c ok s)"
proof (cases "pl_held s c")
  case None
  with assms show ?thesis by (simp add: pool_end_def)
next
  case (Some x)
  obtain e h where x: "x = (e, h)" by (metis surj_pair)
  let ?s1 = "s\<lparr>pl_held := (pl_held s)(c := None)\<rparr>"
  have held: "pl_held s c = Some (e, h)" using Some x by simp
  have once: "pl_held s c' = Some (e, h') \<Longrightarrow> c' = c" for c' h'
    using assms held by (auto simp: pool_inv_def held_once_def)
  have own: "e < pl_next s" "\<not> is_idle s e" using assms held by (auto simp: pool_inv_def held_own_def)
  have idle1: "is_idle ?s1 y = is_idle s y" for y by (simp add: is_idle_def)
  have less: "pl_held ?s1 d = Some z \<Longrightarrow> pl_held s d = Some z" for d z by (simp split: if_splits)
  have "held_once ?s1" unfolding held_once_def
  proof (intro allI impI)
    fix d d' y h h'
    assume "pl_held ?s1 d = Some (y, h)" and "pl_held ?s1 d' = Some (y, h')"
    then have "pl_held s d = Some (y, h)" and "pl_held s d' = Some (y, h')" using less by blast+
    with assms show "d = d'" unfolding pool_inv_def held_once_def by blast
  qed
  moreover have "held_own ?s1" using assms unfolding pool_inv_def held_own_def idle1 by simp
  moreover have "idle_ok ?s1" using assms unfolding pool_inv_def idle_ok_def by simp
  ultimately have inv1: "pool_inv ?s1" by (simp add: pool_inv_def)
  have discard: "pool_inv (pool_discard y t) = pool_inv t" for y t
    by (simp add: pool_inv_def held_own_def held_once_def idle_ok_def is_idle_def pool_discard_def)
  let ?s2 = "?s1\<lparr>pl_headers := (pl_headers s)(e := [])\<rparr>"
  have idle2: "is_idle ?s2 y = is_idle s y" for y by (simp add: is_idle_def)
  have "held_own ?s2"
    unfolding held_own_def
  proof (intro allI impI)
    fix c' y h'
    assume "pl_held ?s2 c' = Some (y, h')"
    then have y: "c' \<noteq> c" "pl_held s c' = Some (y, h')" by (simp_all split: if_splits)
    then have "y \<noteq> e" using once by blast
    with y(2) assms show "pl_headers ?s2 y = h' \<and> y < pl_next ?s2 \<and> \<not> is_idle ?s2 y"
      unfolding idle2 by (simp add: pool_inv_def held_own_def)
  qed
  moreover have "held_once ?s2" using inv1 held_once_cong [of ?s2 ?s1] by (simp add: pool_inv_def)
  moreover have "idle_ok ?s2" using inv1 by (simp add: pool_inv_def idle_ok_def)
  ultimately have inv2: "pool_inv ?s2" by (simp add: pool_inv_def)
  have "pool_inv (pool_give e ?s1)"
  proof (cases "pl_closed s \<or> pl_maxIdle s \<le> length (or_default (pl_idle s (pl_url s e)) [])")
    case True
    with inv1 inv2 show ?thesis by (auto simp: pool_give_def discard Let_def)
  next
    case False
    let ?b = "or_default (pl_idle s (pl_url s e)) []"
    let ?s3 = "?s2\<lparr>pl_idle := (pl_idle s)(pl_url s e \<mapsto> ?b @ [e])\<rparr>"
    have g: "pool_give e ?s1 = ?s3" using False by (simp add: pool_give_def Let_def)
    have ne: "e \<notin> set ?b" using own(2) by (cases "pl_idle s (pl_url s e)") (auto simp: is_idle_def)
    have bok: "distinct ?b \<and> (\<forall>y \<in> set ?b. pl_url s y = pl_url s e \<and> pl_headers s y = [] \<and> y < pl_next s)"
      using assms by (cases "pl_idle s (pl_url s e)") (auto simp: pool_inv_def idle_ok_def)
    have io: "idle_ok ?s3"
      unfolding idle_ok_def
    proof (intro allI impI)
      fix u d
      assume d: "pl_idle ?s3 u = Some d"
      show "distinct d \<and> length d \<le> pl_maxIdle ?s3 \<and>
        (\<forall>y \<in> set d. pl_url ?s3 y = u \<and> pl_headers ?s3 y = [] \<and> y < pl_next ?s3)"
      proof (cases "u = pl_url s e")
        case True
        with d have "d = ?b @ [e]" by simp
        then show ?thesis using True False ne bok own(1) by simp
      next
        case ne_u: False
        with d have "pl_idle ?s2 u = Some d" by simp
        with inv2 show ?thesis unfolding pool_inv_def idle_ok_def by fastforce
      qed
    qed
    have sub: "is_idle s y \<or> y = e" if idle3: "is_idle ?s3 y" for y
    proof -
      obtain u d where d: "pl_idle ?s3 u = Some d" "y \<in> set d" using idle3 by (auto simp only: is_idle_def)
      show ?thesis
      proof (cases "u = pl_url s e")
        case True
        with d have y: "y \<in> set ?b \<or> y = e" by auto
        show ?thesis
        proof (cases "pl_idle s (pl_url s e)")
          case None
          with y show ?thesis by simp
        next
          case (Some b)
          with y show ?thesis unfolding is_idle_def by auto
        qed
      next
        case False
        with d show ?thesis by (auto simp: is_idle_def)
      qed
    qed
    have "held_own ?s3"
      unfolding held_own_def
    proof (intro allI impI)
      fix c' y h'
      assume "pl_held ?s3 c' = Some (y, h')"
      then have y: "c' \<noteq> c" "pl_held s c' = Some (y, h')" by (auto split: if_splits)
      then have "y \<noteq> e" using once by blast
      with y assms sub [of y] show "pl_headers ?s3 y = h' \<and> y < pl_next ?s3 \<and> \<not> is_idle ?s3 y"
        by (auto simp: pool_inv_def held_own_def)
    qed
    moreover have "held_once ?s3" using inv2 held_once_cong [of ?s3 ?s2] by (simp add: pool_inv_def)
    ultimately show ?thesis unfolding g pool_inv_def using io by blast
  qed
  with inv1 held show ?thesis by (simp add: pool_end_def discard Let_def)
qed

lemma pool_close_inv: "pool_inv s \<Longrightarrow> pool_inv (pool_close urls s)"
  by (auto simp: pool_inv_def held_own_def held_once_def idle_ok_def is_idle_def pool_close_def)

lemma pool_apply_inv: "pool_inv s \<Longrightarrow> pool_enabled s ev \<Longrightarrow> pool_inv (pool_apply ev s)"
  by (cases ev)
    (simp_all add: pool_apply_def pool_enabled_def pool_begin_inv pool_end_inv pool_close_inv)

lemma pool_reachable_inv: "pool_reachable s \<Longrightarrow> pool_inv s"
  by (induction rule: pool_reachable.induct) (simp_all add: pool_inv_new pool_apply_inv)

text \<open>Only the end of a call takes its entry from it.\<close>

fun ends_call :: "nat \<Rightarrow> pool_event \<Rightarrow> bool" where
  "ends_call c (End_call d ok) = (c = d)"
| "ends_call c _ = False"

lemma pool_take_held [gw_frame]: "pool_take url s = (o', s1) \<Longrightarrow> pl_held s1 = pl_held s"
  by (auto simp: pool_take_def split: option.splits if_splits)

lemma pool_begin_held: "d \<noteq> c \<Longrightarrow> pl_held (pool_begin c url hdrs s) d = pl_held s d"
  by (auto simp: pool_begin_def pool_build_def split: prod.splits option.splits dest: pool_take_held)

lemma pool_begin_own: "\<exists>e. pl_held (pool_begin c url hdrs s) c = Some (e, hdrs)"
  by (auto simp: pool_begin_def pool_build_def split: prod.splits option.splits)

lemma pool_give_held [gw_frame]: "pl_held (pool_give e s) = pl_held s"
  by (simp add: pool_give_def pool_discard_def Let_def)

lemma pool_end_held: "d \<noteq> c \<Longrightarrow> pl_held (pool_end c ok s) d = pl_held s d"
  by (auto simp: pool_end_def pool_discard_def Let_def gw_frame split: option.splits)

lemma pool_apply_held:
  assumes "pl_held s c = Some x" and "pool_enabled s ev" and "\<not> ends_call c ev"
  shows "pl_held (pool_apply ev s) c = Some x"
proof (cases ev)
  case (Begin_call d url hdrs)
  with assms have "c \<noteq> d" by (auto simp: pool_enabled_def)
  with assms(1) Begin_call show ?thesis by (simp add: pool_apply_def pool_begin_held)
next
  case (End_call d ok)
  with assms have "c \<noteq> d" by simp
  with assms(1) End_call show ?thesis by (simp add: pool_apply_def pool_end_held)
next
  case (Close_pool urls)
  with assms(1) show ?thesis by (simp add: pool_apply_def pool_close_def)
qed

lemma pool_run_held:
  "pool_run evs s = Some s' \<Longrightarrow> pool_reachable s \<Longrightarrow> pl_held s c = Some x \<Longrightarrow>
     \<not> list_ex (ends_call c) evs \<Longrightarrow> pl_held s' c = Some x \<and> pool_reachable s'"
proof (induction evs arbitrary: s)
  case (Cons ev evs)
  then have en: "pool_enabled s ev" and run: "pool_run evs (pool_apply ev s) = Some s'"
    by (simp_all split: if_splits)
  from Cons.prems en have "pl_held (pool_apply ev s) c = Some x" by (simp add: pool_apply_held)
  with Cons.IH [OF run] Cons.prems(2,4) en show ?case by (simp add: pool_reachable.step)
qed simp

section \<open>Properties\<close>

text \<open>C12: whatever calls begin, end, fail or close the pool in between, a request of a call in
  progress carries exactly the headers that call was made with, and no other call holds the same
  connection: pooling never sends one caller's token on another caller's request.\<close>

theorem pool_sends_own_headers:
  assumes "pool_reachable s" and "pl_held s c = None"
    and "pool_run evs (pool_begin c (uc_url call) (call_headers trace call) s) = Some s'"
    and "\<not> list_ex (ends_call c) evs"
  shows "pool_send c s' = Some (call_headers trace call)
    \<and> (\<exists>e. pl_held s' c = Some (e, call_headers trace call)
         \<and> (\<forall>d h. d \<noteq> c \<longrightarrow> pl_held s' d \<noteq> Some (e, h)))"
proof -
  let ?h = "call_headers trace call"
  let ?s1 = "pool_begin c (uc_url call) ?h s"
  obtain e where e: "pl_held ?s1 c = Some (e, ?h)" using pool_begin_own by blast
  have "pool_reachable ?s1"
    using pool_reachable.step [OF assms(1), of "Begin_call c (uc_url call) ?h"] assms(2)
    by (simp add: pool_enabled_def pool_apply_def)
  from pool_run_held [OF assms(3) this e assms(4)]
  have held: "pl_held s' c = Some (e, ?h)" and inv: "pool_inv s'"
    using pool_reachable_inv by blast+
  have "pl_headers s' e = ?h" using held inv by (simp add: pool_inv_def held_own_def)
  moreover have "\<forall>d h. d \<noteq> c \<longrightarrow> pl_held s' d \<noteq> Some (e, h)"
    using held inv unfolding pool_inv_def held_once_def by blast
  ultimately show ?thesis using held by (simp add: pool_send_def)
qed

definition demo_upstream_call :: upstream_call where
  "demo_upstream_call = \<lparr>uc_url = ''http://pg/mcp'', uc_server = ''postgres'', uc_toolName = ''pg.query'',
     uc_arguments = JObj [], uc_accessToken = ''tok-a'', uc_timeoutMs = None\<rparr>"

theorem pool_sends_own_headers_witness:
  "pool_send 2 (the (pool_run [Begin_call 3 ''http://pg/mcp'' [(''authorization'', ''Bearer tok-b'')], End_call 3 False]
     (pool_begin 2 (uc_url demo_upstream_call) (call_headers [] demo_upstream_call) (new_pool (Some 1)))))
   = Some [(''authorization'', ''Bearer tok-a'')]"
proof -
  let ?evs = "[Begin_call 3 ''http://pg/mcp'' [(''authorization'', ''Bearer tok-b'')], End_call 3 False]"
  let ?s = "pool_begin 2 (uc_url demo_upstream_call) (call_headers [] demo_upstream_call) (new_pool (Some 1))"
  have run: "pool_run ?evs ?s = Some (the (pool_run ?evs ?s))"
    by (simp add: pool_enabled_def pool_begin_def pool_take_def pool_build_def new_pool_def demo_upstream_call_def)
  have free: "pl_held (new_pool (Some 1)) 2 = None" by (simp add: new_pool_def)
  have none: "\<not> list_ex (ends_call 2) ?evs" by simp
  have h: "call_headers [] demo_upstream_call = [(''authorization'', ''Bearer tok-a'')]" by code_simp
  from pool_sends_own_headers [OF pool_reachable.init free run none] h show ?thesis by simp
qed

text \<open>C32: a connection waiting in the pool holds no credential and no call, is filed under its own
  destination, is there once, and no destination keeps more of them than the configured maximum.\<close>

theorem pool_idle_entries:
  assumes "pool_reachable s" and "pl_idle s url = Some bucket"
  shows "distinct bucket \<and> length bucket \<le> pl_maxIdle s
    \<and> list_all (\<lambda>e. pl_headers s e = [] \<and> pl_url s e = url) bucket
    \<and> (\<forall>c e h. pl_held s c = Some (e, h) \<longrightarrow> e \<notin> set bucket)"
proof -
  have inv: "pool_inv s" using assms(1) by (rule pool_reachable_inv)
  then have "\<forall>c e h. pl_held s c = Some (e, h) \<longrightarrow> e \<notin> set bucket"
    using assms(2) unfolding pool_inv_def held_own_def is_idle_def by blast
  with inv assms(2) show ?thesis by (simp add: pool_inv_def idle_ok_def list_all_iff)
qed

theorem pool_idle_entries_witness:
  "length (the (pl_idle (pool_end 3 True (pool_begin 3 ''u'' [(''a'', ''b'')] (new_pool (Some 1)))) ''u'')) \<le> 1"
proof -
  let ?s = "pool_end 3 True (pool_begin 3 ''u'' [(''a'', ''b'')] (new_pool (Some 1)))"
  have "pool_reachable (pool_apply (End_call 3 True) (pool_apply (Begin_call 3 ''u'' [(''a'', ''b'')]) (new_pool (Some 1))))"
    by (intro pool_reachable.intros) (simp_all add: pool_enabled_def new_pool_def)
  then have r: "pool_reachable ?s" by (simp add: pool_apply_def)
  have i: "pl_idle ?s ''u'' = Some [0]" and m: "pl_maxIdle ?s = 1"
    by (simp_all add: pool_end_def pool_begin_def pool_take_def pool_build_def pool_give_def new_pool_def Let_def)
  from pool_idle_entries [OF r i] show ?thesis unfolding i m by simp
qed

end
