(* ===== verification/Gw_Stream.thy ===== *)
theory Gw_Stream
  imports Gw_Domain Audit_Chain
begin

text \<open>
  The live view (\<open>apps/gateway/src/stream.ts\<close> and the \<open>/api/stream\<close> route of \<open>routes/api.ts\<close>): the
  events, the bounded history with its listeners, and what a connected console receives. Listeners
  are numbers; a publication returns what each listener is handed.
\<close>

section \<open>Events\<close>

text \<open>A policy decision as the gateway keeps it (its trace is always empty there), a rate limit
  verdict, and the note on the token exchange; its duration is left out.\<close>

record policy_decision =
  pc_decision :: decision
  pc_ruleId :: string
  pc_reason :: string
  pc_rateTier :: "string option"

record rate_verdict =
  rv_allowed :: bool
  rv_remaining :: int
  rv_limit :: int
  rv_retryAfterMs :: int
  rv_scope :: string

record exchange_note =
  xn_cached :: bool
  xn_audience :: string
  xn_downstreamSubject :: string

record invocation_event =
  ev_id :: string
  ev_ts :: string
  ev_tenantId :: string
  ev_tenantName :: "string option"
  ev_userId :: string
  ev_userName :: "string option"
  ev_server :: string
  ev_tool :: string
  ev_decision :: decision
  ev_denyReason :: "string option"
  ev_latencyMs :: js_num
  ev_traceId :: "string option"
  ev_tokenExchange :: "exchange_note option"
  ev_policy :: "policy_decision option"
  ev_rateLimit :: "rate_verdict option"

section \<open>The stream\<close>

record invocation_stream =
  st_listeners :: "nat list"
  st_history :: "invocation_event list"
  st_historySize :: nat

definition new_stream :: "nat option \<Rightarrow> invocation_stream" where
  "new_stream historySize = \<lparr>st_listeners = [], st_history = [], st_historySize = or_default historySize 200\<rparr>"

definition stream_publish ::
    "invocation_event \<Rightarrow> invocation_stream \<Rightarrow> (nat \<times> invocation_event) list \<times> invocation_stream" where
  "stream_publish e s =
     (let history = st_history s @ [e];
          kept = (if st_historySize s < length history
                  then drop (length history - st_historySize s) history else history)
      in (map (\<lambda>l. (l, e)) (st_listeners s), s\<lparr>st_history := kept\<rparr>))"

definition stream_subscribe :: "nat \<Rightarrow> invocation_stream \<Rightarrow> invocation_stream" where
  "stream_subscribe l s =
     (if l \<in> set (st_listeners s) then s else s\<lparr>st_listeners := st_listeners s @ [l]\<rparr>)"

definition stream_unsubscribe :: "nat \<Rightarrow> invocation_stream \<Rightarrow> invocation_stream" where
  "stream_unsubscribe l s = s\<lparr>st_listeners := filter (\<lambda>k. k \<noteq> l) (st_listeners s)\<rparr>"

definition stream_close :: "invocation_stream \<Rightarrow> invocation_stream" where
  "stream_close s = s\<lparr>st_listeners := []\<rparr>"

definition stream_recent :: "nat option \<Rightarrow> string option \<Rightarrow> invocation_stream \<Rightarrow> invocation_event list" where
  "stream_recent limit tenantId s =
     slice_last (or_default limit 50)
       (case tenantId of
          None \<Rightarrow> st_history s
        | Some tn \<Rightarrow> if tn = [] then st_history s
                     else filter (\<lambda>e. ev_tenantId e = tn) (st_history s))"

section \<open>A console\<close>

text \<open>Connecting replays the recent events of the console's tenant and subscribes its listener,
  which lets the events of that tenant through.\<close>

definition console_connect ::
    "nat \<Rightarrow> string \<Rightarrow> invocation_stream \<Rightarrow> invocation_event list \<times> invocation_stream" where
  "console_connect l tenantId s = (stream_recent (Some 30) (Some tenantId) s, stream_subscribe l s)"

definition console_frames ::
    "nat \<Rightarrow> string \<Rightarrow> (nat \<times> invocation_event) list \<Rightarrow> invocation_event list" where
  "console_frames l tenantId ds = map snd (filter (\<lambda>(k, e). k = l \<and> ev_tenantId e = tenantId) ds)"

datatype stream_event = Publish invocation_event | Subscribe nat | Unsubscribe nat

fun stream_run ::
    "stream_event list \<Rightarrow> invocation_stream \<Rightarrow> (nat \<times> invocation_event) list \<times> invocation_stream" where
  "stream_run [] s = ([], s)"
| "stream_run (Publish e # evs) s =
     (let (ds, s1) = stream_publish e s; (ds', s2) = stream_run evs s1 in (ds @ ds', s2))"
| "stream_run (Subscribe l # evs) s = stream_run evs (stream_subscribe l s)"
| "stream_run (Unsubscribe l # evs) s = stream_run evs (stream_unsubscribe l s)"

lemma stream_run_Publish [simp]:
  "fst (stream_run (Publish e # evs) s) =
     fst (stream_publish e s) @ fst (stream_run evs (snd (stream_publish e s)))"
  "snd (stream_run (Publish e # evs) s) = snd (stream_run evs (snd (stream_publish e s)))"
  by (simp_all split: prod.splits)

fun published :: "stream_event list \<Rightarrow> invocation_event list" where
  "published [] = []"
| "published (Publish e # evs) = e # published evs"
| "published (_ # evs) = published evs"

section \<open>The history is the end of what was published\<close>

definition last_n :: "nat \<Rightarrow> 'a list \<Rightarrow> 'a list" where
  "last_n n xs = drop (length xs - n) xs"

lemma last_n_snoc: "last_n n (last_n n xs @ [x]) = last_n n (xs @ [x])"
proof (cases "n \<le> length xs")
  case True
  then have "length (last_n n xs) = n" by (simp add: last_n_def)
  then have "last_n n (last_n n xs @ [x]) = drop 1 (last_n n xs @ [x])" by (simp add: last_n_def)
  also have "\<dots> = last_n n (xs @ [x])"
  proof (cases n)
    case (Suc m)
    with True have "Suc (length xs - n) = length xs - m" by arith
    with Suc True show ?thesis by (simp add: last_n_def)
  qed (simp add: last_n_def)
  finally show ?thesis .
next
  case False
  then show ?thesis by (simp add: last_n_def)
qed

lemma publish_history: "st_history (snd (stream_publish e s)) = last_n (st_historySize s) (st_history s @ [e])"
  by (simp add: stream_publish_def last_n_def Let_def)

lemma stream_frame [simp]:
  "st_historySize (snd (stream_publish e s)) = st_historySize s"
  "st_listeners (snd (stream_publish e s)) = st_listeners s"
  "st_historySize (stream_subscribe l s) = st_historySize s"
  "st_history (stream_subscribe l s) = st_history s"
  "st_historySize (stream_unsubscribe l s) = st_historySize s"
  "st_history (stream_unsubscribe l s) = st_history s"
  by (simp_all add: stream_publish_def stream_subscribe_def stream_unsubscribe_def Let_def)

lemma stream_run_history:
  "st_history s = last_n (st_historySize s) xs \<Longrightarrow>
     st_history (snd (stream_run evs s)) = last_n (st_historySize s) (xs @ published evs)"
proof (induction evs arbitrary: s xs)
  case (Cons ev evs)
  show ?case
  proof (cases ev)
    case (Publish e)
    with Cons.prems have "st_history (snd (stream_publish e s)) = last_n (st_historySize s) (xs @ [e])"
      by (simp add: publish_history last_n_snoc)
    with Cons.IH [of "snd (stream_publish e s)" "xs @ [e]"] Publish show ?thesis
      by (simp del: stream_run.simps)
  qed (use Cons in simp_all)
qed simp

fun leaves :: "nat \<Rightarrow> stream_event \<Rightarrow> bool" where
  "leaves l (Unsubscribe k) = (k = l)"
| "leaves l _ = False"

lemma console_frames_append: "console_frames l tn (ds @ ds') = console_frames l tn ds @ console_frames l tn ds'"
  by (simp add: console_frames_def)

lemma console_frames_publish:
  "distinct ls \<Longrightarrow> console_frames l tn (map (\<lambda>k. (k, e)) ls) =
     (if l \<in> set ls \<and> ev_tenantId e = tn then [e] else [])"
  by (induction ls) (auto simp: console_frames_def)

lemma distinct_subscribe: "distinct (st_listeners s) \<Longrightarrow> distinct (st_listeners (stream_subscribe l s))"
  by (simp add: stream_subscribe_def)

lemma stream_run_frames:
  "distinct (st_listeners s) \<Longrightarrow> l \<in> set (st_listeners s) \<Longrightarrow> \<not> list_ex (leaves l) evs \<Longrightarrow>
     console_frames l tn (fst (stream_run evs s)) = filter (\<lambda>e. ev_tenantId e = tn) (published evs)"
proof (induction evs arbitrary: s)
  case (Cons ev evs)
  show ?case
  proof (cases ev)
    case (Publish e)
    have ds: "fst (stream_publish e s) = map (\<lambda>k. (k, e)) (st_listeners s)"
      by (simp add: stream_publish_def Let_def)
    from Cons.IH [of "snd (stream_publish e s)"] Cons.prems Publish show ?thesis
      by (simp add: console_frames_append ds console_frames_publish del: stream_run.simps)
  next
    case (Subscribe k)
    with Cons show ?thesis by (simp add: distinct_subscribe stream_subscribe_def)
  next
    case (Unsubscribe k)
    with Cons show ?thesis by (simp add: stream_unsubscribe_def)
  qed
qed (simp add: console_frames_def)

lemma stream_run_distinct: "distinct (st_listeners s) \<Longrightarrow> distinct (st_listeners (snd (stream_run evs s)))"
proof (induction evs arbitrary: s)
  case (Cons ev evs)
  show ?case
    by (cases ev) (use Cons in \<open>simp_all add: distinct_subscribe stream_unsubscribe_def del: stream_run.simps(2)\<close>)
qed simp

section \<open>Properties\<close>

text \<open>C33: a console that connects after any activity and stays connected receives the last thirty
  events of its tenant among those the history has kept, and after them every event of its tenant
  that is published later, each once and in order, and no event of another tenant.\<close>

theorem console_receives:
  assumes "tn \<noteq> []" and "console_connect l tn (snd (stream_run before (new_stream capacity))) = (replay, s)"
    and "\<not> list_ex (leaves l) after"
  shows "replay @ console_frames l tn (fst (stream_run after s)) =
    slice_last 30 (filter (\<lambda>e. ev_tenantId e = tn) (last_n (or_default capacity 200) (published before)))
    @ filter (\<lambda>e. ev_tenantId e = tn) (published after)"
proof -
  let ?s0 = "new_stream capacity" and ?s1 = "snd (stream_run before (new_stream capacity))"
  have "st_history ?s0 = last_n (st_historySize ?s0) []" by (simp add: new_stream_def last_n_def)
  from stream_run_history [OF this, of before]
  have h: "st_history ?s1 = last_n (or_default capacity 200) (published before)" by (simp add: new_stream_def)
  have "distinct (st_listeners ?s1)" by (rule stream_run_distinct) (simp add: new_stream_def)
  then have d: "distinct (st_listeners s)" and l: "l \<in> set (st_listeners s)"
    using assms(2) by (auto simp: console_connect_def stream_subscribe_def)
  have "replay = slice_last 30 (filter (\<lambda>e. ev_tenantId e = tn) (st_history ?s1))"
    using assms(1,2) by (auto simp: console_connect_def stream_recent_def)
  with h stream_run_frames [OF d l assms(3)] show ?thesis by simp
qed

definition demo_event :: "string \<Rightarrow> string \<Rightarrow> invocation_event" where
  "demo_event i tn = \<lparr>ev_id = i, ev_ts = [], ev_tenantId = tn, ev_tenantName = None, ev_userId = ''u'',
     ev_userName = None, ev_server = ''postgres'', ev_tool = ''pg.query'', ev_decision = Allow,
     ev_denyReason = None, ev_latencyMs = JFin 1, ev_traceId = None, ev_tokenExchange = None,
     ev_policy = None, ev_rateLimit = None\<rparr>"

theorem console_receives_witness:
  "map ev_id (fst (console_connect 1 ''a'' (snd (stream_run (map Publish [demo_event ''1'' ''a'', demo_event ''2'' ''b'', demo_event ''3'' ''a'']) (new_stream (Some 2)))))
     @ console_frames 1 ''a'' (fst (stream_run [Publish (demo_event ''4'' ''b''), Subscribe 7, Publish (demo_event ''5'' ''a'')]
         (snd (console_connect 1 ''a'' (snd (stream_run (map Publish [demo_event ''1'' ''a'', demo_event ''2'' ''b'', demo_event ''3'' ''a'']) (new_stream (Some 2)))))))))
   = [''3'', ''5'']"
proof -
  let ?before = "map Publish [demo_event ''1'' ''a'', demo_event ''2'' ''b'', demo_event ''3'' ''a'']"
  let ?after = "[Publish (demo_event ''4'' ''b''), Subscribe 7, Publish (demo_event ''5'' ''a'')]"
  let ?c = "console_connect 1 ''a'' (snd (stream_run ?before (new_stream (Some 2))))"
  have c: "?c = (fst ?c, snd ?c)" by simp
  have "map ev_id (slice_last 30 (filter (\<lambda>e. ev_tenantId e = ''a'') (last_n (or_default (Some 2) 200) (published ?before)))
      @ filter (\<lambda>e. ev_tenantId e = ''a'') (published ?after)) = [''3'', ''5'']"
    by code_simp
  with console_receives [OF _ c, of ?after] show ?thesis by simp
qed

end
