(* ===== verification/Gw_Stages.thy ===== *)
theory Gw_Stages
  imports Gw_Stream Audit_Log Rate_Limit Token_Exchange Client_Pool
begin

text \<open>
  The stages of the gateway's enforcement path (\<open>apps/gateway/src/plugins\<close> and \<open>routes/tools.ts\<close>),
  with the tool catalogue (\<open>catalog.ts\<close>), the request's state (\<open>context.ts\<close>) and the targets
  (\<open>services.ts\<close>). A stage takes the request and the gateway's shared state, and returns what it
  throws, if it throws, with both updated. What other systems answer while a stage runs (the clock,
  the tenants table, the exchange service, the MCP servers) is in the record of answers it is given;
  what the gateway sends to them on behalf of a request is kept in the order it is sent.
\<close>

section \<open>Catalogue and targets\<close>

record catalog_entry =
  ca_name :: string
  ca_server :: server_id
  ca_title :: string
  ca_description :: string
  ca_requiredScopes :: "string list"
  ca_readOnly :: bool

definition catalog_row ::
    "string \<Rightarrow> server_id \<Rightarrow> string \<Rightarrow> string \<Rightarrow> string \<Rightarrow> bool \<Rightarrow> catalog_entry" where
  "catalog_row n s title description scope ro = \<lparr>ca_name = n, ca_server = s, ca_title = title,
     ca_description = description, ca_requiredScopes = [scope], ca_readOnly = ro\<rparr>"

definition TOOL_CATALOG :: "catalog_entry list" where
  "TOOL_CATALOG =
     [catalog_row ''sf.query'' Salesforce ''Run a SOQL query''
        ''Query Account, Contact, Opportunity or Task. Results are limited to the records the caller may see.''
        ''salesforce:read'' True,
      catalog_row ''sf.get_contact'' Salesforce ''Get a contact''
        ''Fetch one contact by id, with the account it belongs to.''
        ''salesforce:read'' True,
      catalog_row ''sf.list_opportunities'' Salesforce ''List opportunities''
        ''Pipeline summary and opportunity list, filtered by stage, value or close date.''
        ''salesforce:read'' True,
      catalog_row ''sf.create_task'' Salesforce ''Create a follow-up task''
        ''Create a task owned by the caller against a record they can see.''
        ''salesforce:write'' False,
      catalog_row ''pg.list_tables'' Postgres ''List warehouse tables''
        ''Available warehouse tables and how many rows each exposes to the caller.''
        ''postgres:read'' True,
      catalog_row ''pg.describe_table'' Postgres ''Describe a warehouse table''
        ''Columns of a warehouse table and the row-level security applied to it.''
        ''postgres:read'' True,
      catalog_row ''pg.query'' Postgres ''Run a read-only warehouse query''
        ''Execute a single SELECT against the warehouse under the caller own database role.''
        ''postgres:query'' True,
      catalog_row ''policy.explain'' Policy_engine ''Explain a policy decision''
        ''Evaluate a hypothetical call and return every rule that was considered.''
        ''policy:evaluate'' True,
      catalog_row ''policy.list_rules'' Policy_engine ''List policy rules''
        ''The rules in a bundle, in evaluation order.''
        ''policy:read'' True]"

definition findTool :: "string \<Rightarrow> catalog_entry option" where
  "findTool name = map_of (rev (map (\<lambda>e. (ca_name e, e)) TOOL_CATALOG)) name"

definition toolsForServer :: "server_id \<Rightarrow> catalog_entry list" where
  "toolsForServer server = filter (\<lambda>e. ca_server e = server) TOOL_CATALOG"

record mcp_target =
  tg_id :: server_id
  tg_url :: string
  tg_audience :: string
  tg_namespace :: string

text \<open>The targets, with the addresses the configuration names.\<close>

definition mcp_targets :: "(server_id \<Rightarrow> string) \<Rightarrow> server_id \<Rightarrow> mcp_target" where
  "mcp_targets urls s = (case s of
     Salesforce \<Rightarrow> \<lparr>tg_id = s, tg_url = urls s, tg_audience = ''mcp:salesforce'', tg_namespace = ''salesforce''\<rparr>
   | Postgres \<Rightarrow> \<lparr>tg_id = s, tg_url = urls s, tg_audience = ''mcp:postgres'', tg_namespace = ''postgres''\<rparr>
   | Policy_engine \<Rightarrow> \<lparr>tg_id = s, tg_url = urls s, tg_audience = ''mcp:policy-engine'', tg_namespace = ''policy''\<rparr>)"

text \<open>\<open>GET /v1/tools\<close>: the catalogue with what this caller may use.\<close>

definition listed_tools :: "principal option \<Rightarrow> (catalog_entry \<times> bool) list" where
  "listed_tools p = map (\<lambda>e. (e, list_all (hasScope (case p of None \<Rightarrow> [] | Some q \<Rightarrow> pn_scopes q))
     (ca_requiredScopes e))) TOOL_CATALOG"

definition listed_servers :: "(server_id \<Rightarrow> string) \<Rightarrow> (server_id \<times> string \<times> catalog_entry list) list" where
  "listed_servers urls = map (\<lambda>s. (s, tg_audience (mcp_targets urls s), toolsForServer s))
     [Salesforce, Postgres, Policy_engine]"

section \<open>The request and the shared state\<close>

record tenant_record =
  tr_id :: string
  tr_name :: string
  tr_plan :: string

record invocation_state =
  inv_server :: server_id
  inv_tool :: string
  inv_args :: "(string \<times> jval) list"
  inv_policy :: "policy_decision option"
  inv_rateLimit :: "rate_verdict option"
  inv_tokenExchange :: "mirrored_token option"
  inv_decision :: decision
  inv_denyReason :: "string option"
  inv_upstreamLatencyMs :: "js_num option"
  inv_audited :: bool

record gw_request =
  rq_requestId :: string
  rq_authorization :: "string option"
  rq_sessionCookie :: "string option"
  rq_server :: string
  rq_tool :: string
  rq_body :: jval
  rq_principal :: "principal option"
  rq_inboundToken :: "string option"
  rq_tenant :: "tenant_record option"
  rq_invocation :: "invocation_state option"

record session_record =
  se_subject :: string
  se_tenantId :: string
  se_email :: string
  se_name :: string
  se_role :: role
  se_accessToken :: string
  se_refreshToken :: "string option"
  se_expiresAt :: js_num
  se_scopes :: "string list"
  se_createdAt :: int

text \<open>What the session keys of Redis hold: a record as JSON, or text that is not JSON.\<close>

datatype session_text = Session session_record | Session_garbled

type_synonym session_store = "string \<Rightarrow> (session_text \<times> int) option"

datatype sent = Called upstream_call | Appended append_input | Announced invocation_event

record gateway =
  gw_tenants :: "string \<Rightarrow> (tenant_record \<times> int) option"
  gw_sessions :: session_store
  gw_limiter :: "limiter \<times> redis_server"
  gw_limits :: config_store
  gw_audit :: audit_db
  gw_stream :: invocation_stream
  gw_sent :: "(nat \<times> sent) list"

text \<open>The configuration and the functions that stand for the JWT library and the digest.\<close>

record gw_env =
  en_issuer :: string
  en_urls :: "server_id \<Rightarrow> string"
  en_verify :: "string \<Rightarrow> jwt_options \<Rightarrow> thrown + claims"
  en_rnd :: "rat \<Rightarrow> rat"
  en_script_sha :: string
  en_sha :: "string \<Rightarrow> string"
  en_fmt :: "rat \<Rightarrow> string"
  en_capturePayloads :: bool

text \<open>What a stage is answered: whether Redis fails and with which message, the time before and after
  the tenants table is read and its answer, the outcome of the token exchange, the answer of the MCP
  server and its latency, and for the audit row the identifier, time, latency, trace and what the
  database refuses.\<close>

record answers =
  an_redis :: "string option"
  an_now :: int
  an_later :: int
  an_tenant :: "(thrown, tenant_record option) result"
  an_mint :: "(thrown, mirrored_token) result"
  an_upstream :: "(thrown, jval) result"
  an_upstreamMs :: js_num
  an_rowId :: string
  an_latencyMs :: js_num
  an_traceId :: "string option"
  an_refuses :: "raw_row \<Rightarrow> bool"
  an_refuses_json :: "string \<Rightarrow> bool"

type_synonym staged = "thrown option \<times> gw_request \<times> gateway"

definition redis_failed :: "string \<Rightarrow> thrown" where
  "redis_failed msg = Thrown_error ''Error'' msg"

section \<open>Authentication\<close>

definition session_get ::
    "int \<Rightarrow> string option \<Rightarrow> session_store \<Rightarrow> session_record option \<times> session_store" where
  "session_get now i m = (case i of
     None \<Rightarrow> (None, m)
   | Some k \<Rightarrow>
       if k = [] then (None, m)
       else (case m (''sess:'' @ k) of
           None \<Rightarrow> (None, m)
         | Some (v, until) \<Rightarrow>
             if until \<le> now then (None, m)
             else (case v of
                 Session r \<Rightarrow> (Some r, m)
               | Session_garbled \<Rightarrow> (None, map_del m (''sess:'' @ k)))))"

definition no_credential :: gateway_error where
  "no_credential = UnauthenticatedError
     ''Present an access token as a bearer credential, or sign in to the console.'' []"

definition authenticate_token ::
    "gw_env \<Rightarrow> string option \<Rightarrow> gw_request \<Rightarrow> gateway \<Rightarrow> staged" where
  "authenticate_token en token rq gw = (case token of
     None \<Rightarrow> (Some (Thrown_gateway no_credential), rq, gw)
   | Some t \<Rightarrow>
       if t = [] then (Some (Thrown_gateway no_credential), rq, gw)
       else (case verifyAccessToken (en_verify en) t
              \<lparr>vo_issuer = en_issuer en, vo_audience = None, vo_clockToleranceSeconds = None\<rparr> of
           Inl e \<Rightarrow> (Some (Thrown_gateway e), rq, gw)
         | Inr (cl, p) \<Rightarrow> (None, rq\<lparr>rq_principal := Some p, rq_inboundToken := Some t\<rparr>, gw)))"

definition authenticate :: "gw_env \<Rightarrow> answers \<Rightarrow> gw_request \<Rightarrow> gateway \<Rightarrow> staged" where
  "authenticate en an rq gw = (case extractBearer (rq_authorization rq) of
     Some t \<Rightarrow> authenticate_token en (Some t) rq gw
   | None \<Rightarrow>
       if rq_sessionCookie rq \<in> {None, Some []} then authenticate_token en None rq gw
       else (case an_redis an of
           Some msg \<Rightarrow> (Some (redis_failed msg), rq, gw)
         | None \<Rightarrow>
             (let (session, store) = session_get (an_now an) (rq_sessionCookie rq) (gw_sessions gw)
              in authenticate_token en (map_option se_accessToken session) rq (gw\<lparr>gw_sessions := store\<rparr>))))"

section \<open>Tenant context\<close>

definition TENANT_CACHE_TTL_MS :: int where
  "TENANT_CACHE_TTL_MS = 30000"

definition resolveTenant :: "answers \<Rightarrow> gw_request \<Rightarrow> gateway \<Rightarrow> staged" where
  "resolveTenant an rq gw = (case rq_principal rq of
     None \<Rightarrow> (Some (Thrown_gateway (UnauthenticatedError ''Tenant context requires an authenticated caller'' [])), rq, gw)
   | Some p \<Rightarrow>
       (let cached = (case gw_tenants gw (pn_tenantId p) of
                None \<Rightarrow> None | Some (r, expiresAt) \<Rightarrow> if an_now an < expiresAt then Some r else None)
        in case cached of
          Some r \<Rightarrow> (None, rq\<lparr>rq_tenant := Some r\<rparr>, gw)
        | None \<Rightarrow> (case an_tenant an of
            Inl t \<Rightarrow> (Some t, rq, gw)
          | Inr None \<Rightarrow> (Some (Thrown_gateway (NotFoundError (''Tenant '' @ pn_tenantId p))), rq, gw)
          | Inr (Some r) \<Rightarrow>
              (None, rq\<lparr>rq_tenant := Some r\<rparr>,
               gw\<lparr>gw_tenants := map_set (gw_tenants gw) (pn_tenantId p) (r, an_later an + TENANT_CACHE_TTL_MS)\<rparr>))))"

section \<open>The invocation\<close>

text \<open>\<open>callSchema\<close> on the body: the arguments object, empty when absent; a body the schema rejects
  counts as empty arguments too.\<close>

definition call_arguments :: "jval \<Rightarrow> (string \<times> jval) list" where
  "call_arguments body = (case body of
     JObj kvs \<Rightarrow> (case own_prop kvs ''arguments'' of JObj args \<Rightarrow> args | _ \<Rightarrow> [])
   | _ \<Rightarrow> [])"

definition new_invocation :: "server_id \<Rightarrow> string \<Rightarrow> (string \<times> jval) list \<Rightarrow> invocation_state" where
  "new_invocation server tool args =
     \<lparr>inv_server = server, inv_tool = tool, inv_args = args, inv_policy = None, inv_rateLimit = None,
      inv_tokenExchange = None, inv_decision = Allow, inv_denyReason = None,
      inv_upstreamLatencyMs = None, inv_audited = False\<rparr>"

definition missing_scopes :: "catalog_entry \<Rightarrow> principal option \<Rightarrow> string list" where
  "missing_scopes entry p =
     filter (\<lambda>s. \<not> hasScope (case p of None \<Rightarrow> [] | Some q \<Rightarrow> pn_scopes q) s) (ca_requiredScopes entry)"

definition deny_with :: "string \<Rightarrow> invocation_state \<Rightarrow> invocation_state" where
  "deny_with reason i = i\<lparr>inv_decision := Deny, inv_denyReason := Some reason\<rparr>"

definition establish :: "gw_request \<Rightarrow> gateway \<Rightarrow> staged" where
  "establish rq gw = (case parse_server (rq_server rq) of
     None \<Rightarrow> (Some (Thrown_gateway (NotFoundError ''Server or tool'')), rq, gw)
   | Some server \<Rightarrow>
       if rq_tool rq = [] then (Some (Thrown_gateway (NotFoundError ''Server or tool'')), rq, gw)
       else (case findTool (rq_tool rq) of
           None \<Rightarrow> (Some (Thrown_gateway (NotFoundError (''Tool '' @ rq_tool rq))), rq, gw)
         | Some entry \<Rightarrow>
             if ca_server entry \<noteq> server
             then (Some (Thrown_gateway (NotFoundError (''Tool '' @ rq_tool rq))), rq, gw)
             else (let i = new_invocation server (rq_tool rq) (call_arguments (rq_body rq));
                       missing = missing_scopes entry (rq_principal rq)
                   in if missing = [] then (None, rq\<lparr>rq_invocation := Some i\<rparr>, gw)
                      else (Some (Thrown_gateway (ScopeDeniedError missing
                              (case rq_principal rq of None \<Rightarrow> [] | Some p \<Rightarrow> pn_scopes p))),
                            rq\<lparr>rq_invocation := Some (deny_with (''scope:'' @ join '','' missing) i)\<rparr>, gw))))"

section \<open>Rate limit\<close>

definition verdict_of :: "limit_outcome \<Rightarrow> rate_verdict" where
  "verdict_of o' = \<lparr>rv_allowed = lo_allowed o', rv_remaining = lv_remaining (lo_verdict o'),
     rv_limit = lv_limit (lo_verdict o'), rv_retryAfterMs = lv_retryAfterMs (lo_verdict o'),
     rv_scope = lv_scope (lo_verdict o')\<rparr>"

text \<open>The tier of the policy decision counts only if it is not the empty string.\<close>

definition stage_tier :: "invocation_state \<Rightarrow> string option" where
  "stage_tier i = (case inv_policy i of None \<Rightarrow> None | Some d \<Rightarrow>
     if pc_rateTier d = Some [] then None else pc_rateTier d)"

definition rateLimitStage :: "gw_env \<Rightarrow> answers \<Rightarrow> gw_request \<Rightarrow> gateway \<Rightarrow> staged" where
  "rateLimitStage en an rq gw = (case (rq_principal rq, rq_invocation rq) of
     (Some p, Some i) \<Rightarrow>
       (case an_redis an of
          Some msg \<Rightarrow> (Some (redis_failed msg), rq, gw)
        | None \<Rightarrow>
            (let (st, out) = rate_check (en_rnd en) (en_script_sha en) (an_now an) (gw_limits gw)
                   \<lparr>lq_tenantId = pn_tenantId p, lq_userId = pn_subject p, lq_toolName = inv_tool i,
                    lq_tier = stage_tier i, lq_cost = None\<rparr> (gw_limiter gw);
                 gw1 = gw\<lparr>gw_limiter := st\<rparr>
             in case out of
                  Inl msg \<Rightarrow> (Some (Thrown_error ''Error'' msg), rq, gw1)
                | Inr o' \<Rightarrow>
                    (let v = verdict_of o'; i1 = i\<lparr>inv_rateLimit := Some v\<rparr>
                     in if lo_allowed o' then (None, rq\<lparr>rq_invocation := Some i1\<rparr>, gw1)
                        else (Some (Thrown_gateway (RateLimitedError (rv_retryAfterMs v)
                                [(''scope'', JStr (rv_scope v)), (''limit'', jint (rv_limit v))])),
                              rq\<lparr>rq_invocation := Some (deny_with (''rate_limit:'' @ rv_scope v) i1)\<rparr>, gw1))))
   | _ \<Rightarrow> (None, rq, gw))"

section \<open>Policy\<close>

definition record_sent :: "nat \<Rightarrow> sent \<Rightarrow> gateway \<Rightarrow> gateway" where
  "record_sent r x gw = gw\<lparr>gw_sent := gw_sent gw @ [(r, x)]\<rparr>"

definition policy_mint :: "gw_env \<Rightarrow> principal \<Rightarrow> gw_request \<Rightarrow> mint_request" where
  "policy_mint en p rq = \<lparr>mr_principal = p, mr_subjectToken = or_default (rq_inboundToken rq) [],
     mr_audience = tg_audience (mcp_targets (en_urls en) Policy_engine), mr_scopes = [''policy:evaluate'']\<rparr>"

definition policy_call ::
    "gw_env \<Rightarrow> principal \<Rightarrow> tenant_record \<Rightarrow> invocation_state \<Rightarrow> mirrored_token \<Rightarrow> upstream_call" where
  "policy_call en p t i tok =
     \<lparr>uc_url = tg_url (mcp_targets (en_urls en) Policy_engine), uc_server = ''policy-engine'',
      uc_toolName = ''policy.evaluate'',
      uc_arguments = JObj
        [(''tool'', JStr (inv_tool i)), (''server'', JStr (server_str (inv_server i))),
         (''bundle'', JStr ''baseline''),
         (''principal'', JObj
            [(''subject'', JStr (pn_subject p)), (''tenantId'', JStr (pn_tenantId p)),
             (''role'', JStr (role_str (pn_role p))), (''scopes'', JArr (map JStr (pn_scopes p))),
             (''territory'', JNull)]),
         (''tenant'', JObj [(''id'', JStr (tr_id t)), (''plan'', JStr (tr_plan t))]),
         (''arguments'', JObj (inv_args i))],
      uc_accessToken = mt_accessToken tok, uc_timeoutMs = Some 5000\<rparr>"

text \<open>\<open>policyDecisionSchema\<close> on the fields of the structured result; \<open>null\<close> and absence of the tier
  are the same.\<close>

definition parse_decision :: "jval \<Rightarrow> decision option" where
  "parse_decision v = (if v = JStr ''allow'' then Some Allow else if v = JStr ''deny'' then Some Deny else None)"

definition parse_policy :: "(string \<times> jval) list \<Rightarrow> policy_decision option" where
  "parse_policy kvs =
     (case (parse_decision (own_prop kvs ''decision''), as_string (own_prop kvs ''ruleId''),
            as_string (own_prop kvs ''reason'')) of
        (Some d, Some ruleId, Some reason) \<Rightarrow>
          (case own_prop kvs ''rateTier'' of
             JUndef \<Rightarrow> Some \<lparr>pc_decision = d, pc_ruleId = ruleId, pc_reason = reason, pc_rateTier = None\<rparr>
           | JNull \<Rightarrow> Some \<lparr>pc_decision = d, pc_ruleId = ruleId, pc_reason = reason, pc_rateTier = None\<rparr>
           | JStr t \<Rightarrow> Some \<lparr>pc_decision = d, pc_ruleId = ruleId, pc_reason = reason, pc_rateTier = Some t\<rparr>
           | _ \<Rightarrow> None)
      | _ \<Rightarrow> None)"

definition policy_result_of :: "upstream_result \<Rightarrow> (gateway_error, policy_decision) result" where
  "policy_result_of r = (case (ur_isError r, ur_structured r) of
     (False, Some kvs) \<Rightarrow>
       (case parse_policy kvs of
          None \<Rightarrow> Inl (UpstreamError ''policy-engine'' ''Policy decision failed validation'' [])
        | Some d \<Rightarrow> Inr d)
   | _ \<Rightarrow> Inl (UpstreamError ''policy-engine'' ''Policy evaluation did not return a decision''
            [(''detail'', JStr (take 500 (ur_text r)))]))"

definition policyStage :: "gw_env \<Rightarrow> answers \<Rightarrow> nat \<Rightarrow> gw_request \<Rightarrow> gateway \<Rightarrow> staged" where
  "policyStage en an r rq gw = (case (rq_principal rq, rq_tenant rq, rq_invocation rq) of
     (Some p, Some t, Some i) \<Rightarrow>
       (case an_mint an of
          Inl e \<Rightarrow> (Some e, rq, gw)
        | Inr tok \<Rightarrow>
            (let call = policy_call en p t i tok; gw1 = record_sent r (Called call) gw
             in case bind_result (callUpstreamTool call (an_upstreamMs an) (an_upstream an)) policy_result_of of
                  Inl e \<Rightarrow> (Some (Thrown_gateway e), rq, gw1)
                | Inr d \<Rightarrow>
                    (let i1 = i\<lparr>inv_policy := Some d\<rparr>
                     in if pc_decision d = Deny
                        then (Some (Thrown_gateway (PolicyDeniedError (pc_reason d)
                                [(''ruleId'', JStr (pc_ruleId d)), (''tool'', JStr (inv_tool i))])),
                              rq\<lparr>rq_invocation := Some (deny_with (''policy:'' @ pc_ruleId d) i1)\<rparr>, gw1)
                        else (None, rq\<lparr>rq_invocation := Some i1\<rparr>, gw1))))
   | _ \<Rightarrow> (None, rq, gw))"

section \<open>Token exchange\<close>

definition requested_scopes :: "mcp_target \<Rightarrow> principal \<Rightarrow> string list" where
  "requested_scopes t p = filter (\<lambda>s. starts_with s (tg_namespace t @ '':'')) (pn_scopes p)"

definition target_mint :: "gw_env \<Rightarrow> principal \<Rightarrow> invocation_state \<Rightarrow> gw_request \<Rightarrow> mint_request" where
  "target_mint en p i rq =
     (let t = mcp_targets (en_urls en) (inv_server i)
      in \<lparr>mr_principal = p, mr_subjectToken = or_default (rq_inboundToken rq) [],
          mr_audience = tg_audience t, mr_scopes = requested_scopes t p\<rparr>)"

definition tokenExchangeStage :: "gw_env \<Rightarrow> answers \<Rightarrow> gw_request \<Rightarrow> gateway \<Rightarrow> staged" where
  "tokenExchangeStage en an rq gw = (case (rq_principal rq, rq_invocation rq) of
     (Some p, Some i) \<Rightarrow>
       (let t = mcp_targets (en_urls en) (inv_server i); scopes = requested_scopes t p
        in if scopes = []
           then (Some (Thrown_gateway (PermissionMirrorError
                   (concat [''The caller holds no scopes for '', quoted (tg_audience t),
                      '', so no downstream token can be minted for them.''])
                   [(''audience'', JStr (tg_audience t)), (''held'', JArr (map JStr (pn_scopes p)))])),
                 rq\<lparr>rq_invocation := Some (deny_with (''permission_mirror:no_scopes_for_'' @ tg_audience t) i)\<rparr>, gw)
           else (case an_mint an of
               Inr tok \<Rightarrow> (None, rq\<lparr>rq_invocation := Some (i\<lparr>inv_tokenExchange := Some tok\<rparr>)\<rparr>, gw)
             | Inl e \<Rightarrow> (Some e, rq\<lparr>rq_invocation :=
                 Some (deny_with ''permission_mirror:exchange_failed'' i)\<rparr>, gw)))
   | _ \<Rightarrow> (None, rq, gw))"

section \<open>Proxy\<close>

definition target_call :: "gw_env \<Rightarrow> invocation_state \<Rightarrow> mirrored_token \<Rightarrow> upstream_call" where
  "target_call en i tok =
     \<lparr>uc_url = tg_url (mcp_targets (en_urls en) (inv_server i)), uc_server = server_str (inv_server i),
      uc_toolName = inv_tool i, uc_arguments = JObj (inv_args i),
      uc_accessToken = mt_accessToken tok, uc_timeoutMs = Some 20000\<rparr>"

definition mcp_proxy ::
    "gw_env \<Rightarrow> answers \<Rightarrow> nat \<Rightarrow> gw_request \<Rightarrow> gateway \<Rightarrow>
       (thrown, upstream_result) result \<times> gw_request \<times> gateway" where
  "mcp_proxy en an r rq gw = (case rq_invocation rq of
     None \<Rightarrow> (Inl (Thrown_gateway (UpstreamError ''gateway'' ''No invocation in flight'' [])), rq, gw)
   | Some i \<Rightarrow>
       (case inv_tokenExchange i of
          None \<Rightarrow> (Inl (Thrown_gateway (PermissionMirrorError ''No downstream token was minted for this call''
                     [(''server'', JStr (server_str (inv_server i)))])), rq, gw)
        | Some tok \<Rightarrow>
            (let call = target_call en i tok; gw1 = record_sent r (Called call) gw
             in case callUpstreamTool call (an_upstreamMs an) (an_upstream an) of
                  Inl e \<Rightarrow> (Inl (Thrown_gateway e), rq, gw1)
                | Inr res \<Rightarrow>
                    (let i1 = i\<lparr>inv_upstreamLatencyMs := Some (ur_latencyMs res)\<rparr>;
                         i2 = (if ur_isError res then i1\<lparr>inv_denyReason := None\<rparr> else i1)
                     in (Inr res, rq\<lparr>rq_invocation := Some i2\<rparr>, gw1)))))"

section \<open>Audit\<close>

text \<open>An argument value as the writer sees it; the arguments come from a parsed JSON body.\<close>

fun cval_of :: "jval \<Rightarrow> cval" where
  "cval_of JUndef = CUndef"
| "cval_of JNull = CNull"
| "cval_of (JBool b) = CBool b"
| "cval_of (JNum n) = CNum n"
| "cval_of (JStr s) = CStr s"
| "cval_of (JArr vs) = CArr (map cval_of vs)"
| "cval_of (JObj kvs) = CObj (map (\<lambda>(k, v). (k, cval_of v)) kvs)"
| "cval_of (JHost h) = CObj []"

definition audit_input :: "answers \<Rightarrow> principal \<Rightarrow> invocation_state \<Rightarrow> append_input" where
  "audit_input an p i =
     \<lparr>in_tenantId = pn_tenantId p, in_userId = pn_subject p, in_actorTokenJti = pn_tokenId p,
      in_mcpServer = server_str (inv_server i), in_toolName = inv_tool i,
      in_arguments = cval_of (JObj (inv_args i)), in_decision = inv_decision i,
      in_denyReason = inv_denyReason i, in_latencyMs = an_latencyMs an, in_traceId = an_traceId an,
      in_occurredAt = None, in_capturePayload = None\<rparr>"

definition audit_event :: "answers \<Rightarrow> principal \<Rightarrow> invocation_state \<Rightarrow> gw_request \<Rightarrow> invocation_event" where
  "audit_event an p i rq =
     \<lparr>ev_id = rq_requestId rq, ev_ts = iso_string (an_later an), ev_tenantId = pn_tenantId p,
      ev_tenantName = map_option tr_name (rq_tenant rq), ev_userId = pn_subject p,
      ev_userName = pn_name p, ev_server = server_str (inv_server i), ev_tool = inv_tool i,
      ev_decision = inv_decision i, ev_denyReason = inv_denyReason i, ev_latencyMs = an_latencyMs an,
      ev_traceId = an_traceId an,
      ev_tokenExchange = map_option (\<lambda>t. \<lparr>xn_cached = mt_cached t, xn_audience = mt_audience t,
        xn_downstreamSubject = mt_subject t\<rparr>) (inv_tokenExchange i),
      ev_policy = inv_policy i, ev_rateLimit = inv_rateLimit i\<rparr>"

text \<open>The row is appended, or its loss logged; the event is published in both cases.\<close>

definition audit_stage :: "gw_env \<Rightarrow> answers \<Rightarrow> nat \<Rightarrow> gw_request \<Rightarrow> gateway \<Rightarrow> gw_request \<times> gateway" where
  "audit_stage en an r rq gw = (case (rq_invocation rq, rq_principal rq) of
     (Some i, Some p) \<Rightarrow>
       if inv_audited i then (rq, gw)
       else (let input = audit_input an p i; event = audit_event an p i rq;
                 db = fst (audit_append (en_sha en) (en_fmt en) (an_refuses an) (an_refuses_json an)
                        (en_capturePayloads en) (an_rowId an) (Some (an_now an)) input (gw_audit gw));
                 stream = snd (stream_publish event (gw_stream gw))
             in (rq\<lparr>rq_invocation := Some (i\<lparr>inv_audited := True\<rparr>)\<rparr>,
                 record_sent r (Announced event) (record_sent r (Appended input)
                   (gw\<lparr>gw_audit := db, gw_stream := stream\<rparr>))))
   | _ \<Rightarrow> (rq, gw))"

section \<open>Replies\<close>

record gw_reply =
  ry_status :: int
  ry_body :: jval
  ry_retryAfter :: "int option"

text \<open>The reply to an answered call; the two latencies of its \<open>meta\<close> object are left out.\<close>

definition reply_meta :: "gw_request \<Rightarrow> invocation_state \<Rightarrow> jval" where
  "reply_meta rq i = JObj
     [(''requestId'', JStr (rq_requestId rq)),
      (''policy'', case inv_policy i of None \<Rightarrow> JNull | Some d \<Rightarrow> JObj
         [(''ruleId'', JStr (pc_ruleId d)), (''decision'', JStr (decision_str (pc_decision d)))]),
      (''tokenExchange'', case inv_tokenExchange i of None \<Rightarrow> JNull | Some t \<Rightarrow> JObj
         [(''audience'', JStr (mt_audience t)), (''cached'', JBool (mt_cached t)),
          (''scopes'', JArr (map JStr (mt_scopes t))), (''subject'', JStr (mt_subject t))]),
      (''rateLimit'', case inv_rateLimit i of None \<Rightarrow> JNull | Some v \<Rightarrow> JObj
         [(''allowed'', JBool (rv_allowed v)), (''remaining'', jint (rv_remaining v)),
          (''limit'', jint (rv_limit v)), (''retryAfterMs'', jint (rv_retryAfterMs v)),
          (''scope'', JStr (rv_scope v))])]"

definition tool_reply :: "upstream_result \<Rightarrow> gw_request \<Rightarrow> invocation_state \<Rightarrow> gw_reply" where
  "tool_reply res rq i =
     \<lparr>ry_status = 200,
      ry_body = JObj
        [(''ok'', JBool (\<not> ur_isError res)), (''server'', JStr (server_str (inv_server i))),
         (''tool'', JStr (inv_tool i)),
         (''result'', case ur_structured res of Some kvs \<Rightarrow> JObj kvs | None \<Rightarrow> JObj [(''text'', JStr (ur_text res))]),
         (''meta'', reply_meta rq i)],
      ry_retryAfter = None\<rparr>"

definition refusal_reply :: "gateway_error \<Rightarrow> gw_reply" where
  "refusal_reply e = \<lparr>ry_status = ge_status e, ry_body = toResponseBody e,
     ry_retryAfter = ge_retryAfterSeconds e\<rparr>"

text \<open>The error handler of the tool routes: the decision becomes a denial, with the error's code as
  reason unless a stage has given one, and the row is written before the reply.\<close>

definition mark_refused :: "thrown \<Rightarrow> gw_request \<Rightarrow> gw_request" where
  "mark_refused t rq = (case rq_invocation rq of
     None \<Rightarrow> rq
   | Some i \<Rightarrow> rq\<lparr>rq_invocation := Some (i\<lparr>inv_decision := Deny,
       inv_denyReason := Some (or_default (inv_denyReason i) (code_str (ge_code (toGatewayError t))))\<rparr>)\<rparr>)"

definition refuse_call ::
    "gw_env \<Rightarrow> answers \<Rightarrow> nat \<Rightarrow> thrown \<Rightarrow> gw_request \<Rightarrow> gateway \<Rightarrow> gw_reply \<times> gw_request \<times> gateway" where
  "refuse_call en an r t rq gw =
     (let (rq1, gw1) = audit_stage en an r (mark_refused t rq) gw
      in (refusal_reply (toGatewayError t), rq1, gw1))"

end
