(* ===== verification/Gw_Pipeline.thy ===== *)
theory Gw_Pipeline
  imports Gw_Stages
begin

text \<open>
  The enforcement path as a whole (\<open>apps/gateway/src/routes/tools.ts\<close>): the stages in the order the
  route registers them, the error handler, and any number of requests whose stages interleave. The
  exchange service is an interface, given by the replies it may make; the gateway's invariants are
  proved for every service that keeps its promise, and the mirroring service is shown to.
\<close>

section \<open>The order of the stages\<close>

datatype phase = At_authenticate | At_tenant | At_establish | At_limit | At_policy | At_exchange
  | At_dispatch | At_audit upstream_result | At_refusal thrown | Replied gw_reply

fun after_stage :: "phase \<Rightarrow> staged \<Rightarrow> phase \<times> gw_request \<times> gateway" where
  "after_stage following (None, rq, gw) = (following, rq, gw)"
| "after_stage following (Some t, rq, gw) = (At_refusal t, rq, gw)"

definition dispatch ::
    "gw_env \<Rightarrow> answers \<Rightarrow> nat \<Rightarrow> gw_request \<Rightarrow> gateway \<Rightarrow> phase \<times> gw_request \<times> gateway" where
  "dispatch en an r rq gw =
     (if rq_invocation rq = None then (At_refusal (Thrown_gateway (NotFoundError ''Invocation'')), rq, gw)
      else case mcp_proxy en an r rq gw of
          (Inl t, rq1, gw1) \<Rightarrow> (At_refusal t, rq1, gw1)
        | (Inr res, rq1, gw1) \<Rightarrow> (At_audit res, rq1, gw1))"

definition finish ::
    "gw_env \<Rightarrow> answers \<Rightarrow> nat \<Rightarrow> upstream_result \<Rightarrow> gw_request \<Rightarrow> gateway \<Rightarrow> phase \<times> gw_request \<times> gateway" where
  "finish en an r res rq gw =
     (let (rq1, gw1) = audit_stage en an r rq gw
      in case rq_invocation rq1 of
           None \<Rightarrow> (At_refusal (Thrown_gateway (NotFoundError ''Invocation'')), rq1, gw1)
         | Some i \<Rightarrow> (Replied (tool_reply res rq1 i), rq1, gw1))"

fun pipeline_step ::
    "gw_env \<Rightarrow> answers \<Rightarrow> nat \<Rightarrow> phase \<Rightarrow> gw_request \<Rightarrow> gateway \<Rightarrow> phase \<times> gw_request \<times> gateway" where
  "pipeline_step en an r At_authenticate rq gw = after_stage At_tenant (authenticate en an rq gw)"
| "pipeline_step en an r At_tenant rq gw = after_stage At_establish (resolveTenant an rq gw)"
| "pipeline_step en an r At_establish rq gw = after_stage At_limit (establish rq gw)"
| "pipeline_step en an r At_limit rq gw = after_stage At_policy (rateLimitStage en an rq gw)"
| "pipeline_step en an r At_policy rq gw = after_stage At_exchange (policyStage en an r rq gw)"
| "pipeline_step en an r At_exchange rq gw = after_stage At_dispatch (tokenExchangeStage en an rq gw)"
| "pipeline_step en an r At_dispatch rq gw = dispatch en an r rq gw"
| "pipeline_step en an r (At_audit res) rq gw = finish en an r res rq gw"
| "pipeline_step en an r (At_refusal t) rq gw =
     (let (reply, rq1, gw1) = refuse_call en an r t rq gw in (Replied reply, rq1, gw1))"
| "pipeline_step en an r (Replied reply) rq gw = (Replied reply, rq, gw)"

text \<open>The exchange a stage asks for.\<close>

fun mint_asked :: "gw_env \<Rightarrow> phase \<Rightarrow> gw_request \<Rightarrow> mint_request option" where
  "mint_asked en At_policy rq = (case rq_principal rq of None \<Rightarrow> None | Some p \<Rightarrow> Some (policy_mint en p rq))"
| "mint_asked en At_exchange rq = (case (rq_principal rq, rq_invocation rq) of
     (Some p, Some i) \<Rightarrow> Some (target_mint en p i rq) | _ \<Rightarrow> None)"
| "mint_asked en _ rq = None"

section \<open>Requests in progress\<close>

record gw_system =
  sy_gateway :: gateway
  sy_requests :: "nat \<Rightarrow> (phase \<times> gw_request) option"

definition incoming ::
    "string \<Rightarrow> string option \<Rightarrow> string option \<Rightarrow> string \<Rightarrow> string \<Rightarrow> jval \<Rightarrow> gw_request" where
  "incoming requestId authorization sessionCookie server tool body =
     \<lparr>rq_requestId = requestId, rq_authorization = authorization, rq_sessionCookie = sessionCookie,
      rq_server = server, rq_tool = tool, rq_body = body, rq_principal = None, rq_inboundToken = None,
      rq_tenant = None, rq_invocation = None\<rparr>"

definition advance :: "gw_env \<Rightarrow> answers \<Rightarrow> nat \<Rightarrow> gw_system \<Rightarrow> gw_system" where
  "advance en an r s = (case sy_requests s r of
     None \<Rightarrow> s
   | Some (ph, rq) \<Rightarrow>
       (let (ph', rq', gw') = pipeline_step en an r ph rq (sy_gateway s)
        in \<lparr>sy_gateway = gw', sy_requests = (sy_requests s)(r \<mapsto> (ph', rq'))\<rparr>))"

definition pending_mint :: "gw_env \<Rightarrow> gw_system \<Rightarrow> nat \<Rightarrow> mint_request option" where
  "pending_mint en s r = (case sy_requests s r of None \<Rightarrow> None | Some (ph, rq) \<Rightarrow> mint_asked en ph rq)"

definition gw_start :: "invocation_stream \<Rightarrow> limiter \<times> redis_server \<Rightarrow> config_store \<Rightarrow> gw_system" where
  "gw_start stream lm cs =
     \<lparr>sy_gateway = \<lparr>gw_tenants = (\<lambda>t. None), gw_sessions = (\<lambda>k. None), gw_limiter = lm, gw_limits = cs,
        gw_audit = empty_audit_db, gw_stream = stream, gw_sent = []\<rparr>,
      sy_requests = (\<lambda>r. None)\<rparr>"

text \<open>A request arrives; one of its stages runs, the exchange service answering what it may; or
  something else moves: sessions, buckets and their configuration, consoles, the log of another
  replica.\<close>

inductive gw_step ::
    "(mint_request \<Rightarrow> (thrown, mirrored_token) result \<Rightarrow> bool) \<Rightarrow> gw_env \<Rightarrow> gw_system \<Rightarrow> gw_system \<Rightarrow> bool"
  for gives en where
  Arrive: "sy_requests s r = None \<Longrightarrow>
     gw_step gives en s (s\<lparr>sy_requests := (sy_requests s)(r \<mapsto>
       (At_authenticate, incoming requestId authorization sessionCookie server tool body))\<rparr>)"
| Stage: "(case pending_mint en s r of None \<Rightarrow> True | Some q \<Rightarrow> gives q (an_mint an)) \<Longrightarrow>
     gw_step gives en s (advance en an r s)"
| Elsewhere: "gw_step gives en s (s\<lparr>sy_gateway := (sy_gateway s)\<lparr>gw_sessions := ss, gw_limiter := lm,
     gw_limits := cs, gw_stream := st\<rparr>\<rparr>)"
| Replica: "gw_step gives en s (s\<lparr>sy_gateway := (sy_gateway s)\<lparr>gw_audit :=
     fst (audit_append (en_sha en) (en_fmt en) refuses refuses_json capture newId now input
       (gw_audit (sy_gateway s)))\<rparr>\<rparr>)"

inductive gw_reachable ::
    "(mint_request \<Rightarrow> (thrown, mirrored_token) result \<Rightarrow> bool) \<Rightarrow> gw_env \<Rightarrow> gw_system \<Rightarrow> bool"
  for gives en where
  init: "gw_reachable gives en (gw_start stream lm cs)"
| step: "gw_reachable gives en s \<Longrightarrow> gw_step gives en s s' \<Longrightarrow> gw_reachable gives en s'"

definition sent_by :: "nat \<Rightarrow> gateway \<Rightarrow> sent list" where
  "sent_by r gw = map snd (filter (\<lambda>x. fst x = r) (gw_sent gw))"

section \<open>What a request has earned\<close>

definition authenticated :: "gw_env \<Rightarrow> gw_request \<Rightarrow> principal \<Rightarrow> bool" where
  "authenticated en rq p \<longleftrightarrow> rq_principal rq = Some p \<and>
     (\<exists>t cl. rq_inboundToken rq = Some t \<and> verifyAccessToken (en_verify en) t
        \<lparr>vo_issuer = en_issuer en, vo_audience = None, vo_clockToleranceSeconds = None\<rparr> = Inr (cl, p))"

definition entitled :: "principal \<Rightarrow> invocation_state \<Rightarrow> bool" where
  "entitled p i \<longleftrightarrow> (\<exists>entry. findTool (inv_tool i) = Some entry \<and> ca_server entry = inv_server i \<and>
     list_all (hasScope (pn_scopes p)) (ca_requiredScopes entry))"

definition within_limit :: "invocation_state \<Rightarrow> bool" where
  "within_limit i \<longleftrightarrow> (\<exists>v. inv_rateLimit i = Some v \<and> rv_allowed v)"

definition policy_allows :: "invocation_state \<Rightarrow> bool" where
  "policy_allows i \<longleftrightarrow> (\<exists>d. inv_policy i = Some d \<and> pc_decision d = Allow)"

definition mirrors :: "(string \<Rightarrow> claims option) \<Rightarrow> gw_env \<Rightarrow> principal \<Rightarrow> invocation_state \<Rightarrow> mirrored_token \<Rightarrow> bool" where
  "mirrors decode en p i tok \<longleftrightarrow> inv_tokenExchange i = Some tok \<and> mt_subject tok = pn_subject p \<and>
     mt_audience tok = tg_audience (mcp_targets (en_urls en) (inv_server i)) \<and>
     names_subject decode (mt_accessToken tok) (pn_subject p)"

text \<open>A policy call was only made for an authenticated, entitled caller within the limits, with a
  token that names the caller; a target call only when, besides, the policy allowed it.\<close>

definition policy_asked :: "(string \<Rightarrow> claims option) \<Rightarrow> gw_env \<Rightarrow> gw_request \<Rightarrow> upstream_call \<Rightarrow> bool" where
  "policy_asked decode en rq call \<longleftrightarrow> (\<exists>p t i tok. authenticated en rq p \<and> rq_tenant rq = Some t \<and>
     rq_invocation rq = Some i \<and> entitled p i \<and> within_limit i \<and>
     names_subject decode (mt_accessToken tok) (pn_subject p) \<and> call = policy_call en p t i tok)"

definition target_asked :: "(string \<Rightarrow> claims option) \<Rightarrow> gw_env \<Rightarrow> gw_request \<Rightarrow> upstream_call \<Rightarrow> bool" where
  "target_asked decode en rq call \<longleftrightarrow> (\<exists>p i tok. authenticated en rq p \<and> rq_invocation rq = Some i \<and>
     entitled p i \<and> within_limit i \<and> policy_allows i \<and> mirrors decode en p i tok \<and>
     call = target_call en i tok)"

definition calls_ok :: "(string \<Rightarrow> claims option) \<Rightarrow> gw_env \<Rightarrow> gw_request \<Rightarrow> sent list \<Rightarrow> bool" where
  "calls_ok decode en rq tr \<longleftrightarrow> tr = []
     \<or> (\<exists>pc. tr = [Called pc] \<and> policy_asked decode en rq pc)
     \<or> (\<exists>pc tc. tr = [Called pc, Called tc] \<and> policy_asked decode en rq pc \<and> target_asked decode en rq tc)"

definition undecided :: "invocation_state \<Rightarrow> bool" where
  "undecided i \<longleftrightarrow> inv_decision i = Allow \<and> inv_denyReason i = None \<and> \<not> inv_audited i"

text \<open>The reply and the audit row agree.\<close>

definition reply_recorded :: "gw_request \<Rightarrow> invocation_state \<Rightarrow> gw_reply \<Rightarrow> sent list \<Rightarrow> bool" where
  "reply_recorded rq i reply calls \<longleftrightarrow>
     (inv_decision i = Allow \<and> length calls = 2 \<and> (\<exists>res. reply = tool_reply res rq i))
     \<or> (inv_decision i = Deny \<and> inv_denyReason i \<noteq> None \<and> (\<exists>t. reply = refusal_reply (toGatewayError t)))"

definition settled ::
    "(string \<Rightarrow> claims option) \<Rightarrow> gw_env \<Rightarrow> gw_request \<Rightarrow> gw_reply \<Rightarrow> sent list \<Rightarrow> bool" where
  "settled decode en rq reply tr \<longleftrightarrow> (case rq_invocation rq of
     None \<Rightarrow> tr = [] \<and> (\<exists>t. reply = refusal_reply (toGatewayError t))
   | Some i \<Rightarrow> (\<exists>calls p an. calls_ok decode en rq calls \<and> authenticated en rq p \<and> inv_audited i \<and>
       tr = calls @ [Appended (audit_input an p i), Announced (audit_event an p i rq)] \<and>
       reply_recorded rq i reply calls))"

fun request_inv ::
    "(string \<Rightarrow> claims option) \<Rightarrow> gw_env \<Rightarrow> phase \<Rightarrow> gw_request \<Rightarrow> sent list \<Rightarrow> bool" where
  "request_inv decode en At_authenticate rq tr = (tr = [] \<and> rq_invocation rq = None)"
| "request_inv decode en At_tenant rq tr = (tr = [] \<and> rq_invocation rq = None \<and> (\<exists>p. authenticated en rq p))"
| "request_inv decode en At_establish rq tr = (tr = [] \<and> rq_invocation rq = None \<and>
     rq_tenant rq \<noteq> None \<and> (\<exists>p. authenticated en rq p))"
| "request_inv decode en At_limit rq tr = (tr = [] \<and> rq_tenant rq \<noteq> None \<and> (\<exists>p i. authenticated en rq p \<and>
     rq_invocation rq = Some i \<and> undecided i \<and> entitled p i))"
| "request_inv decode en At_policy rq tr = (tr = [] \<and> rq_tenant rq \<noteq> None \<and> (\<exists>p i. authenticated en rq p \<and>
     rq_invocation rq = Some i \<and> undecided i \<and> entitled p i \<and> within_limit i))"
| "request_inv decode en At_exchange rq tr = ((\<exists>pc. tr = [Called pc] \<and> policy_asked decode en rq pc) \<and>
     (\<exists>p i. authenticated en rq p \<and> rq_invocation rq = Some i \<and> undecided i \<and> entitled p i \<and>
        within_limit i \<and> policy_allows i))"
| "request_inv decode en At_dispatch rq tr = ((\<exists>pc. tr = [Called pc] \<and> policy_asked decode en rq pc) \<and>
     (\<exists>p i tok. authenticated en rq p \<and> rq_invocation rq = Some i \<and> undecided i \<and> entitled p i \<and>
        within_limit i \<and> policy_allows i \<and> mirrors decode en p i tok))"
| "request_inv decode en (At_audit res) rq tr = (length tr = 2 \<and> calls_ok decode en rq tr \<and>
     (\<exists>p i. authenticated en rq p \<and> rq_invocation rq = Some i \<and> undecided i))"
| "request_inv decode en (At_refusal t) rq tr = (calls_ok decode en rq tr \<and>
     (case rq_invocation rq of None \<Rightarrow> tr = []
      | Some i \<Rightarrow> \<not> inv_audited i \<and> (\<exists>p. authenticated en rq p)))"
| "request_inv decode en (Replied reply) rq tr = settled decode en rq reply tr"

section \<open>What later stages keep\<close>

lemma authenticated_frame [simp]:
  "authenticated en (rq\<lparr>rq_invocation := x\<rparr>) = authenticated en rq"
  "authenticated en (rq\<lparr>rq_tenant := y\<rparr>) = authenticated en rq"
  by (simp_all add: authenticated_def fun_eq_iff)

lemma authenticated_principal: "authenticated en rq p \<Longrightarrow> rq_principal rq = Some p"
  by (simp add: authenticated_def)

text \<open>A later state of the same invocation.\<close>

definition continues :: "invocation_state \<Rightarrow> invocation_state \<Rightarrow> bool" where
  "continues i i' \<longleftrightarrow> inv_server i' = inv_server i \<and> inv_tool i' = inv_tool i \<and> inv_args i' = inv_args i \<and>
     inv_rateLimit i' = inv_rateLimit i \<and> (inv_policy i \<noteq> None \<longrightarrow> inv_policy i' = inv_policy i) \<and>
     (inv_tokenExchange i \<noteq> None \<longrightarrow> inv_tokenExchange i' = inv_tokenExchange i)"

lemma continues_calls:
  assumes "continues i i'"
  shows "entitled p i' = entitled p i" and "within_limit i' = within_limit i"
    and "policy_allows i \<Longrightarrow> policy_allows i'" and "mirrors decode en p i tok \<Longrightarrow> mirrors decode en p i' tok"
    and "policy_call en p t i' tok = policy_call en p t i tok" and "target_call en i' tok = target_call en i tok"
  using assms
  by (auto simp: continues_def entitled_def within_limit_def policy_allows_def mirrors_def policy_call_def target_call_def)

lemma continues_refl [simp]: "continues i i"
  by (simp add: continues_def)

lemma continues_update [simp]:
  "continues i (i\<lparr>inv_decision := d\<rparr>) \<longleftrightarrow> True"
  "continues i (i\<lparr>inv_denyReason := x\<rparr>)"
  "continues i (i\<lparr>inv_decision := d, inv_denyReason := x\<rparr>)"
  "continues i (i\<lparr>inv_upstreamLatencyMs := l\<rparr>)"
  "continues i (i\<lparr>inv_upstreamLatencyMs := l, inv_denyReason := x\<rparr>)"
  "continues i (i\<lparr>inv_audited := b\<rparr>)"
  "continues i (deny_with m i)"
  by (simp_all add: continues_def deny_with_def)

lemma policy_asked_continues:
  assumes "policy_asked decode en rq pc" and "rq_invocation rq = Some i" and "continues i i'"
  shows "policy_asked decode en (rq\<lparr>rq_invocation := Some i'\<rparr>) pc"
proof -
  from assms(1,2) obtain p t tok where a: "authenticated en rq p" "rq_tenant rq = Some t" "entitled p i"
    "within_limit i" "names_subject decode (mt_accessToken tok) (pn_subject p)" "pc = policy_call en p t i tok"
    unfolding policy_asked_def by auto
  with continues_calls [OF assms(3)] show ?thesis
    unfolding policy_asked_def by (intro exI [of _ p] exI [of _ t] exI [of _ i'] exI [of _ tok]) simp
qed

lemma target_asked_continues:
  assumes "target_asked decode en rq tc" and "rq_invocation rq = Some i" and "continues i i'"
  shows "target_asked decode en (rq\<lparr>rq_invocation := Some i'\<rparr>) tc"
proof -
  from assms(1,2) obtain p tok where a: "authenticated en rq p" "entitled p i" "within_limit i"
    "policy_allows i" "mirrors decode en p i tok" "tc = target_call en i tok"
    unfolding target_asked_def by auto
  with continues_calls [OF assms(3)] show ?thesis
    unfolding target_asked_def by (intro exI [of _ p] exI [of _ i'] exI [of _ tok]) simp
qed

lemma calls_ok_continues:
  assumes "calls_ok decode en rq tr" and "rq_invocation rq = Some i" and "continues i i'"
  shows "calls_ok decode en (rq\<lparr>rq_invocation := Some i'\<rparr>) tr"
  using assms(1) policy_asked_continues [OF _ assms(2,3)] target_asked_continues [OF _ assms(2,3)]
  unfolding calls_ok_def by blast

lemma calls_ok_Nil [simp]: "calls_ok decode en rq []"
  by (simp add: calls_ok_def)

lemma calls_ok_policy: "policy_asked decode en rq pc \<Longrightarrow> calls_ok decode en rq [Called pc]"
  by (simp add: calls_ok_def)

section \<open>Stages keep the invariant\<close>

definition moves ::
    "(string \<Rightarrow> claims option) \<Rightarrow> gw_env \<Rightarrow> nat \<Rightarrow> sent list \<Rightarrow> gateway \<Rightarrow> phase \<times> gw_request \<times> gateway \<Rightarrow> bool" where
  "moves decode en r tr gw res \<longleftrightarrow> (\<exists>new. gw_sent (snd (snd res)) = gw_sent gw @ map (Pair r) new \<and>
     request_inv decode en (fst res) (fst (snd res)) (tr @ new))"

lemma moves_quiet:
  "gw_sent gw' = gw_sent gw \<Longrightarrow> request_inv decode en ph rq tr \<Longrightarrow> moves decode en r tr gw (ph, rq, gw')"
  unfolding moves_def by (intro exI [of _ "[]"]) simp

lemma moves_note:
  "gw_sent gw' = gw_sent gw @ [(r, x)] \<Longrightarrow> request_inv decode en ph rq (tr @ [x]) \<Longrightarrow>
     moves decode en r tr gw (ph, rq, gw')"
  unfolding moves_def by (intro exI [of _ "[x]"]) simp

lemma gw_sent_record_sent [simp]: "gw_sent (record_sent r x gw) = gw_sent gw @ [(r, x)]"
  by (simp add: record_sent_def)

lemma authenticate_token_moves:
  assumes "rq_invocation rq = None"
  shows "moves decode en r [] gw (after_stage At_tenant (authenticate_token en token rq gw))"
proof (cases token)
  case None
  then show ?thesis using assms by (simp add: authenticate_token_def moves_quiet)
next
  case (Some t)
  show ?thesis
  proof (cases "t = []")
    case False
    let ?o = "\<lparr>vo_issuer = en_issuer en, vo_audience = None, vo_clockToleranceSeconds = None\<rparr>"
    show ?thesis
    proof (cases "verifyAccessToken (en_verify en) t ?o")
      case (Inl e)
      with Some False assms show ?thesis by (simp add: authenticate_token_def moves_quiet)
    next
      case (Inr x)
      obtain cl p where x: "x = (cl, p)" by (metis surj_pair)
      have "authenticated en (rq\<lparr>rq_principal := Some p, rq_inboundToken := Some t\<rparr>) p"
        using Inr x by (simp add: authenticated_def)
      with Some False Inr x assms show ?thesis
        by (auto simp: authenticate_token_def intro!: moves_quiet)
    qed
  qed (use Some assms in \<open>simp add: authenticate_token_def moves_quiet\<close>)
qed

lemma moves_same_sent: "gw_sent gw = gw_sent gw1 \<Longrightarrow> moves decode en r tr gw1 x \<Longrightarrow> moves decode en r tr gw x"
  by (simp add: moves_def)

lemma authenticate_moves:
  assumes "request_inv decode en At_authenticate rq tr"
  shows "moves decode en r tr gw (after_stage At_tenant (authenticate en an rq gw))"
proof -
  have h: "tr = []" "rq_invocation rq = None" using assms by simp_all
  note tok = authenticate_token_moves [OF h(2), of decode en r]
  show ?thesis
  proof (cases "extractBearer (rq_authorization rq)")
    case (Some t)
    with tok h show ?thesis by (simp add: authenticate_def)
  next
    case None
    obtain se st where se: "session_get (an_now an) (rq_sessionCookie rq) (gw_sessions gw) = (se, st)"
      by (metis surj_pair)
    have gm: "moves decode en r [] gw
        (after_stage At_tenant (authenticate_token en (map_option se_accessToken se) rq (gw\<lparr>gw_sessions := st\<rparr>)))"
      by (rule moves_same_sent [OF _ tok]) simp
    show ?thesis
    proof (cases "an_redis an")
      case (Some msg)
      with None tok h show ?thesis by (simp add: authenticate_def moves_quiet)
    next
      case none: None
      with None tok h gm se show ?thesis by (simp add: authenticate_def)
    qed
  qed
qed

lemma resolveTenant_moves:
  assumes "request_inv decode en At_tenant rq tr"
  shows "moves decode en r tr gw (after_stage At_establish (resolveTenant an rq gw))"
proof -
  obtain p where h: "tr = []" "rq_invocation rq = None" "authenticated en rq p" using assms by auto
  from h(3) have p: "rq_principal rq = Some p" by (rule authenticated_principal)
  have ok: "request_inv decode en At_establish (rq\<lparr>rq_tenant := Some t\<rparr>) tr" for t
    using h by auto
  show ?thesis
    using h p ok
    by (auto simp: resolveTenant_def Let_def intro!: moves_quiet split: option.splits sum.splits prod.splits)
qed

lemma establish_moves:
  assumes "request_inv decode en At_establish rq tr"
  shows "moves decode en r tr gw (after_stage At_limit (establish rq gw))"
proof -
  obtain p where h: "tr = []" "rq_invocation rq = None" "authenticated en rq p" "rq_tenant rq \<noteq> None"
    using assms by auto
  from h(3) have p: "rq_principal rq = Some p" by (rule authenticated_principal)
  have refuse: "moves decode en r tr gw (after_stage At_limit (Some t, rq, gw))" for t
    using h by (simp add: moves_quiet)
  show ?thesis
  proof (cases "parse_server (rq_server rq)")
    case None
    with refuse show ?thesis by (simp add: establish_def)
  next
    case (Some server)
    show ?thesis
    proof (cases "findTool (rq_tool rq)")
      case None
      with Some refuse show ?thesis by (simp add: establish_def)
    next
      case found: (Some entry)
      let ?i = "new_invocation server (rq_tool rq) (call_arguments (rq_body rq))"
      show ?thesis
      proof (cases "rq_tool rq = [] \<or> ca_server entry \<noteq> server")
        case True
        with Some found refuse show ?thesis by (auto simp: establish_def)
      next
        case False
        show ?thesis
        proof (cases "missing_scopes entry (rq_principal rq) = []")
          case True
          then have "list_all (hasScope (pn_scopes p)) (ca_requiredScopes entry)"
            using p by (simp add: missing_scopes_def filter_empty_conv list_all_iff)
          with found False have "entitled p ?i" by (auto simp: entitled_def new_invocation_def)
          moreover have "undecided ?i" by (simp add: undecided_def new_invocation_def)
          ultimately have "request_inv decode en At_limit (rq\<lparr>rq_invocation := Some ?i\<rparr>) tr"
            using h by auto
          with Some found False True show ?thesis by (simp add: establish_def moves_quiet Let_def)
        next
          case missing: False
          with Some found False h show ?thesis
            by (auto simp: establish_def Let_def deny_with_def new_invocation_def intro!: moves_quiet)
        qed
      qed
    qed
  qed
qed

lemma refusal_inv:
  assumes "calls_ok decode en rq tr" and "rq_invocation rq = Some i" and "continues i i'"
    and "authenticated en rq p" and "\<not> inv_audited i'"
  shows "request_inv decode en (At_refusal t) (rq\<lparr>rq_invocation := Some i'\<rparr>) tr"
  using calls_ok_continues [OF assms(1-3)] assms(4,5) by auto

lemma deny_with_audited [simp]: "inv_audited (deny_with m i) = inv_audited i"
  by (simp add: deny_with_def)

lemma undecided_frame [simp]:
  "undecided (i\<lparr>inv_rateLimit := v\<rparr>) = undecided i"
  "undecided (i\<lparr>inv_policy := d\<rparr>) = undecided i"
  "undecided (i\<lparr>inv_tokenExchange := t\<rparr>) = undecided i"
  "undecided (i\<lparr>inv_upstreamLatencyMs := l\<rparr>) = undecided i"
  by (simp_all add: undecided_def)

lemma entitled_frame [simp]:
  "entitled p (i\<lparr>inv_rateLimit := v\<rparr>) = entitled p i"
  "entitled p (i\<lparr>inv_policy := d\<rparr>) = entitled p i"
  "entitled p (i\<lparr>inv_tokenExchange := t\<rparr>) = entitled p i"
  by (simp_all add: entitled_def)

lemma rateLimitStage_moves:
  assumes "request_inv decode en At_limit rq tr"
  shows "moves decode en r tr gw (after_stage At_policy (rateLimitStage en an rq gw))"
proof -
  obtain p i where h: "tr = []" "rq_tenant rq \<noteq> None" "authenticated en rq p" "rq_invocation rq = Some i"
    "undecided i" "entitled p i" using assms by auto
  from h(3) have p: "rq_principal rq = Some p" by (rule authenticated_principal)
  have live: "\<not> inv_audited i" using h(5) by (simp add: undecided_def)
  have refuse: "request_inv decode en (At_refusal t) rq tr" for t using h live by auto
  show ?thesis
  proof (cases "an_redis an")
    case (Some msg)
    with h p refuse show ?thesis by (simp add: rateLimitStage_def moves_quiet)
  next
    case None
    obtain st out where rc: "rate_check (en_rnd en) (en_script_sha en) (an_now an) (gw_limits gw)
        \<lparr>lq_tenantId = pn_tenantId p, lq_userId = pn_subject p, lq_toolName = inv_tool i,
         lq_tier = stage_tier i, lq_cost = None\<rparr> (gw_limiter gw) = (st, out)"
      by (metis surj_pair)
    show ?thesis
    proof (cases out)
      case (Inl msg)
      with None rc h p refuse show ?thesis by (simp add: rateLimitStage_def moves_quiet)
    next
      case (Inr o')
      let ?i1 = "i\<lparr>inv_rateLimit := Some (verdict_of o')\<rparr>"
      show ?thesis
      proof (cases "lo_allowed o'")
        case True
        then have "within_limit ?i1" by (simp add: within_limit_def verdict_of_def)
        then have "request_inv decode en At_policy (rq\<lparr>rq_invocation := Some ?i1\<rparr>) tr" using h by auto
        with None rc Inr True h p show ?thesis by (simp add: rateLimitStage_def moves_quiet Let_def)
      next
        case False
        have "request_inv decode en (At_refusal t) (rq\<lparr>rq_invocation := Some (deny_with m ?i1)\<rparr>) tr" for t m
          using h live by auto
        with None rc Inr False h p show ?thesis by (simp add: rateLimitStage_def moves_quiet Let_def)
      qed
    qed
  qed
qed

lemma policyStage_moves:
  assumes "request_inv decode en At_policy rq tr" and "rq_principal rq = Some p"
    and "\<And>tok. an_mint an = Inr tok \<Longrightarrow> names_subject decode (mt_accessToken tok) (pn_subject p)"
  shows "moves decode en r tr gw (after_stage At_exchange (policyStage en an r rq gw))"
proof -
  obtain q i where q: "tr = []" "rq_tenant rq \<noteq> None" "authenticated en rq q" "rq_invocation rq = Some i"
    "undecided i" "entitled q i" "within_limit i"
    using assms(1) by auto
  have "q = p" using authenticated_principal [OF q(3)] assms(2) by simp
  note h = q [unfolded this]
  obtain t where t: "rq_tenant rq = Some t" using h(2) by auto
  have live: "\<not> inv_audited i" using h(5) by (simp add: undecided_def)
  show ?thesis
  proof (cases "an_mint an")
    case (Inl e)
    with h t assms(2) live show ?thesis by (auto simp: policyStage_def intro!: moves_quiet)
  next
    case (Inr tok)
    let ?call = "policy_call en p t i tok" and ?gw1 = "record_sent r (Called (policy_call en p t i tok)) gw"
    have asked: "policy_asked decode en rq ?call"
      unfolding policy_asked_def using h t assms(3) [OF Inr] by blast
    have asked': "policy_asked decode en (rq\<lparr>rq_invocation := Some (i\<lparr>inv_policy := d\<rparr>)\<rparr>) ?call" for d
    proof -
      have "policy_call en p t i tok = policy_call en p t (i\<lparr>inv_policy := d\<rparr>) tok" by (simp add: policy_call_def)
      moreover have "within_limit (i\<lparr>inv_policy := d\<rparr>)" using h(7) by (simp add: within_limit_def)
      ultimately show ?thesis
        unfolding policy_asked_def using h t assms(3) [OF Inr]
        by (intro exI [of _ p] exI [of _ t] exI [of _ "i\<lparr>inv_policy := d\<rparr>"] exI [of _ tok]) simp
    qed
    show ?thesis
    proof (cases "bind_result (callUpstreamTool ?call (an_upstreamMs an) (an_upstream an)) policy_result_of")
      case (Inl e)
      have "request_inv decode en (At_refusal (Thrown_gateway e)) rq (tr @ [Called ?call])"
        using calls_ok_policy [OF asked] h live by auto
      with h t assms(2) Inr Inl show ?thesis by (simp add: policyStage_def moves_note Let_def)
    next
      case ans: (Inr d)
      let ?i1 = "i\<lparr>inv_policy := Some d\<rparr>"
      show ?thesis
      proof (cases "pc_decision d = Deny")
        case True
        have "request_inv decode en (At_refusal e) (rq\<lparr>rq_invocation := Some (deny_with m ?i1)\<rparr>)
            (tr @ [Called ?call])" for e m
        proof -
          have "calls_ok decode en (rq\<lparr>rq_invocation := Some ?i1\<rparr>) (tr @ [Called ?call])"
            using calls_ok_policy [OF asked'] h(1) by simp
          from refusal_inv [OF this, of ?i1 "deny_with m ?i1" p] show ?thesis using h live by simp
        qed
        with h t assms(2) Inr ans True show ?thesis by (simp add: policyStage_def moves_note Let_def)
      next
        case False
        then have pa: "policy_allows ?i1" by (cases "pc_decision d") (simp_all add: policy_allows_def)
        have wl: "within_limit ?i1" using h(7) by (simp add: within_limit_def)
        have "request_inv decode en At_exchange (rq\<lparr>rq_invocation := Some ?i1\<rparr>) (tr @ [Called ?call])"
          using asked' [of "Some d"] h pa wl by auto
        with h t assms(2) Inr ans False show ?thesis by (simp add: policyStage_def moves_note Let_def)
      qed
    qed
  qed
qed

lemma tokenExchangeStage_moves:
  assumes "request_inv decode en At_exchange rq tr" and "rq_principal rq = Some p" and "rq_invocation rq = Some i"
    and "\<And>tok. an_mint an = Inr tok \<Longrightarrow> reply_ok decode (target_mint en p i rq) tok"
  shows "moves decode en r tr gw (after_stage At_dispatch (tokenExchangeStage en an rq gw))"
proof -
  from assms(1) obtain q where q: "authenticated en rq q" "undecided i" "entitled q i" "within_limit i" "policy_allows i"
    using assms(3) by auto
  have "q = p" using authenticated_principal [OF q(1)] assms(2) by simp
  note h = q [unfolded this]
  obtain pc where pc: "tr = [Called pc]" "policy_asked decode en rq pc" using assms(1) by auto
  have live: "\<not> inv_audited i" using h(2) by (simp add: undecided_def)
  have refuse: "request_inv decode en (At_refusal e) (rq\<lparr>rq_invocation := Some (deny_with m i)\<rparr>) tr" for e m
    using refusal_inv [OF _ assms(3), of decode en tr "deny_with m i" p] calls_ok_policy [OF pc(2)] pc(1) h(1) live
    by simp
  let ?t = "mcp_targets (en_urls en) (inv_server i)"
  show ?thesis
  proof (cases "requested_scopes ?t p = []")
    case True
    with refuse assms(2,3) show ?thesis by (simp add: tokenExchangeStage_def moves_quiet Let_def)
  next
    case False
    show ?thesis
    proof (cases "an_mint an")
      case (Inl e)
      with False refuse assms(2,3) show ?thesis by (simp add: tokenExchangeStage_def moves_quiet Let_def)
    next
      case (Inr tok)
      let ?i1 = "i\<lparr>inv_tokenExchange := Some tok\<rparr>"
      from assms(4) [OF Inr] have m: "mirrors decode en p ?i1 tok"
        by (simp add: mirrors_def reply_ok_def target_mint_def Let_def)
      have same: "within_limit ?i1" "policy_allows ?i1"
        using h(4,5) by (simp_all add: within_limit_def policy_allows_def)
      have "policy_asked decode en (rq\<lparr>rq_invocation := Some ?i1\<rparr>) pc"
      proof -
        from pc(2) assms(3) h(1) obtain t tok' where a: "rq_tenant rq = Some t"
          "names_subject decode (mt_accessToken tok') (pn_subject p)" "pc = policy_call en p t i tok'"
          unfolding policy_asked_def by (auto dest!: authenticated_principal)
        have "policy_call en p t i tok' = policy_call en p t ?i1 tok'" by (simp add: policy_call_def)
        with a h same show ?thesis
          unfolding policy_asked_def
          by (intro exI [of _ p] exI [of _ t] exI [of _ ?i1] exI [of _ tok']) simp
      qed
      with pc(1) h m same have "request_inv decode en At_dispatch (rq\<lparr>rq_invocation := Some ?i1\<rparr>) tr" by auto
      with False Inr assms(2,3) show ?thesis by (simp add: tokenExchangeStage_def moves_quiet Let_def)
    qed
  qed
qed

lemma dispatch_moves:
  assumes "request_inv decode en At_dispatch rq tr"
  shows "moves decode en r tr gw (dispatch en an r rq gw)"
proof -
  obtain p i tok where h: "authenticated en rq p" "rq_invocation rq = Some i" "undecided i" "entitled p i"
    "within_limit i" "policy_allows i" "mirrors decode en p i tok"
    using assms by auto
  obtain pc where pc: "tr = [Called pc]" "policy_asked decode en rq pc" using assms by auto
  let ?call = "target_call en i tok" and ?gw1 = "record_sent r (Called (target_call en i tok)) gw"
  have tok: "inv_tokenExchange i = Some tok" using h(7) by (simp add: mirrors_def)
  have "target_asked decode en rq ?call" unfolding target_asked_def using h by blast
  then have calls: "calls_ok decode en rq (tr @ [Called ?call])" using pc by (simp add: calls_ok_def)
  have live: "\<not> inv_audited i" using h(3) by (simp add: undecided_def)
  show ?thesis
  proof (cases "callUpstreamTool ?call (an_upstreamMs an) (an_upstream an)")
    case (Inl e)
    have "request_inv decode en (At_refusal (Thrown_gateway e)) rq (tr @ [Called ?call])"
      using calls h live by auto
    with Inl h(2) tok show ?thesis by (simp add: dispatch_def mcp_proxy_def moves_note Let_def)
  next
    case (Inr res)
    let ?i1 = "i\<lparr>inv_upstreamLatencyMs := Some (ur_latencyMs res)\<rparr>"
    let ?i2 = "if ur_isError res then ?i1\<lparr>inv_denyReason := None\<rparr> else ?i1"
    have "undecided ?i2" using h(3) by (simp add: undecided_def)
    moreover have "calls_ok decode en (rq\<lparr>rq_invocation := Some ?i2\<rparr>) (tr @ [Called ?call])"
      by (rule calls_ok_continues [OF calls h(2)]) simp
    ultimately have "request_inv decode en (At_audit res) (rq\<lparr>rq_invocation := Some ?i2\<rparr>) (tr @ [Called ?call])"
      using h(1) pc(1) by auto
    with Inr h(2) tok show ?thesis
      by (simp add: dispatch_def mcp_proxy_def moves_note Let_def)
  qed
qed

text \<open>The audit stage on an invocation that has not been recorded.\<close>

lemma audit_stage_writes:
  assumes "rq_invocation rq = Some i" and "rq_principal rq = Some p" and "\<not> inv_audited i"
    and "audit_stage en an r rq gw = (rq1, gw1)"
  shows "rq1 = rq\<lparr>rq_invocation := Some (i\<lparr>inv_audited := True\<rparr>)\<rparr>"
    and "gw_sent gw1 = gw_sent gw @ map (Pair r) [Appended (audit_input an p (i\<lparr>inv_audited := True\<rparr>)),
      Announced (audit_event an p (i\<lparr>inv_audited := True\<rparr>) rq1)]"
proof -
  have "audit_input an p (i\<lparr>inv_audited := True\<rparr>) = audit_input an p i" by (simp add: audit_input_def)
  moreover have "audit_event an p (i\<lparr>inv_audited := True\<rparr>) (rq\<lparr>rq_invocation := x\<rparr>) = audit_event an p i rq" for x
    by (simp add: audit_event_def)
  ultimately show "rq1 = rq\<lparr>rq_invocation := Some (i\<lparr>inv_audited := True\<rparr>)\<rparr>"
    and "gw_sent gw1 = gw_sent gw @ map (Pair r) [Appended (audit_input an p (i\<lparr>inv_audited := True\<rparr>)),
      Announced (audit_event an p (i\<lparr>inv_audited := True\<rparr>) rq1)]"
    using assms by (auto simp: audit_stage_def Let_def)
qed

lemma finish_moves:
  assumes "request_inv decode en (At_audit res) rq tr"
  shows "moves decode en r tr gw (finish en an r res rq gw)"
proof -
  obtain p i where h: "length tr = 2" "calls_ok decode en rq tr" "authenticated en rq p"
    "rq_invocation rq = Some i" "undecided i"
    using assms by auto
  obtain rq1 gw1 where a: "audit_stage en an r rq gw = (rq1, gw1)" by (metis surj_pair)
  have live: "\<not> inv_audited i" using h(5) by (simp add: undecided_def)
  let ?i1 = "i\<lparr>inv_audited := True\<rparr>"
  note w = audit_stage_writes [OF h(4) authenticated_principal [OF h(3)] live a]
  have calls: "calls_ok decode en rq1 tr"
    unfolding w(1) by (rule calls_ok_continues [OF h(2,4)]) simp
  have "reply_recorded rq1 ?i1 (tool_reply res rq1 ?i1) tr"
    using h(1,5) by (auto simp: reply_recorded_def undecided_def)
  with calls h(3) have "settled decode en rq1 (tool_reply res rq1 ?i1)
      (tr @ [Appended (audit_input an p ?i1), Announced (audit_event an p ?i1 rq1)])"
    unfolding settled_def w(1) by auto
  then show ?thesis
    unfolding moves_def using w a
    by (intro exI [of _ "[Appended (audit_input an p ?i1), Announced (audit_event an p ?i1 rq1)]"])
      (simp add: finish_def)
qed

lemma refuse_moves:
  assumes "request_inv decode en (At_refusal t) rq tr"
  shows "moves decode en r tr gw (pipeline_step en an r (At_refusal t) rq gw)"
proof (cases "rq_invocation rq")
  case None
  with assms show ?thesis
    by (auto simp: refuse_call_def mark_refused_def audit_stage_def settled_def intro!: moves_quiet)
next
  case (Some i)
  let ?m = "Some (or_default (inv_denyReason i) (code_str (ge_code (toGatewayError t))))"
  let ?i = "i\<lparr>inv_decision := Deny, inv_denyReason := ?m\<rparr>"
  let ?rq = "rq\<lparr>rq_invocation := Some ?i\<rparr>" and ?i1 = "?i\<lparr>inv_audited := True\<rparr>"
  from assms Some obtain p where h: "calls_ok decode en rq tr" "\<not> inv_audited i" "authenticated en rq p" by auto
  obtain rq1 gw1 where a: "audit_stage en an r ?rq gw = (rq1, gw1)" by (metis surj_pair)
  have inv: "rq_invocation ?rq = Some ?i" and pr: "rq_principal ?rq = Some p" and live: "\<not> inv_audited ?i"
    using authenticated_principal [OF h(3)] h(2) by simp_all
  note w = audit_stage_writes [OF inv pr live a]
  have "calls_ok decode en ?rq tr" by (rule calls_ok_continues [OF h(1) Some]) simp
  from calls_ok_continues [OF this inv, of ?i1] have calls: "calls_ok decode en rq1 tr" unfolding w(1) by simp
  have "reply_recorded rq1 ?i1 (refusal_reply (toGatewayError t)) tr" by (auto simp: reply_recorded_def)
  with calls h(3) have "settled decode en rq1 (refusal_reply (toGatewayError t))
      (tr @ [Appended (audit_input an p ?i1), Announced (audit_event an p ?i1 rq1)])"
    unfolding settled_def w(1) by auto
  then show ?thesis
    unfolding moves_def using w a Some
    by (intro exI [of _ "[Appended (audit_input an p ?i1), Announced (audit_event an p ?i1 rq1)]"])
      (simp add: refuse_call_def mark_refused_def)
qed

section \<open>The exchange service as an interface\<close>

text \<open>What the gateway relies on: a token given for a request is for the request's subject and
  audience and names that subject.\<close>

locale token_mirror =
  fixes decode :: "string \<Rightarrow> claims option"
    and gives :: "mint_request \<Rightarrow> (thrown, mirrored_token) result \<Rightarrow> bool"
  assumes own_subject: "gives q (Inr tok) \<Longrightarrow> reply_ok decode q tok"
begin

lemma pipeline_step_moves:
  assumes "request_inv decode en ph rq tr"
    and "case mint_asked en ph rq of None \<Rightarrow> True | Some q \<Rightarrow> gives q (an_mint an)"
  shows "moves decode en r tr gw (pipeline_step en an r ph rq gw)"
proof (cases ph)
  case At_policy
  with assms(1) obtain p where p: "rq_principal rq = Some p" by (auto dest: authenticated_principal)
  then have "an_mint an = Inr tok \<Longrightarrow> names_subject decode (mt_accessToken tok) (pn_subject p)" for tok
    using assms(2) At_policy own_subject [of "policy_mint en p rq" tok] by (simp add: reply_ok_def policy_mint_def)
  with policyStage_moves [OF _ p] assms(1) At_policy show ?thesis by simp
next
  case At_exchange
  with assms(1) obtain p i where p: "rq_principal rq = Some p" "rq_invocation rq = Some i"
    by (auto dest: authenticated_principal)
  then have "an_mint an = Inr tok \<Longrightarrow> reply_ok decode (target_mint en p i rq) tok" for tok
    using assms(2) At_exchange own_subject by simp
  with tokenExchangeStage_moves [OF _ p] assms(1) At_exchange show ?thesis by simp
next
  case (At_refusal t)
  with refuse_moves assms(1) show ?thesis by blast
next
  case (Replied reply)
  with assms(1) show ?thesis by (simp add: moves_quiet)
qed (use assms(1) in \<open>simp_all only: pipeline_step.simps authenticate_moves resolveTenant_moves establish_moves
      rateLimitStage_moves dispatch_moves finish_moves\<close>)

definition served :: "gw_env \<Rightarrow> (phase \<times> gw_request) option \<Rightarrow> sent list \<Rightarrow> bool" where
  "served en x tr \<longleftrightarrow> (case x of None \<Rightarrow> tr = [] | Some (ph, rq) \<Rightarrow> request_inv decode en ph rq tr)"

definition system_inv :: "gw_env \<Rightarrow> gw_system \<Rightarrow> bool" where
  "system_inv en s \<longleftrightarrow> (\<forall>r. served en (sy_requests s r) (sent_by r (sy_gateway s)))"

lemma system_inv_served: "system_inv en s \<Longrightarrow> served en (sy_requests s r) (sent_by r (sy_gateway s))"
  by (simp add: system_inv_def)

lemma system_invD:
  "system_inv en s \<Longrightarrow> sy_requests s r = Some (ph, rq) \<Longrightarrow> request_inv decode en ph rq (sent_by r (sy_gateway s))"
  using system_inv_served [of en s r] by (simp add: served_def)

lemma system_inv_update:
  assumes "system_inv en s" and "sy_requests s' = (sy_requests s)(r \<mapsto> x)"
    and "served en (Some x) (sent_by r (sy_gateway s'))"
    and "\<And>q. q \<noteq> r \<Longrightarrow> sent_by q (sy_gateway s') = sent_by q (sy_gateway s)"
  shows "system_inv en s'"
  unfolding system_inv_def
proof
  fix q
  show "served en (sy_requests s' q) (sent_by q (sy_gateway s'))"
    using assms(2-4) system_inv_served [OF assms(1), of q] by (cases "q = r") simp_all
qed

lemma system_inv_same:
  assumes "system_inv en s" and "sy_requests s' = sy_requests s"
    and "gw_sent (sy_gateway s') = gw_sent (sy_gateway s)"
  shows "system_inv en s'"
  using assms by (simp add: system_inv_def sent_by_def)

lemma sent_by_append: "gw_sent gw' = gw_sent gw @ map (Pair r) new \<Longrightarrow>
    sent_by q gw' = sent_by q gw @ (if q = r then new else [])"
  by (induction new arbitrary: gw) (auto simp: sent_by_def filter_map comp_def)

lemma advance_inv:
  assumes "system_inv en s" and "sy_requests s r = Some (ph, rq)"
    and "case mint_asked en ph rq of None \<Rightarrow> True | Some q \<Rightarrow> gives q (an_mint an)"
  shows "system_inv en (advance en an r s)"
proof -
  obtain ph' rq' gw' where st: "pipeline_step en an r ph rq (sy_gateway s) = (ph', rq', gw')" by (metis surj_pair)
  from pipeline_step_moves [OF system_invD [OF assms(1,2)] assms(3), of r "sy_gateway s"]
  obtain new where new: "gw_sent gw' = gw_sent (sy_gateway s) @ map (Pair r) new"
    and inv: "request_inv decode en ph' rq' (sent_by r (sy_gateway s) @ new)"
    unfolding moves_def st by auto
  note sent = sent_by_append [OF new]
  have adv: "advance en an r s = \<lparr>sy_gateway = gw', sy_requests = (sy_requests s)(r \<mapsto> (ph', rq'))\<rparr>"
    using assms(2) st by (simp add: advance_def)
  show ?thesis
    by (rule system_inv_update [OF assms(1), of _ r "(ph', rq')"]) (use adv inv sent in \<open>simp_all add: served_def\<close>)
qed

lemma gw_step_inv:
  assumes "gw_step gives en s s'" and "system_inv en s"
  shows "system_inv en s'"
  using assms(1)
proof (cases rule: gw_step.cases)
  case (Arrive r requestId authorization sessionCookie server tool body)
  have "sent_by r (sy_gateway s) = []"
    using system_inv_served [OF assms(2), of r] Arrive(2) by (simp add: served_def)
  with Arrive(1) show ?thesis
    by (intro system_inv_update [OF assms(2), of _ r "(At_authenticate,
        incoming requestId authorization sessionCookie server tool body)"])
      (simp_all add: served_def incoming_def)
next
  case (Stage r an)
  show ?thesis
  proof (cases "sy_requests s r")
    case None
    with Stage(1) assms(2) show ?thesis by (simp add: advance_def)
  next
    case (Some x)
    obtain ph rq where x: "x = (ph, rq)" by (metis surj_pair)
    with Stage Some show ?thesis using advance_inv [OF assms(2), of r ph rq an] by (simp add: pending_mint_def)
  qed
next
  case (Elsewhere ss lm cs st)
  then show ?thesis by (intro system_inv_same [OF assms(2)]) simp_all
next
  case (Replica refuses refuses_json capture newId now input)
  then show ?thesis by (intro system_inv_same [OF assms(2)]) simp_all
qed

lemma gw_reachable_inv: "gw_reachable gives en s \<Longrightarrow> system_inv en s"
proof (induction rule: gw_reachable.induct)
  case (init stream lm cs)
  then show ?case by (simp add: system_inv_def served_def gw_start_def sent_by_def)
next
  case (step s s')
  then show ?case by (blast intro: gw_step_inv)
qed

lemma every_call:
  assumes "gw_reachable gives en s" and "(r, Called call) \<in> set (gw_sent (sy_gateway s))"
  shows "\<exists>ph rq. sy_requests s r = Some (ph, rq) \<and>
    (policy_asked decode en rq call \<or> target_asked decode en rq call)"
proof -
  have inv: "system_inv en s" using assms(1) by (rule gw_reachable_inv)
  have mem: "Called call \<in> set (sent_by r (sy_gateway s))"
    using assms(2) by (force simp: sent_by_def)
  then obtain ph rq where sr: "sy_requests s r = Some (ph, rq)"
    using system_inv_served [OF inv, of r] by (cases "sy_requests s r") (auto simp: served_def)
  have "request_inv decode en ph rq (sent_by r (sy_gateway s))" using inv sr by (rule system_invD)
  with mem have "policy_asked decode en rq call \<or> target_asked decode en rq call"
    by (cases ph) (auto simp: calls_ok_def settled_def split: option.splits)
  with sr show ?thesis by blast
qed

lemma replied_settled:
  assumes "gw_reachable gives en s" and "sy_requests s r = Some (Replied reply, rq)"
  shows "settled decode en rq reply (sent_by r (sy_gateway s))"
  using system_invD [OF gw_reachable_inv [OF assms(1)] assms(2)] by simp

end

text \<open>The mirroring service keeps the promise: \<open>exchange_gives\<close> holds of the replies it makes in
  any of its reachable states.\<close>

definition exchange_gives ::
    "(string \<Rightarrow> string) \<Rightarrow> (rat \<Rightarrow> string) \<Rightarrow> (string \<Rightarrow> claims option) \<Rightarrow> exchange_config \<Rightarrow>
       mint_request \<Rightarrow> (thrown, mirrored_token) result \<Rightarrow> bool" where
  "exchange_gives sha fmt decode tx q out \<longleftrightarrow> colon_free sha \<and>
     (\<exists>s outs s'. exchange_reachable sha fmt decode tx s \<and> exchange_step sha fmt decode tx s outs s' \<and>
        (q, out) \<in> set outs)"

interpretation mirror: token_mirror decode "exchange_gives sha fmt decode tx" for sha fmt decode tx
proof unfold_locales
  fix q tok
  assume "exchange_gives sha fmt decode tx q (Inr tok)"
  then obtain s outs s' where h: "colon_free sha" "exchange_reachable sha fmt decode tx s"
    "exchange_step sha fmt decode tx s outs s'" "(q, Inr tok) \<in> set outs"
    unfolding exchange_gives_def by blast
  from exchange_step_inv [OF h(3) exchange_reachable_inv [OF h(2,1)] h(1)] h(4)
  show "reply_ok decode q tok" by blast
qed

section \<open>The audit log\<close>

text \<open>The log of every reachable gateway is one that appends produce.\<close>

definition log_ok :: "gw_env \<Rightarrow> gateway \<Rightarrow> bool" where
  "log_ok en gw \<longleftrightarrow> audit_reachable (en_sha en) (en_fmt en) (gw_audit gw)"

lemma stage_audit [gw_frame]:
  "gw_audit (snd (snd (authenticate en an rq gw))) = gw_audit gw"
  "gw_audit (snd (snd (resolveTenant an rq gw))) = gw_audit gw"
  "gw_audit (snd (snd (establish rq gw))) = gw_audit gw"
  "gw_audit (snd (snd (rateLimitStage en an rq gw))) = gw_audit gw"
  "gw_audit (snd (snd (policyStage en an r rq gw))) = gw_audit gw"
  "gw_audit (snd (snd (tokenExchangeStage en an rq gw))) = gw_audit gw"
  "gw_audit (snd (snd (mcp_proxy en an r rq gw))) = gw_audit gw"
  by (simp_all add: authenticate_def authenticate_token_def resolveTenant_def establish_def rateLimitStage_def
      policyStage_def tokenExchangeStage_def mcp_proxy_def record_sent_def Let_def
      split: option.splits sum.splits prod.splits)

lemma after_stage_gateway [simp]: "snd (snd (after_stage ph res)) = snd (snd res)"
  by (cases "(ph, res)" rule: after_stage.cases) simp_all

lemma audit_stage_log: "log_ok en gw \<Longrightarrow> log_ok en (snd (audit_stage en an r rq gw))"
  by (auto simp: log_ok_def audit_stage_def record_sent_def Let_def split: option.splits
      intro!: audit_reachable.append)

lemma log_ok_same: "gw_audit gw' = gw_audit gw \<Longrightarrow> log_ok en gw' = log_ok en gw"
  by (simp add: log_ok_def)

lemma dispatch_audit: "gw_audit (snd (snd (dispatch en an r rq gw))) = gw_audit gw"
  using stage_audit(7) [of en an r rq gw] by (auto simp: dispatch_def split: prod.splits sum.splits)

lemma pipeline_step_log: "log_ok en gw \<Longrightarrow> log_ok en (snd (snd (pipeline_step en an r ph rq gw)))"
proof (cases ph)
  case (At_audit res)
  assume "log_ok en gw"
  then have "log_ok en (snd (audit_stage en an r rq gw))" by (rule audit_stage_log)
  with At_audit show ?thesis by (auto simp: finish_def Let_def split: prod.splits option.splits)
next
  case (At_refusal t)
  assume "log_ok en gw"
  then have "log_ok en (snd (audit_stage en an r (mark_refused t rq) gw))" by (rule audit_stage_log)
  with At_refusal show ?thesis by (auto simp: refuse_call_def Let_def split: prod.splits)
qed (simp_all add: log_ok_def gw_frame dispatch_audit)

lemma advance_log: "log_ok en (sy_gateway s) \<Longrightarrow> log_ok en (sy_gateway (advance en an r s))"
proof (cases "sy_requests s r")
  case (Some x)
  assume ok: "log_ok en (sy_gateway s)"
  obtain ph rq where x: "x = (ph, rq)" by (metis surj_pair)
  obtain ph' rq' gw' where st: "pipeline_step en an r ph rq (sy_gateway s) = (ph', rq', gw')" by (metis surj_pair)
  from pipeline_step_log [OF ok, of an r ph rq] st Some x show ?thesis by (simp add: advance_def)
qed (simp add: advance_def)

lemma gw_reachable_log: "gw_reachable gives en s \<Longrightarrow> log_ok en (sy_gateway s)"
proof (induction rule: gw_reachable.induct)
  case (init stream lm cs)
  then show ?case by (simp add: log_ok_def gw_start_def audit_reachable.start)
next
  case (step s s')
  from step.hyps(2) show ?case
  proof (cases rule: gw_step.cases)
    case (Stage r an)
    with step.IH show ?thesis by (simp add: advance_log)
  qed (use step.IH in \<open>simp_all add: log_ok_def audit_reachable.append\<close>)
qed

section \<open>Every request is answered\<close>

fun stages_left :: "phase \<Rightarrow> nat" where
  "stages_left At_authenticate = 9" | "stages_left At_tenant = 8" | "stages_left At_establish = 7"
| "stages_left At_limit = 6" | "stages_left At_policy = 5" | "stages_left At_exchange = 4"
| "stages_left At_dispatch = 3" | "stages_left (At_audit res) = 2" | "stages_left (At_refusal t) = 1"
| "stages_left (Replied reply) = 0"

lemma stages_left_0: "stages_left ph = 0 \<longleftrightarrow> (\<exists>reply. ph = Replied reply)"
  by (cases ph) simp_all

lemma stages_left_after:
  "1 \<le> n \<Longrightarrow> stages_left ph \<le> n \<Longrightarrow> stages_left (fst (after_stage ph res)) \<le> n"
  by (cases "(ph, res)" rule: after_stage.cases) simp_all

lemma stages_left_step: "stages_left (fst (pipeline_step en an r ph rq gw)) \<le> stages_left ph - 1"
proof (cases ph)
  case At_dispatch
  then show ?thesis by (auto simp: dispatch_def split: prod.splits sum.splits)
next
  case (At_audit res)
  then show ?thesis by (auto simp: finish_def split: prod.splits option.splits)
next
  case (At_refusal t)
  then show ?thesis by (auto split: prod.splits)
qed (auto intro!: stages_left_after)

text \<open>The stages of one request, each with its own answers.\<close>

fun run_stages :: "gw_env \<Rightarrow> nat \<Rightarrow> answers list \<Rightarrow> phase \<times> gw_request \<times> gateway \<Rightarrow> phase \<times> gw_request \<times> gateway" where
  "run_stages en r [] st = st"
| "run_stages en r (an # ans) (ph, rq, gw) = run_stages en r ans (pipeline_step en an r ph rq gw)"

lemma run_stages_left: "stages_left (fst (run_stages en r ans st)) \<le> stages_left (fst st) - length ans"
proof (induction ans arbitrary: st)
  case (Cons an ans)
  obtain ph rq gw where st: "st = (ph, rq, gw)" by (metis surj_pair)
  have "stages_left (fst (run_stages en r ans (pipeline_step en an r ph rq gw))) \<le> (stages_left ph - 1) - length ans"
    using Cons.IH [of "pipeline_step en an r ph rq gw"] stages_left_step [of en an r ph rq gw] by linarith
  then show ?case by (simp add: st)
qed simp

section \<open>A service that can answer\<close>

text \<open>An exchange from an empty cache gives what is made of the provider's answer.\<close>

lemma exchange_gives_fresh:
  assumes "colon_free sha" and "mcp_audience (mr_audience q)"
  shows "exchange_gives sha fmt decode tx q (exchanged fmt decode now q answer)"
proof -
  let ?s0 = "exchange_init now" and ?k = "request_key sha tx q"
  let ?s1 = "snd (mint_begin sha tx True True 0 q ?s0)"
  have begun: "mint_begin sha tx True True 0 q ?s0 = ([], ?s0\<lparr>xs_inFlight := (xs_inFlight ?s0)(0 := [(?k, [q])])\<rparr>)"
    by (simp add: mint_begin_def Let_def readCache_def cache_get_def exchange_init_def)
  have r1: "exchange_reachable sha fmt decode tx ?s1"
    by (rule exchange_reachable.step [OF exchange_reachable.init exchange_step.Begin [OF assms(2) prod.collapse [symmetric]]])
  let ?e = "mint_end fmt decode tx True 0 ?k answer ?s1"
  have "(q, exchanged fmt decode now q answer) \<in> set (fst ?e)"
    by (simp only: begun snd_conv) (simp add: mint_end_def Let_def exchange_init_def)
  moreover have "exchange_step sha fmt decode tx ?s1 (fst ?e) (snd ?e)"
    by (rule exchange_step.Answer) simp
  ultimately show ?thesis unfolding exchange_gives_def using assms(1) r1 by blast
qed

end
