(* ===== verification/Gw_Properties.thy ===== *)
theory Gw_Properties
  imports Gw_Pipeline
begin

text \<open>
  What the gateway's enforcement path guarantees, for any number of interleaved requests, any answers
  of the systems around it and the mirroring service as it is modelled.
\<close>

section \<open>A run to evaluate with\<close>

definition demo_claims :: claims where
  "demo_claims = [(''sub'', JStr ''alice''), (''tenant_id'', JStr ''acme''), (''jti'', JStr ''j1''),
     (''role'', JStr ''analyst''), (''scope'', JStr ''salesforce:read policy:evaluate''), (''exp'', jint 900)]"

definition demo_gw :: gw_env where
  "demo_gw = \<lparr>en_issuer = ''idp'', en_urls = server_str,
     en_verify = (\<lambda>t o'. if t = ''tok'' then Inr demo_claims else Inl Thrown_other),
     en_rnd = id, en_script_sha = ''s'', en_sha = len_digest, en_fmt = ratio_fmt, en_capturePayloads = False\<rparr>"

definition demo_policy_answer :: "string \<Rightarrow> jval" where
  "demo_policy_answer d = JObj [(''structuredContent'', JObj
     [(''decision'', JStr d), (''ruleId'', JStr ''r1''), (''reason'', JStr ''because'')])]"

definition demo_given :: "mint_request \<Rightarrow> (thrown, mirrored_token) result" where
  "demo_given q = exchanged (\<lambda>x. []) demo_decode 0 q (Inr (JObj [(''access_token'', JStr ''alice'')]))"

definition demo_pl :: principal where
  "demo_pl = \<lparr>pn_subject = ''alice'', pn_tenantId = ''acme'', pn_email = None, pn_name = None,
     pn_role = Analyst, pn_scopes = [''salesforce:read'', ''policy:evaluate''], pn_tokenId = ''j1'',
     pn_clientId = ''unknown'', pn_expiresAt = JFin 900\<rparr>"

definition demo_mint_for :: "string \<Rightarrow> string list \<Rightarrow> mint_request" where
  "demo_mint_for a ss = \<lparr>mr_principal = demo_pl, mr_subjectToken = ''tok'', mr_audience = a, mr_scopes = ss\<rparr>"

definition demo_answers :: "mint_request \<Rightarrow> jval \<Rightarrow> answers" where
  "demo_answers q v = \<lparr>an_redis = None, an_now = 1000, an_later = 1000,
     an_tenant = Inr (Some \<lparr>tr_id = ''acme'', tr_name = ''Acme'', tr_plan = ''pro''\<rparr>),
     an_mint = demo_given q, an_upstream = Inr v, an_upstreamMs = JFin 5, an_rowId = ''row1'',
     an_latencyMs = JFin 9, an_traceId = None, an_refuses = (\<lambda>r. False), an_refuses_json = (\<lambda>t. False)\<rparr>"

definition demo_policy_mint :: mint_request where
  "demo_policy_mint = demo_mint_for ''mcp:policy-engine'' [''policy:evaluate'']"

definition demo_target_mint :: mint_request where
  "demo_target_mint = demo_mint_for ''mcp:salesforce'' [''salesforce:read'']"

definition demo_start :: gw_system where
  "demo_start = (gw_start (new_stream None) (\<lparr>lm_sha = None, lm_now = None\<rparr>, \<lparr>rs_db = (\<lambda>k. None), rs_scripts = []\<rparr>)
     \<lparr>cs_records = [], cs_index = (\<lambda>k. None), cs_loadedAt = 0\<rparr>)
     \<lparr>sy_requests := (\<lambda>r. None)(4 \<mapsto> (At_authenticate,
        incoming ''q1'' (Some ''Bearer tok'') None ''salesforce'' ''sf.query'' (JObj [])))\<rparr>"

text \<open>Up to the policy stage; through the exchange to the answer of the target; to the reply.\<close>

definition demo_upto_policy :: gw_system where
  "demo_upto_policy =
     (let an = demo_answers demo_policy_mint (demo_policy_answer ''allow'')
      in advance demo_gw an 4 (advance demo_gw an 4 (advance demo_gw an 4 (advance demo_gw an 4 demo_start))))"

definition demo_decided :: "string \<Rightarrow> gw_system" where
  "demo_decided d = advance demo_gw (demo_answers demo_policy_mint (demo_policy_answer d)) 4 demo_upto_policy"

definition demo_called :: gw_system where
  "demo_called =
     (let an = demo_answers demo_target_mint (JObj [])
      in advance demo_gw an 4 (advance demo_gw an 4 (demo_decided ''allow'')))"

definition demo_replied :: gw_system where
  "demo_replied = advance demo_gw (demo_answers demo_target_mint (JObj [])) 4 demo_called"

definition demo_refused :: gw_system where
  "demo_refused = advance demo_gw (demo_answers demo_policy_mint (JObj [])) 4 (demo_decided ''deny'')"

abbreviation demo_gives :: "mint_request \<Rightarrow> (thrown, mirrored_token) result \<Rightarrow> bool" where
  "demo_gives \<equiv> exchange_gives (\<lambda>s. []) (\<lambda>x. []) demo_decode demo_tx"

lemma demo_gives_given: "mcp_audience (mr_audience q) \<Longrightarrow> demo_gives q (demo_given q)"
  unfolding demo_given_def by (rule exchange_gives_fresh) (simp_all add: colon_free_def)

lemma stage_quiet:
  "gw_reachable gives en s \<Longrightarrow> pending_mint en s r = None \<Longrightarrow> gw_reachable gives en (advance en an r s)"
  by (rule gw_reachable.step [OF _ gw_step.Stage]) simp_all

lemma stage_mint:
  "gw_reachable demo_gives en s \<Longrightarrow> pending_mint en s r = Some q \<Longrightarrow> mcp_audience (mr_audience q) \<Longrightarrow>
     gw_reachable demo_gives en (advance en (demo_answers q v) r s)"
  by (rule gw_reachable.step [OF _ gw_step.Stage]) (simp_all add: demo_answers_def demo_gives_given)

lemma demo_start_reachable: "gw_reachable demo_gives demo_gw demo_start"
  unfolding demo_start_def
  using gw_reachable.step [OF gw_reachable.init gw_step.Arrive [where r = 4]]
  by (simp add: gw_start_def)

lemma demo_policy_audience [simp]:
  "mcp_audience (mr_audience demo_policy_mint)" "mcp_audience (mr_audience demo_target_mint)"
  by code_simp+

lemma demo_quiet:
  "pending_mint demo_gw demo_start 4 = None"
  "let an = demo_answers demo_policy_mint (demo_policy_answer ''allow''); s1 = advance demo_gw an 4 demo_start;
     s2 = advance demo_gw an 4 s1; s3 = advance demo_gw an 4 s2
   in pending_mint demo_gw s1 4 = None \<and> pending_mint demo_gw s2 4 = None \<and> pending_mint demo_gw s3 4 = None"
  by code_simp+

lemma demo_upto_policy_reachable: "gw_reachable demo_gives demo_gw demo_upto_policy"
  unfolding demo_upto_policy_def Let_def
  by (intro stage_quiet demo_start_reachable) (use demo_quiet in \<open>simp_all only: Let_def\<close>)

lemma demo_pending_policy: "pending_mint demo_gw demo_upto_policy 4 = Some demo_policy_mint"
  by code_simp

lemma demo_decided_reachable: "gw_reachable demo_gives demo_gw (demo_decided d)"
  unfolding demo_decided_def
  by (rule stage_mint [OF demo_upto_policy_reachable demo_pending_policy]) simp

lemma demo_pending_exchange: "pending_mint demo_gw (demo_decided ''allow'') 4 = Some demo_target_mint"
  by code_simp

lemma demo_pending_dispatch:
  "pending_mint demo_gw (advance demo_gw (demo_answers demo_target_mint (JObj [])) 4 (demo_decided ''allow'')) 4 = None"
  by code_simp

lemma demo_called_reachable: "gw_reachable demo_gives demo_gw demo_called"
  unfolding demo_called_def Let_def
  by (intro stage_quiet stage_mint [OF demo_decided_reachable demo_pending_exchange] demo_pending_dispatch) simp

lemma demo_pending_audit: "pending_mint demo_gw demo_called 4 = None"
  by code_simp

lemma demo_replied_reachable: "gw_reachable demo_gives demo_gw demo_replied"
  unfolding demo_replied_def by (intro stage_quiet demo_called_reachable demo_pending_audit)

lemma demo_pending_refusal: "pending_mint demo_gw (demo_decided ''deny'') 4 = None"
  by code_simp

lemma demo_refused_reachable: "gw_reachable demo_gives demo_gw demo_refused"
  unfolding demo_refused_def by (intro stage_quiet demo_decided_reachable demo_pending_refusal)

section \<open>Properties\<close>

text \<open>C1: nothing leaves the gateway on behalf of a request that has not earned it. In every reachable
  state every call made to an MCP server for a request carries a token that names the subject of the
  verified credential, and the caller held the scopes of a catalogued tool of that server and was
  within the rate limit; a call other than the policy question is the requested tool's, with the
  policy's permission and the token minted for that server's audience. So a policy engine or exchange
  service that is down or answers badly means no call.\<close>

theorem calls_are_authorised:
  assumes "gw_reachable (exchange_gives sha fmt decode tx) en s"
    and "(r, Called call) \<in> set (gw_sent (sy_gateway s))"
  shows "\<exists>ph rq p i. sy_requests s r = Some (ph, rq) \<and> authenticated en rq p \<and> rq_invocation rq = Some i \<and>
    names_subject decode (uc_accessToken call) (pn_subject p) \<and> entitled p i \<and> within_limit i \<and>
    (uc_toolName call = ''policy.evaluate'' \<or>
     (\<exists>tok. call = target_call en i tok \<and> policy_allows i \<and> mirrors decode en p i tok))"
proof -
  from mirror.every_call [OF assms] obtain ph rq where sr: "sy_requests s r = Some (ph, rq)"
    and c: "policy_asked decode en rq call \<or> target_asked decode en rq call" by blast
  from c show ?thesis
  proof
    assume "policy_asked decode en rq call"
    then obtain p t i tok where a: "authenticated en rq p" "rq_invocation rq = Some i" "entitled p i"
      "within_limit i" "names_subject decode (mt_accessToken tok) (pn_subject p)" "call = policy_call en p t i tok"
      unfolding policy_asked_def by blast
    then have "uc_toolName call = ''policy.evaluate''" "uc_accessToken call = mt_accessToken tok"
      by (simp_all add: policy_call_def)
    with a sr show ?thesis by auto
  next
    assume "target_asked decode en rq call"
    then obtain p i tok where a: "authenticated en rq p" "rq_invocation rq = Some i" "entitled p i"
      "within_limit i" "policy_allows i" "mirrors decode en p i tok" "call = target_call en i tok"
      unfolding target_asked_def by blast
    then have "names_subject decode (uc_accessToken call) (pn_subject p)"
      by (simp add: mirrors_def target_call_def)
    with a sr show ?thesis by blast
  qed
qed

definition demo_target_call :: upstream_call where
  "demo_target_call = \<lparr>uc_url = ''salesforce'', uc_server = ''salesforce'', uc_toolName = ''sf.query'',
     uc_arguments = JObj [], uc_accessToken = ''alice'', uc_timeoutMs = Some 20000\<rparr>"

theorem calls_are_authorised_witness:
  "\<exists>ph rq p i. sy_requests demo_called 4 = Some (ph, rq) \<and> authenticated demo_gw rq p \<and>
    rq_invocation rq = Some i \<and> policy_allows i"
proof -
  have "list_ex (\<lambda>x. case x of (r, Called c) \<Rightarrow> r = 4 \<and> c = demo_target_call | _ \<Rightarrow> False) (gw_sent (sy_gateway demo_called))"
    by code_simp
  then have sent: "(4, Called demo_target_call) \<in> set (gw_sent (sy_gateway demo_called))"
    by (auto simp: list_ex_iff split: sent.splits)
  from calls_are_authorised [OF demo_called_reachable sent] show ?thesis
    by (auto simp: demo_target_call_def)
qed

text \<open>C2: exactly one audit row per invocation, and it tells what happened. When a request has been
  replied to, what was sent for it is at most two calls, and, if the invocation was established,
  then one append and one event with its final decision after them: an allowance with both calls
  made when the reply carries the tool's result, a denial with a reason when it is a refusal. A
  request refused before its invocation was established has sent nothing.\<close>

theorem audited_exactly_once:
  assumes "gw_reachable (exchange_gives sha fmt decode tx) en s"
    and "sy_requests s r = Some (Replied reply, rq)"
  shows "case rq_invocation rq of
      None \<Rightarrow> sent_by r (sy_gateway s) = [] \<and> (\<exists>t. reply = refusal_reply (toGatewayError t))
    | Some i \<Rightarrow> (\<exists>calls p an. authenticated en rq p \<and> length calls \<le> 2 \<and>
        sent_by r (sy_gateway s) = map Called calls @ [Appended (audit_input an p i), Announced (audit_event an p i rq)] \<and>
        ((inv_decision i = Allow \<and> length calls = 2 \<and> (\<exists>res. reply = tool_reply res rq i)) \<or>
         (inv_decision i = Deny \<and> inv_denyReason i \<noteq> None \<and> (\<exists>t. reply = refusal_reply (toGatewayError t)))))"
proof -
  have st: "settled decode en rq reply (sent_by r (sy_gateway s))" by (rule mirror.replied_settled [OF assms])
  show ?thesis
  proof (cases "rq_invocation rq")
    case None
    with st show ?thesis by (simp add: settled_def)
  next
    case (Some i)
    with st obtain calls p an where a: "calls_ok decode en rq calls" "authenticated en rq p"
      "sent_by r (sy_gateway s) = calls @ [Appended (audit_input an p i), Announced (audit_event an p i rq)]"
      "reply_recorded rq i reply calls"
      unfolding settled_def by auto
    from a(1) obtain cs where cs: "calls = map Called cs" "length cs \<le> 2"
    proof -
      from a(1) have "calls = map Called [] \<or> (\<exists>pc. calls = map Called [pc]) \<or> (\<exists>pc tc. calls = map Called [pc, tc])"
        unfolding calls_ok_def by auto
      then show thesis by (elim disjE exE) (rule that, assumption, simp)+
    qed
    have "(inv_decision i = Allow \<and> length cs = 2 \<and> (\<exists>res. reply = tool_reply res rq i)) \<or>
        (inv_decision i = Deny \<and> inv_denyReason i \<noteq> None \<and> (\<exists>t. reply = refusal_reply (toGatewayError t)))"
      using a(4) cs(1) by (simp add: reply_recorded_def)
    with a(2,3) cs Some show ?thesis by (auto intro!: exI [of _ cs] exI [of _ p] exI [of _ an])
  qed
qed

definition denied :: "(phase \<times> gw_request) option \<Rightarrow> bool" where
  "denied x = (case x of Some (Replied reply, rq) \<Rightarrow>
     (case rq_invocation rq of None \<Rightarrow> False | Some i \<Rightarrow> inv_decision i = Deny) | _ \<Rightarrow> False)"

lemma deniedE:
  "denied x \<Longrightarrow> \<exists>reply rq i. x = Some (Replied reply, rq) \<and> rq_invocation rq = Some i \<and> inv_decision i = Deny"
proof (cases x)
  case (Some y)
  assume h: "denied x"
  obtain ph rq where y: "y = (ph, rq)" by (metis surj_pair)
  show ?thesis
  proof (cases "\<exists>reply. ph = Replied reply")
    case True
    with h Some y show ?thesis by (cases "rq_invocation rq") (auto simp: denied_def)
  next
    case False
    with h Some y show ?thesis by (cases ph) (simp_all add: denied_def)
  qed
qed (simp add: denied_def)

theorem audited_exactly_once_witness:
  "\<exists>i. rq_invocation (snd (the (sy_requests demo_refused 4))) = Some i \<and> inv_decision i = Deny \<and>
     inv_denyReason i \<noteq> None \<and>
     (\<exists>calls p an. sent_by 4 (sy_gateway demo_refused) =
        map Called calls @ [Appended (audit_input an p i), Announced (audit_event an p i (snd (the (sy_requests demo_refused 4))))])"
proof -
  let ?x = "the (sy_requests demo_refused 4)"
  have "denied (sy_requests demo_refused 4)" by code_simp
  then obtain reply rq i where x: "sy_requests demo_refused 4 = Some (Replied reply, rq)"
    "rq_invocation rq = Some i" "inv_decision i = Deny"
    using deniedE by blast
  from audited_exactly_once [OF demo_refused_reachable x(1)] x show ?thesis by auto
qed





end
