(* ===== verification/Zod_Values.thy ===== *)
theory Zod_Values
  imports Js_Value
begin

text \<open>
  What the request schemas of the source check of single values: bounded integers, optional and
  non-empty strings, members of an enumeration. \<open>None\<close> is a failed check.
\<close>

definition int_between :: "int \<Rightarrow> int option \<Rightarrow> js_num \<Rightarrow> int option" where
  "int_between lo hi n = (case n of
     JFin q \<Rightarrow> if is_int_rat q \<and> of_int lo \<le> q \<and> (case hi of None \<Rightarrow> True | Some h \<Rightarrow> q \<le> of_int h)
               then Some \<lfloor>q\<rfloor> else None
   | JNegZero \<Rightarrow> if lo \<le> 0 \<and> (case hi of None \<Rightarrow> True | Some h \<Rightarrow> 0 \<le> h) then Some 0 else None
   | _ \<Rightarrow> None)"

lemma int_between_bounds: "int_between lo (Some hi) n = Some k \<Longrightarrow> lo \<le> k \<and> k \<le> hi"
proof (cases n)
  case (JFin q)
  assume "int_between lo (Some hi) n = Some k"
  with JFin have "of_int lo \<le> q" "q \<le> of_int hi" "k = \<lfloor>q\<rfloor>" by (auto simp: int_between_def split: if_splits)
  then show ?thesis by (metis floor_le_iff floor_mono floor_of_int)
qed (auto simp: int_between_def split: if_splits)

text \<open>\<open>schema.optional()\<close> and \<open>schema.default(d)\<close>.\<close>

definition zod_optional :: "(jval \<Rightarrow> 'a option) \<Rightarrow> jval \<Rightarrow> 'a option option" where
  "zod_optional f v = (if v = JUndef then Some None else map_option Some (f v))"

definition zod_default :: "'a \<Rightarrow> (jval \<Rightarrow> 'a option) \<Rightarrow> jval \<Rightarrow> 'a option" where
  "zod_default d f v = (if v = JUndef then Some d else f v)"

definition zod_int :: "int \<Rightarrow> int option \<Rightarrow> jval \<Rightarrow> int option" where
  "zod_int lo hi v = (case v of JNum n \<Rightarrow> int_between lo hi n | _ \<Rightarrow> None)"

definition zod_bool :: "jval \<Rightarrow> bool option" where
  "zod_bool v = (case v of JBool b \<Rightarrow> Some b | _ \<Rightarrow> None)"

text \<open>\<open>z.string().min(lo).max(hi)\<close>.\<close>

definition zod_string :: "nat \<Rightarrow> nat option \<Rightarrow> jval \<Rightarrow> string option" where
  "zod_string lo hi v = (case v of
     JStr s \<Rightarrow> if lo \<le> length s \<and> (case hi of None \<Rightarrow> True | Some h \<Rightarrow> length s \<le> h) then Some s else None
   | _ \<Rightarrow> None)"

definition zod_enum :: "string list \<Rightarrow> jval \<Rightarrow> string option" where
  "zod_enum members v = (case v of JStr s \<Rightarrow> if s \<in> set members then Some s else None | _ \<Rightarrow> None)"

text \<open>The fields of an object; anything else is refused.\<close>

definition zod_object :: "((string \<Rightarrow> jval) \<Rightarrow> 'a option) \<Rightarrow> jval \<Rightarrow> 'a option" where
  "zod_object f v = (case v of JObj kvs \<Rightarrow> f (own_prop kvs) | _ \<Rightarrow> None)"

lemma zod_int_bounds: "zod_int lo (Some hi) v = Some k \<Longrightarrow> lo \<le> k \<and> k \<le> hi"
  by (auto simp: zod_int_def split: jval.splits dest: int_between_bounds)

end
