(* ===== verification/Gw_Console.thy ===== *)
theory Gw_Console
  imports Gw_Stages Audit_Reader Jwks_Cache Zod_Values
begin

text \<open>
  What the console uses of the gateway (\<open>apps/gateway/src/session.ts\<close>, \<open>routes/bff.ts\<close>,
  \<open>routes/api.ts\<close>, \<open>routes/health.ts\<close>): the session store and the login flow, the read API scoped to
  the caller's tenant, and readiness.
\<close>

section \<open>The session store\<close>

definition session_put :: "int \<Rightarrow> string \<Rightarrow> session_record \<Rightarrow> session_store \<Rightarrow> session_store" where
  "session_put now i r m = map_set m (''sess:'' @ i) (Session r, now + 1000 * (8 * 60 * 60))"

text \<open>\<open>i\<close> is the fresh identifier; the record's creation time is set here.\<close>

definition session_create :: "int \<Rightarrow> string \<Rightarrow> session_record \<Rightarrow> session_store \<Rightarrow> session_store" where
  "session_create now i r m = session_put now i (r\<lparr>se_createdAt := now\<rparr>) m"

definition session_destroy :: "string option \<Rightarrow> session_store \<Rightarrow> session_store" where
  "session_destroy i m = (case i of None \<Rightarrow> m | Some k \<Rightarrow> if k = [] then m else map_del m (''sess:'' @ k))"

text \<open>The verifier and the destination kept for a login in progress; \<open>None\<close> is text that is not
  JSON.\<close>

type_synonym login_store = "string \<Rightarrow> ((string \<times> string) option \<times> int) option"

definition putLoginState :: "int \<Rightarrow> string \<Rightarrow> string \<Rightarrow> string \<Rightarrow> login_store \<Rightarrow> login_store" where
  "putLoginState now state' codeVerifier redirectTo m =
     map_set m (''login:'' @ state') (Some (codeVerifier, redirectTo), now + 1000 * 600)"

definition takeLoginState ::
    "int \<Rightarrow> string option \<Rightarrow> login_store \<Rightarrow> (string \<times> string) option \<times> login_store" where
  "takeLoginState now state' m = (case state' of
     None \<Rightarrow> (None, m)
   | Some k \<Rightarrow>
       if k = [] then (None, m)
       else (case m (''login:'' @ k) of
               None \<Rightarrow> None | Some (v, until) \<Rightarrow> if until \<le> now then None else v,
             map_del m (''login:'' @ k)))"

section \<open>The login flow\<close>

record bff =
  bf_sessions :: session_store
  bf_logins :: login_store

record bff_config =
  bx_publicUrl :: string
  bx_dashboardOrigin :: string
  bx_issuer :: string
  bx_verify :: "string \<Rightarrow> jwt_options \<Rightarrow> thrown + claims"
  bx_sha :: "string \<Rightarrow> string"

definition CONSOLE_SCOPES :: "string list" where
  "CONSOLE_SCOPES =
     [''openid'', ''profile'', ''email'', ''offline_access'', ''salesforce:read'', ''salesforce:read.team'',
      ''salesforce:read.all'', ''salesforce:write'', ''postgres:read'', ''postgres:query'', ''postgres:admin'',
      ''policy:evaluate'', ''policy:read'', ''gateway:admin'']"

definition safe_redirect :: "string option \<Rightarrow> string" where
  "safe_redirect requested =
     (let r = or_default requested ''/''
      in if starts_with r ''/'' \<and> \<not> starts_with r ''//'' then r else ''/'')"

definition redirect_uri :: "bff_config \<Rightarrow> string" where
  "redirect_uri cfg = bx_publicUrl cfg @ ''/auth/callback''"

text \<open>\<open>GET /auth/login\<close>: \<open>bytes\<close> and \<open>state'\<close> are the random verifier and state. The reply is the
  provider's address with its parameters, and the state for the cookie.\<close>

definition auth_login ::
    "(rat \<Rightarrow> string) \<Rightarrow> (http_request \<Rightarrow> http_response option) \<Rightarrow> oauth_client \<Rightarrow> bff_config \<Rightarrow> int \<Rightarrow>
       string \<Rightarrow> string \<Rightarrow> string option \<Rightarrow> bff \<Rightarrow>
       (thrown, (string \<times> (string \<times> string) list) \<times> string) result \<times> bff" where
  "auth_login fmt fetch cl cfg now bytes state' requested s =
     (let pkce = createPkcePair (bx_sha cfg) bytes;
          s1 = s\<lparr>bf_logins := putLoginState now state' (pk_codeVerifier pkce) (safe_redirect requested) (bf_logins s)\<rparr>
      in (bind_result (fst (authorizationUrl fmt fetch cl (redirect_uri cfg) CONSOLE_SCOPES state'
             (pk_codeChallenge pkce) None)) (\<lambda>url. Inr (url, state')), s1))"

record callback_query =
  cq_code :: "string option"
  cq_state :: "string option"
  cq_error :: "string option"

definition bad_request :: "string \<Rightarrow> thrown" where
  "bad_request msg = Thrown_gateway (BadRequestError msg [])"

definition session_of :: "principal \<Rightarrow> string \<Rightarrow> string option \<Rightarrow> session_record" where
  "session_of p accessToken refreshToken =
     \<lparr>se_subject = pn_subject p, se_tenantId = pn_tenantId p, se_email = or_default (pn_email p) [],
      se_name = or_default (pn_name p) (pn_subject p), se_role = pn_role p, se_accessToken = accessToken,
      se_refreshToken = refreshToken, se_expiresAt = pn_expiresAt p, se_scopes = pn_scopes p,
      se_createdAt = 0\<rparr>"

text \<open>\<open>GET /auth/callback\<close> with the login cookie. \<open>exchange\<close> is the token endpoint, \<open>i\<close> the fresh
  session identifier; the reply is the address redirected to and the session cookie.\<close>

definition auth_callback ::
    "bff_config \<Rightarrow> ((string \<times> string) list \<Rightarrow> (thrown, jval) result) \<Rightarrow> int \<Rightarrow> string \<Rightarrow> callback_query \<Rightarrow>
       string option \<Rightarrow> bff \<Rightarrow> (thrown, string \<times> string) result \<times> bff" where
  "auth_callback cfg exchange now i q cookie s =
     (if given (cq_error q)
      then (Inl (bad_request (''The identity provider returned '' @ quoted (or_default (cq_error q) []))), s)
      else if \<not> given (cq_code q) \<or> \<not> given (cq_state q)
      then (Inl (bad_request ''code and state are required''), s)
      else if cookie \<noteq> cq_state q
      then (Inl (bad_request ''Login state does not match this browser session''), s)
      else (let (login, logins) = takeLoginState now (cq_state q) (bf_logins s); s1 = s\<lparr>bf_logins := logins\<rparr>
            in case login of
                 None \<Rightarrow> (Inl (bad_request ''Login state has expired; start again''), s1)
               | Some (codeVerifier, redirectTo) \<Rightarrow>
                   (case exchange (exchangeAuthorizationCode_params (or_default (cq_code q) []) (redirect_uri cfg) codeVerifier) of
                      Inl t \<Rightarrow> (Inl t, s1)
                    | Inr tokens \<Rightarrow>
                        (let token = or_default (as_string (js_get tokens ''access_token'')) []
                         in case verifyAccessToken (bx_verify cfg) token
                              \<lparr>vo_issuer = bx_issuer cfg, vo_audience = None, vo_clockToleranceSeconds = None\<rparr> of
                              Inl e \<Rightarrow> (Inl (Thrown_gateway e), s1)
                            | Inr (cl, p) \<Rightarrow>
                                (Inr (bx_dashboardOrigin cfg @ redirectTo, i),
                                 s1\<lparr>bf_sessions := session_create now i (session_of p token
                                   (as_string (js_get tokens ''refresh_token''))) (bf_sessions s)\<rparr>)))))"

text \<open>\<open>GET /auth/session\<close>; the tenant's row is absent when the read fails.\<close>

definition auth_session ::
    "int \<Rightarrow> string option \<Rightarrow> tenant_record option \<Rightarrow> bff \<Rightarrow> (int \<times> jval) \<times> bff" where
  "auth_session now cookie tenant s =
     (let (session, store) = session_get now cookie (bf_sessions s); s1 = s\<lparr>bf_sessions := store\<rparr>
      in case session of
           None \<Rightarrow> ((401, JObj [(''authenticated'', JBool False)]), s1)
         | Some r \<Rightarrow> ((200, JObj
             [(''authenticated'', JBool True),
              (''user'', JObj
                 [(''subject'', JStr (se_subject r)), (''email'', JStr (se_email r)), (''name'', JStr (se_name r)),
                  (''role'', JStr (role_str (se_role r))), (''tenantId'', JStr (se_tenantId r)),
                  (''tenantName'', JStr (case tenant of None \<Rightarrow> se_tenantId r | Some t \<Rightarrow> tr_name t)),
                  (''tenantPlan'', JStr (case tenant of None \<Rightarrow> ''unknown'' | Some t \<Rightarrow> tr_plan t)),
                  (''scopes'', JArr (map JStr (se_scopes r)))])]), s1))"

definition auth_logout :: "string option \<Rightarrow> bff \<Rightarrow> bff" where
  "auth_logout cookie s = s\<lparr>bf_sessions := session_destroy cookie (bf_sessions s)\<rparr>"

section \<open>The read API\<close>

definition RANGES :: jval where
  "RANGES = JObj [(''15m'', jint (15 * 60000)), (''1h'', jint (60 * 60000)),
     (''24h'', jint (24 * 60 * 60000)), (''7d'', jint (7 * 24 * 60 * 60000))]"

text \<open>The start of a range, an hour ago when it is absent or unknown; a name that objects inherit
  makes it an invalid date.\<close>

definition sinceFor :: "int \<Rightarrow> string option \<Rightarrow> js_date" where
  "sinceFor now window = (case js_get RANGES (or_default window ''1h'') of
     JNum (JFin q) \<Rightarrow> Some (now - \<lfloor>q\<rfloor>)
   | JUndef \<Rightarrow> Some (now - 60 * 60000)
   | _ \<Rightarrow> None)"

definition requireAdmin :: "principal \<Rightarrow> (thrown, unit) result" where
  "requireAdmin p = (if hasScope (pn_scopes p) ''gateway:admin'' then Inr ()
     else Inl (Thrown_gateway (ScopeDeniedError [''gateway:admin''] (pn_scopes p))))"

definition range_error :: "string \<Rightarrow> thrown" where
  "range_error msg = Thrown_error ''RangeError'' msg"

definition map_error :: "('e \<Rightarrow> 'f) \<Rightarrow> ('e, 'a) result \<Rightarrow> ('f, 'a) result" where
  "map_error f r = (case r of Inl e \<Rightarrow> Inl (f e) | Inr x \<Rightarrow> Inr x)"

record overview =
  ow_range :: string
  ow_stats :: audit_stats
  ow_denyRate :: rat
  ow_liveListeners :: nat

definition api_overview ::
    "(string list \<Rightarrow> string list) \<Rightarrow> audit_db \<Rightarrow> (string \<Rightarrow> string option) \<Rightarrow> invocation_stream \<Rightarrow>
       principal \<Rightarrow> int \<Rightarrow> string option \<Rightarrow> (thrown, overview) result" where
  "api_overview emit db tenantName stream p now window =
     (let rng = or_default window ''1h'';
          bucketMinutes = (if rng = ''24h'' then 30 else if rng = ''7d'' then 180 else 5)
      in bind_result (map_error range_error
           (auditStats emit db tenantName (Some (pn_tenantId p)) (sinceFor now (Some rng)) (Some bucketMinutes)))
         (\<lambda>stats. Inr \<lparr>ow_range = rng, ow_stats = stats,
            ow_denyRate = (if st_total stats = 0 then 0 else of_nat (st_denied stats) / of_nat (st_total stats)),
            ow_liveListeners = length (st_listeners stream)\<rparr>))"

text \<open>The query string of \<open>/api/audit\<close>; numbers are coerced.\<close>

record audit_params =
  ap_user :: "string option"
  ap_tool :: "string option"
  ap_server :: "string option"
  ap_decision :: "string option"
  ap_search :: "string option"
  ap_range :: "string option"
  ap_limit :: "string option"
  ap_offset :: "string option"

definition coerce_int :: "int \<Rightarrow> int option \<Rightarrow> int \<Rightarrow> string option \<Rightarrow> int option" where
  "coerce_int lo hi absent v = (case v of
     None \<Rightarrow> Some absent | Some t \<Rightarrow> int_between lo hi (js_string_to_num t))"

definition audit_filter :: "principal \<Rightarrow> int \<Rightarrow> audit_params \<Rightarrow> audit_query option" where
  "audit_filter p now q =
     (case (if ap_decision q \<in> {None, Some ''allow'', Some ''deny''} then Some () else None,
            coerce_int 1 (Some 200) 50 (ap_limit q), coerce_int 0 None 0 (ap_offset q)) of
        (Some _, Some limit, Some off) \<Rightarrow> Some
          \<lparr>aq_tenantId = Some (pn_tenantId p), aq_userId = ap_user q, aq_toolName = ap_tool q,
           aq_mcpServer = ap_server q,
           aq_decision = (case ap_decision q of None \<Rightarrow> None
             | Some d \<Rightarrow> if d = ''deny'' then Some Deny else Some Allow),
           aq_from = (if given (ap_range q) then Some (sinceFor now (ap_range q)) else None),
           aq_to = None, aq_search = ap_search q, aq_limit = Some limit, aq_offset = Some off\<rparr>
      | _ \<Rightarrow> None)"

definition api_audit ::
    "audit_db \<Rightarrow> (string \<Rightarrow> string option) \<Rightarrow> principal \<Rightarrow> int \<Rightarrow> audit_params \<Rightarrow> (thrown, audit_page) result" where
  "api_audit db userName p now q = (case audit_filter p now q of
     None \<Rightarrow> Inl (bad_request ''Invalid audit filter'')
   | Some query \<Rightarrow> map_error range_error (queryAuditEvents db userName query))"

definition canon_thrown :: "canon_error \<Rightarrow> thrown" where
  "canon_thrown e = Thrown_error (if e = BadDate then ''RangeError'' else ''TypeError'') ''canonicalisation failed''"

definition api_verify ::
    "(string \<Rightarrow> string) \<Rightarrow> (rat \<Rightarrow> string) \<Rightarrow> audit_db \<Rightarrow> principal \<Rightarrow> (thrown, chain_verification) result" where
  "api_verify sha fmt db p = map_error canon_thrown (verifyTenantChain sha fmt db (pn_tenantId p) None)"

definition api_verify_all ::
    "(string \<Rightarrow> string) \<Rightarrow> (rat \<Rightarrow> string) \<Rightarrow> audit_db \<Rightarrow> principal \<Rightarrow>
       (thrown, (string \<times> bool \<times> nat \<times> verification_break option) list \<times> bool) result" where
  "api_verify_all sha fmt db p =
     bind_result (requireAdmin p) (\<lambda>_.
     bind_result (map_error canon_thrown (verifyAllChains sha fmt db None)) (\<lambda>rs.
       Inr (map (\<lambda>r. (cv_tenantId r, cv_valid r, cv_rowsChecked r, cv_firstBreak r)) rs, list_all cv_valid rs)))"

section \<open>Rate limit configuration\<close>

record limit_row =
  lw_id :: string
  lw_limit :: limit_record

record limit_update =
  lu_capacity :: int
  lu_refillTokens :: int
  lu_refillIntervalMs :: int

definition parse_limit_update :: "jval \<Rightarrow> limit_update option" where
  "parse_limit_update body =
     (let field = (\<lambda>k hi. case js_get body k of JNum n \<Rightarrow> int_between 0 (Some hi) n | _ \<Rightarrow> None)
      in case body of
           JObj kvs \<Rightarrow> (case (field ''capacity'' 1000000, field ''refillTokens'' 1000000,
                             field ''refillIntervalMs'' 3600000) of
               (Some c, Some t, Some ms) \<Rightarrow> Some \<lparr>lu_capacity = c, lu_refillTokens = t, lu_refillIntervalMs = ms\<rparr>
             | _ \<Rightarrow> None)
         | _ \<Rightarrow> None)"

definition update_in_bounds :: "limit_update \<Rightarrow> bool" where
  "update_in_bounds u \<longleftrightarrow> 0 \<le> lu_capacity u \<and> lu_capacity u \<le> 1000000 \<and> 0 \<le> lu_refillTokens u \<and>
     lu_refillTokens u \<le> 1000000 \<and> 0 \<le> lu_refillIntervalMs u \<and> lu_refillIntervalMs u \<le> 3600000"

lemma parse_limit_update_bounds: "parse_limit_update body = Some u \<Longrightarrow> update_in_bounds u"
  by (auto simp: parse_limit_update_def update_in_bounds_def Let_def dest: int_between_bounds
      split: jval.splits option.splits)

definition apply_update :: "limit_update \<Rightarrow> limit_record \<Rightarrow> limit_record" where
  "apply_update u r = r\<lparr>lr_capacity := lu_capacity u, lr_refillTokens := lu_refillTokens u,
     lr_refillIntervalMs := lu_refillIntervalMs u\<rparr>"

text \<open>\<open>PUT /api/rate-limits/:id\<close>: \<open>is_uuid\<close> is the database's cast. The outcome says that a reload was
  published.\<close>

definition api_limit_update ::
    "(string \<Rightarrow> bool) \<Rightarrow> principal \<Rightarrow> string \<Rightarrow> jval \<Rightarrow> limit_row list \<Rightarrow>
       (thrown, string) result \<times> limit_row list" where
  "api_limit_update is_uuid p i body rows =
     (case requireAdmin p of
        Inl t \<Rightarrow> (Inl t, rows)
      | Inr _ \<Rightarrow>
     (case parse_limit_update body of
        None \<Rightarrow> (Inl (bad_request ''Invalid rate limit configuration''), rows)
      | Some u \<Rightarrow>
          if \<not> is_uuid i then (Inl (Thrown_error ''Error'' ''invalid input syntax for type uuid''), rows)
          else (let mine = (\<lambda>r. lw_id r = i \<and> lr_tenantId (lw_limit r) = pn_tenantId p)
                in if \<not> list_ex mine rows
                   then (Inl (bad_request ''No such rate limit for this tenant''), rows)
                   else (Inr i, map (\<lambda>r. if mine r then r\<lparr>lw_limit := apply_update u (lw_limit r)\<rparr> else r) rows))))"

section \<open>Policies\<close>

text \<open>\<open>mint\<close> is the exchange's outcome for the request returned, \<open>answer\<close> the policy server's.\<close>

definition api_mint :: "(server_id \<Rightarrow> string) \<Rightarrow> principal \<Rightarrow> string option \<Rightarrow> string \<Rightarrow> mint_request" where
  "api_mint urls p inboundToken scope = \<lparr>mr_principal = p, mr_subjectToken = or_default inboundToken [],
     mr_audience = tg_audience (mcp_targets urls Policy_engine), mr_scopes = [scope]\<rparr>"

definition api_call :: "(server_id \<Rightarrow> string) \<Rightarrow> string \<Rightarrow> jval \<Rightarrow> mirrored_token \<Rightarrow> upstream_call" where
  "api_call urls tool args tok = \<lparr>uc_url = tg_url (mcp_targets urls Policy_engine), uc_server = ''policy-engine'',
     uc_toolName = tool, uc_arguments = args, uc_accessToken = mt_accessToken tok, uc_timeoutMs = None\<rparr>"

definition api_ask ::
    "upstream_call \<Rightarrow> js_num \<Rightarrow> (thrown, jval) result \<Rightarrow> (string \<times> jval) list \<Rightarrow> (thrown, jval) result" where
  "api_ask call ms answer otherwise =
     bind_result (map_error Thrown_gateway (callUpstreamTool call ms answer))
       (\<lambda>r. Inr (JObj (or_default (ur_structured r) otherwise)))"

definition api_policies ::
    "(server_id \<Rightarrow> string) \<Rightarrow> (thrown, mirrored_token) result \<Rightarrow> js_num \<Rightarrow> (thrown, jval) result \<Rightarrow>
       (thrown, jval) result" where
  "api_policies urls mint ms answer =
     bind_result mint (\<lambda>tok. api_ask
       (api_call urls ''policy.list_rules'' (JObj [(''bundle'', JStr ''baseline'')]) tok) ms answer
       [(''rules'', JArr [])])"

record policy_trial =
  pt_tool :: string
  pt_server :: string
  pt_role :: string
  pt_scopes :: "string list"
  pt_arguments :: "(string \<times> jval) list"

definition parse_trial :: "jval \<Rightarrow> policy_trial option" where
  "parse_trial body = (case body of
     JObj kvs \<Rightarrow>
       (case (nonempty_string (own_prop kvs ''tool''), nonempty_string (own_prop kvs ''server''),
              if own_prop kvs ''role'' = JUndef then Some ''analyst'' else as_string (own_prop kvs ''role''),
              case own_prop kvs ''scopes'' of JUndef \<Rightarrow> Some []
                | JArr vs \<Rightarrow> if list_all (\<lambda>v. as_string v \<noteq> None) vs then Some (List.map_filter as_string vs) else None
                | _ \<Rightarrow> None,
              case own_prop kvs ''arguments'' of JUndef \<Rightarrow> Some [] | JObj a \<Rightarrow> Some a | _ \<Rightarrow> None) of
          (Some tool, Some server, Some r, Some ss, Some args) \<Rightarrow> Some
            \<lparr>pt_tool = tool, pt_server = server, pt_role = r, pt_scopes = ss, pt_arguments = args\<rparr>
        | _ \<Rightarrow> None)
   | _ \<Rightarrow> None)"

text \<open>The hypothetical caller has the operator's subject and tenant, whatever the body says.\<close>

definition trial_arguments :: "principal \<Rightarrow> tenant_record \<Rightarrow> policy_trial \<Rightarrow> jval" where
  "trial_arguments p t x = JObj
     [(''tool'', JStr (pt_tool x)), (''server'', JStr (pt_server x)), (''bundle'', JStr ''baseline''),
      (''principal'', JObj
         [(''subject'', JStr (pn_subject p)), (''tenantId'', JStr (pn_tenantId p)), (''role'', JStr (pt_role x)),
          (''scopes'', JArr (map JStr (pt_scopes x))), (''territory'', JNull)]),
      (''tenant'', JObj [(''id'', JStr (tr_id t)), (''plan'', JStr (tr_plan t))]),
      (''arguments'', JObj (pt_arguments x))]"

definition api_policy_trial ::
    "(server_id \<Rightarrow> string) \<Rightarrow> principal \<Rightarrow> tenant_record \<Rightarrow> jval \<Rightarrow> (thrown, mirrored_token) result \<Rightarrow> js_num \<Rightarrow>
       (thrown, jval) result \<Rightarrow> (thrown, jval) result" where
  "api_policy_trial urls p t body mint ms answer = (case parse_trial body of
     None \<Rightarrow> Inl (bad_request ''Invalid evaluation request'')
   | Some x \<Rightarrow> bind_result mint (\<lambda>tok. api_ask
       (api_call urls ''policy.explain'' (trial_arguments p t x) tok) ms answer
       [(''decision'', JStr ''deny''), (''reason'', JStr ''Policy engine returned no decision'')]))"

section \<open>Directory\<close>

record tenant_row =
  tw_id :: string
  tw_name :: string
  tw_plan :: string
  tw_region :: string
  tw_created_at :: js_date

record user_row =
  uw_id :: string
  uw_name :: string
  uw_email :: string
  uw_role :: string
  uw_territory :: "string option"
  uw_tenant_id :: string

definition api_tenant ::
    "(string \<Rightarrow> string \<Rightarrow> bool) \<Rightarrow> tenant_row list \<Rightarrow> user_row list \<Rightarrow> principal \<Rightarrow>
       (thrown, (tenant_row \<times> nat \<times> string) option \<times> user_row list) result" where
  "api_tenant le tenants users p =
     (let mine = filter (\<lambda>u. uw_tenant_id u = pn_tenantId p) users;
          listed = sort_by (\<lambda>u v. le (uw_name u) (uw_name v)) mine
      in case List.find (\<lambda>t. tw_id t = pn_tenantId p) tenants of
           None \<Rightarrow> Inr (None, listed)
         | Some t \<Rightarrow> bind_result (map_error range_error (to_iso (tw_created_at t)))
             (\<lambda>created. Inr (Some (t, length mine, created), listed)))"

record client_row =
  cw_client_id :: string
  cw_name :: string
  cw_confidential :: bool
  cw_allowed_scopes :: "string list"
  cw_allowed_grants :: "string list"
  cw_redirect_uris :: "string list"

definition api_clients ::
    "(string \<Rightarrow> string \<Rightarrow> bool) \<Rightarrow> client_row list \<Rightarrow> principal \<Rightarrow> (thrown, client_row list) result" where
  "api_clients le rows p = bind_result (requireAdmin p) (\<lambda>_. Inr (sort_by (\<lambda>u v. le (cw_name u) (cw_name v)) rows))"

section \<open>Readiness\<close>

datatype health = Health_ok | Health_degraded | Health_down

record readiness =
  rd_status :: int
  rd_checks :: "(string \<times> health) list"

text \<open>Where a server's health is asked for: the path \<open>/mcp\<close> at the end replaced.\<close>

definition health_url :: "string \<Rightarrow> string" where
  "health_url url =
     (if 4 \<le> length url \<and> drop (length url - 4) url = ''/mcp''
      then take (length url - 4) url @ ''/healthz'' else url)"

text \<open>Whether the database, Redis and the servers answered in time; \<open>identity\<close> is \<open>None\<close> when the
  refresh of the \<open>n\<close> keys held did not.\<close>

definition readyz :: "bool \<Rightarrow> bool \<Rightarrow> bool option \<Rightarrow> nat \<Rightarrow> (server_id \<Rightarrow> bool) \<Rightarrow> readiness" where
  "readyz database redis identity n reachable =
     (let db = (if database then Health_ok else Health_down);
          rs = (if redis then Health_ok else Health_down);
          ident = (if identity = None \<and> n = 0 then Health_down else Health_ok)
      in \<lparr>rd_status = (if list_all (\<lambda>h. h = Health_ok) [db, rs, ident] then 200 else 503),
          rd_checks = [(''database'', db), (''redis'', rs), (''identity'', ident)] @
            map (\<lambda>t. (''mcp:'' @ server_str t, if reachable t then Health_ok else Health_degraded))
              [Salesforce, Postgres, Policy_engine]\<rparr>)"

text \<open>The request identifier: the caller's when it is a short string.\<close>

definition request_id :: "string option \<Rightarrow> string \<Rightarrow> string" where
  "request_id inbound fresh = (case inbound of
     None \<Rightarrow> fresh | Some i \<Rightarrow> if length i \<le> 200 then i else fresh)"

section \<open>Logins in progress\<close>

inductive bff_step :: "bff_config \<Rightarrow> bff \<Rightarrow> bff \<Rightarrow> bool" for cfg where
  Login: "bff_step cfg s (snd (auth_login fmt fetch cl cfg now bytes state' requested s))"
| Callback: "bff_step cfg s (snd (auth_callback cfg exchange now i q cookie s))"
| Session: "bff_step cfg s (snd (auth_session now cookie tenant s))"
| Logout: "bff_step cfg s (auth_logout cookie s)"
| Lapse: "bff_step cfg s (s\<lparr>bf_logins := map_del (bf_logins s) k\<rparr>)"

inductive bff_reachable :: "bff_config \<Rightarrow> bff \<Rightarrow> bool" for cfg where
  init: "bff_reachable cfg \<lparr>bf_sessions = (\<lambda>k. None), bf_logins = (\<lambda>k. None)\<rparr>"
| step: "bff_reachable cfg s \<Longrightarrow> bff_step cfg s s' \<Longrightarrow> bff_reachable cfg s'"

definition local_path :: "string \<Rightarrow> bool" where
  "local_path r \<longleftrightarrow> starts_with r ''/'' \<and> \<not> starts_with r ''//''"

lemma safe_redirect_local: "local_path (safe_redirect requested)"
proof -
  have "local_path ''/''" by code_simp
  then show ?thesis by (simp add: safe_redirect_def Let_def local_path_def)
qed

definition logins_local :: "login_store \<Rightarrow> bool" where
  "logins_local m \<longleftrightarrow> (\<forall>k cv r until. m k = Some (Some (cv, r), until) \<longrightarrow> local_path r)"

lemma logins_local_del: "logins_local m \<Longrightarrow> logins_local (map_del m k)"
  by (auto simp: logins_local_def)

lemma take_logins_local: "logins_local m \<Longrightarrow> logins_local (snd (takeLoginState now st m))"
  by (auto simp: takeLoginState_def logins_local_del split: option.splits)

lemma callback_logins:
  "bf_logins (snd (auth_callback cfg exchange now i q cookie s)) = bf_logins s \<or>
   bf_logins (snd (auth_callback cfg exchange now i q cookie s)) = snd (takeLoginState now (cq_state q) (bf_logins s))"
  by (simp add: auth_callback_def Let_def split: prod.splits option.splits sum.splits)

lemma bff_reachable_local: "bff_reachable cfg s \<Longrightarrow> logins_local (bf_logins s)"
proof (induction rule: bff_reachable.induct)
  case (step s s')
  from step.hyps(2) show ?case
  proof (cases rule: bff_step.cases)
    case (Login fmt fetch cl now bytes state' requested)
    with step.IH show ?thesis
      by (auto simp: auth_login_def Let_def putLoginState_def logins_local_def safe_redirect_local)
  next
    case (Callback exchange now i q cookie)
    with step.IH callback_logins [of cfg exchange now i q cookie s] take_logins_local show ?thesis by auto
  next
    case (Session now cookie tenant)
    have "bf_logins (snd (auth_session now cookie tenant s)) = bf_logins s"
      by (simp add: auth_session_def Let_def split: prod.splits option.splits)
    with Session step.IH show ?thesis by simp
  next
    case (Lapse k)
    have "bf_logins s' = map_del (bf_logins s) k" using Lapse by simp
    then show ?thesis by (simp only: logins_local_del [OF step.IH])
  qed (use step.IH in \<open>simp add: auth_logout_def\<close>)
qed (simp add: logins_local_def)

text \<open>What a successful callback has checked.\<close>

lemma callback_succeeds:
  assumes "auth_callback cfg exchange now i q cookie s = (Inr (loc, sid), s')"
  obtains st cv path until tokens cl p where "cq_state q = Some st" "cookie = Some st" "sid = i"
    "bf_logins s (''login:'' @ st) = Some (Some (cv, path), until)" "now < until"
    "loc = bx_dashboardOrigin cfg @ path"
    "exchange (exchangeAuthorizationCode_params (or_default (cq_code q) []) (redirect_uri cfg) cv) = Inr tokens"
    "verifyAccessToken (bx_verify cfg) (or_default (as_string (js_get tokens ''access_token'')) [])
       \<lparr>vo_issuer = bx_issuer cfg, vo_audience = None, vo_clockToleranceSeconds = None\<rparr> = Inr (cl, p)"
    "s' = s\<lparr>bf_logins := map_del (bf_logins s) (''login:'' @ st),
       bf_sessions := session_create now i (session_of p (or_default (as_string (js_get tokens ''access_token'')) [])
         (as_string (js_get tokens ''refresh_token''))) (bf_sessions s)\<rparr>"
proof -
  note d = assms [unfolded auth_callback_def]
  from d have g: "\<not> given (cq_error q)" "given (cq_code q)" "given (cq_state q)" "cookie = cq_state q"
    by (simp_all split: if_splits)
  from g(3) obtain st where st: "cq_state q = Some st" "st \<noteq> []" by (auto simp: given_def split: option.splits)
  let ?login = "case bf_logins s (''login:'' @ st) of None \<Rightarrow> None | Some (v, until) \<Rightarrow> if until \<le> now then None else v"
  let ?m = "map_del (bf_logins s) (''login:'' @ st)"
  have take: "takeLoginState now (cq_state q) (bf_logins s) = (?login, ?m)"
    using st by (simp add: takeLoginState_def)
  show thesis
  proof (cases ?login)
    case None
    with d g take show thesis by simp
  next
    case (Some x)
    obtain cv path where x: "x = (cv, path)" by (metis surj_pair)
    from Some x obtain until where until: "bf_logins s (''login:'' @ st) = Some (Some (cv, path), until)" "now < until"
      by (auto split: option.splits if_splits)
    let ?ex = "exchange (exchangeAuthorizationCode_params (or_default (cq_code q) []) (redirect_uri cfg) cv)"
    show thesis
    proof (cases ?ex)
      case (Inl t)
      with d g take Some x show thesis by simp
    next
      case (Inr tokens)
      let ?v = "verifyAccessToken (bx_verify cfg) (or_default (as_string (js_get tokens ''access_token'')) [])
        \<lparr>vo_issuer = bx_issuer cfg, vo_audience = None, vo_clockToleranceSeconds = None\<rparr>"
      show thesis
      proof (cases ?v)
        case (Inl e)
        with d g take Some x Inr show thesis by simp
      next
        case ver: (Inr y)
        obtain cl p where y: "y = (cl, p)" by (metis surj_pair)
        from d g take Some x Inr ver y have r: "loc = bx_dashboardOrigin cfg @ path" "sid = i"
          "s' = s\<lparr>bf_logins := ?m, bf_sessions := session_create now i (session_of p
             (or_default (as_string (js_get tokens ''access_token'')) [])
             (as_string (js_get tokens ''refresh_token''))) (bf_sessions s)\<rparr>"
          by auto
        show thesis
          by (rule that [of st cv path until tokens cl p]) (use st g(4) until Inr ver y r in simp_all)
      qed
    qed
  qed
qed

lemma callback_without_login:
  assumes "bf_logins s (''login:'' @ st) = None" and "cq_state q = Some st"
  shows "\<exists>t. fst (auth_callback cfg exchange now i q cookie s) = Inl t"
proof -
  have "fst (takeLoginState now (Some st) (bf_logins s)) = None"
    using assms(1) by (simp add: takeLoginState_def)
  then obtain m where "takeLoginState now (Some st) (bf_logins s) = (None, m)" by (metis prod.collapse)
  with assms(2) show ?thesis by (simp add: auth_callback_def)
qed

section \<open>Properties\<close>

text \<open>Whose session an identifier is, and until when.\<close>

definition session_owner :: "session_store \<Rightarrow> string \<Rightarrow> (string \<times> int) option" where
  "session_owner m i = map_option (map_prod (\<lambda>v. case v of Session r \<Rightarrow> se_subject r | _ \<Rightarrow> []) id) (m (''sess:'' @ i))"


definition demo_bff :: bff_config where
  "demo_bff = \<lparr>bx_publicUrl = ''http://gw'', bx_dashboardOrigin = ''http://console'', bx_issuer = ''idp'',
     bx_verify = (\<lambda>t o'. if t = ''tok'' then Inr [(''sub'', JStr ''alice''), (''tenant_id'', JStr ''acme''),
       (''jti'', JStr ''j1'')] else Inl Thrown_other), bx_sha = len_digest\<rparr>"

definition demo_login :: bff where
  "demo_login = snd (auth_login ratio_fmt (\<lambda>r. None) (new_oauth_client ''idp'' None ''c'' None) demo_bff 0 ''b'' ''st''
     (Some ''//evil'') \<lparr>bf_sessions = (\<lambda>k. None), bf_logins = (\<lambda>k. None)\<rparr>)"

definition demo_callback :: "(thrown, string \<times> string) result \<times> bff" where
  "demo_callback = auth_callback demo_bff (\<lambda>ps. Inr (JObj [(''access_token'', JStr ''tok'')])) 1000 ''s1''
     \<lparr>cq_code = Some ''code'', cq_state = Some ''st'', cq_error = None\<rparr> (Some ''st'') demo_login"


text \<open>Changing a rate limit. Only an administrator's request changes anything; it changes only the
  row with the requested identifier in the caller's own tenant, to values within the bounds, and a
  refused request changes nothing.\<close>

theorem limit_update_scoped:
  assumes "api_limit_update is_uuid p i body rows = (out, rows')"
  shows "rows' = rows \<or>
    (out = Inr i \<and> hasScope (pn_scopes p) ''gateway:admin'' \<and>
     (\<exists>u. update_in_bounds u \<and>
        rows' = map (\<lambda>r. if lw_id r = i \<and> lr_tenantId (lw_limit r) = pn_tenantId p
          then r\<lparr>lw_limit := apply_update u (lw_limit r)\<rparr> else r) rows))"
proof (cases "hasScope (pn_scopes p) ''gateway:admin''")
  case False
  then show ?thesis using assms by (simp add: api_limit_update_def requireAdmin_def)
next
  case admin: True
  show ?thesis
  proof (cases "parse_limit_update body")
    case None
    then show ?thesis using assms admin by (simp add: api_limit_update_def requireAdmin_def)
  next
    case (Some u)
    then show ?thesis
      using assms admin parse_limit_update_bounds [OF Some]
      by (auto simp: api_limit_update_def requireAdmin_def Let_def split: if_splits)
  qed
qed

definition demo_admin :: principal where
  "demo_admin = \<lparr>pn_subject = ''root'', pn_tenantId = ''acme'', pn_email = None, pn_name = None, pn_role = Admin,
     pn_scopes = [''gateway:*''], pn_tokenId = ''j'', pn_clientId = ''c'', pn_expiresAt = JFin 0\<rparr>"

definition demo_limit_rows :: "limit_row list" where
  "demo_limit_rows = map (\<lambda>tn. \<lparr>lw_id = ''r1'', lw_limit = \<lparr>lr_tenantId = tn, lr_scopeType = Tenant_scope,
     lr_toolName = ''*'', lr_tier = ''default'', lr_capacity = 5, lr_refillTokens = 5, lr_refillIntervalMs = 1000\<rparr>\<rparr>)
     [''acme'', ''other'']"

definition demo_limit_body :: jval where
  "demo_limit_body = JObj [(''capacity'', jint 9), (''refillTokens'', jint 1), (''refillIntervalMs'', jint 60)]"

theorem limit_update_scoped_witness:
  "map (lr_capacity \<circ> lw_limit) (snd (api_limit_update (\<lambda>i. True) demo_admin ''r1'' demo_limit_body demo_limit_rows)) = [9, 5] \<and>
   (\<exists>u. update_in_bounds u \<and>
      snd (api_limit_update (\<lambda>i. True) demo_admin ''r1'' demo_limit_body demo_limit_rows) =
        map (\<lambda>r. if lw_id r = ''r1'' \<and> lr_tenantId (lw_limit r) = pn_tenantId demo_admin
          then r\<lparr>lw_limit := apply_update u (lw_limit r)\<rparr> else r) demo_limit_rows)"
proof -
  let ?x = "api_limit_update (\<lambda>i. True) demo_admin ''r1'' demo_limit_body demo_limit_rows"
  have c: "map (lr_capacity \<circ> lw_limit) (snd ?x) = [9, 5]" by code_simp
  have d: "map (lr_capacity \<circ> lw_limit) demo_limit_rows = [5, 5]" by code_simp
  have n: "snd ?x \<noteq> demo_limit_rows"
  proof
    assume e: "snd ?x = demo_limit_rows"
    from sym [OF c [unfolded e]] d have "[9, 5] = [5, 5 :: int]" by (rule trans)
    then show False by simp
  qed
  have "?x = (fst ?x, snd ?x)" by simp
  from limit_update_scoped [OF this] n c show ?thesis by blast
qed

end
