(* ===== verification/Js_Regex.thy ===== *)
theory Js_Regex
  imports Js_Text
begin

text \<open>
  Regular expressions as ECMA-262 matches them, by backtracking: a pattern is run on a state with a
  continuation, alternatives are tried in order, a repetition is tried with or without one more round
  according to whether it is greedy, and a round that consumes nothing is refused. The relation
  \<open>matches\<close> says what a pattern can match, and the matcher finds a result exactly when there is one.
\<close>

section \<open>Patterns\<close>

datatype regex =
  Eps
| Cls "char \<Rightarrow> bool"
| Cat regex regex
| Alt regex regex
| Star bool regex
| Named string regex
| Bound
| At_start
| At_end

text \<open>What has been consumed, nearest first, what is left, and the named groups.\<close>

record rx_state =
  rx_done :: string
  rx_left :: string
  rx_groups :: "(string \<times> string) list"

definition at_word_edge :: "string \<Rightarrow> string \<Rightarrow> bool" where
  "at_word_edge prev after \<longleftrightarrow>
     (prev \<noteq> [] \<and> word_char (hd prev)) \<noteq> (after \<noteq> [] \<and> word_char (hd after))"

definition rx_char :: "rx_state \<Rightarrow> rx_state" where
  "rx_char st = st\<lparr>rx_done := hd (rx_left st) # rx_done st, rx_left := tl (rx_left st)\<rparr>"

definition rx_capture :: "string \<Rightarrow> rx_state \<Rightarrow> rx_state \<Rightarrow> rx_state" where
  "rx_capture g st st' =
     st'\<lparr>rx_groups := alist_set g (take (length (rx_left st) - length (rx_left st')) (rx_left st)) (rx_groups st')\<rparr>"

definition orelse :: "'a option \<Rightarrow> 'a option \<Rightarrow> 'a option" where
  "orelse x y = (case x of None \<Rightarrow> y | Some v \<Rightarrow> Some v)"

text \<open>\<open>m\<close> runs the repeated pattern; the fuel bounds the rounds, each of which consumes a character.\<close>

primrec rounds ::
    "(rx_state \<Rightarrow> (rx_state \<Rightarrow> 'a option) \<Rightarrow> 'a option) \<Rightarrow> bool \<Rightarrow> nat \<Rightarrow> rx_state \<Rightarrow> (rx_state \<Rightarrow> 'a option) \<Rightarrow> 'a option" where
  "rounds m greedy 0 st k = k st"
| "rounds m greedy (Suc n) st k =
     (if greedy
      then (case m st (\<lambda>st'. if length (rx_left st') < length (rx_left st) then rounds m greedy n st' k else None) of
              Some x \<Rightarrow> Some x | None \<Rightarrow> k st)
      else (case k st of
              Some x \<Rightarrow> Some x
            | None \<Rightarrow> m st (\<lambda>st'. if length (rx_left st') < length (rx_left st) then rounds m greedy n st' k else None)))"

primrec run :: "regex \<Rightarrow> rx_state \<Rightarrow> (rx_state \<Rightarrow> 'a option) \<Rightarrow> 'a option" where
  "run Eps st k = k st"
| "run (Cls P) st k = (if rx_left st \<noteq> [] \<and> P (hd (rx_left st)) then k (rx_char st) else None)"
| "run (Cat r q) st k = run r st (\<lambda>st'. run q st' k)"
| "run (Alt r q) st k = (case run r st k of Some x \<Rightarrow> Some x | None \<Rightarrow> run q st k)"
| "run (Star greedy r) st k = rounds (run r) greedy (length (rx_left st)) st k"
| "run (Named g r) st k = run r st (\<lambda>st'. k (rx_capture g st st'))"
| "run Bound st k = (if at_word_edge (rx_done st) (rx_left st) then k st else None)"
| "run At_start st k = (if rx_done st = [] then k st else None)"
| "run At_end st k = (if rx_left st = [] then k st else None)"

section \<open>What a pattern matches\<close>

primrec matches :: "regex \<Rightarrow> rx_state \<Rightarrow> rx_state \<Rightarrow> bool" where
  "matches Eps = (\<lambda>st st'. st' = st)"
| "matches (Cls P) = (\<lambda>st st'. rx_left st \<noteq> [] \<and> P (hd (rx_left st)) \<and> st' = rx_char st)"
| "matches (Cat r q) = (\<lambda>st st''. \<exists>st'. matches r st st' \<and> matches q st' st'')"
| "matches (Alt r q) = (\<lambda>st st'. matches r st st' \<or> matches q st st')"
| "matches (Star greedy r) =
     (\<lambda>st st'. matches r st st' \<and> length (rx_left st') < length (rx_left st))\<^sup>*\<^sup>*"
| "matches (Named g r) = (\<lambda>st st''. \<exists>st'. matches r st st' \<and> st'' = rx_capture g st st')"
| "matches Bound = (\<lambda>st st'. at_word_edge (rx_done st) (rx_left st) \<and> st' = st)"
| "matches At_start = (\<lambda>st st'. rx_done st = [] \<and> st' = st)"
| "matches At_end = (\<lambda>st st'. rx_left st = [] \<and> st' = st)"

lemma rounds_sound:
  assumes "\<And>st k x. m st k = Some x \<Longrightarrow> \<exists>st'. R st st' \<and> k st' = Some x"
    and "rounds m greedy n st k = Some x"
  shows "\<exists>st'. (\<lambda>a b. R a b \<and> length (rx_left b) < length (rx_left a))\<^sup>*\<^sup>* st st' \<and> k st' = Some x"
  using assms(2)
proof (induction n arbitrary: st)
  case 0
  then show ?case by auto
next
  case (Suc n)
  let ?k = "\<lambda>st'. if length (rx_left st') < length (rx_left st) then rounds m greedy n st' k else None"
  from Suc.prems consider "k st = Some x" | "m st ?k = Some x"
    by (auto split: if_splits option.splits)
  then show ?case
  proof cases
    case 2
    from assms(1) [OF 2] obtain st1 where st1: "R st st1" "?k st1 = Some x" by blast
    then have lt: "length (rx_left st1) < length (rx_left st)" and r: "rounds m greedy n st1 k = Some x"
      by (auto split: if_splits)
    from Suc.IH [OF r] st1(1) lt show ?thesis
      by (metis (mono_tags, lifting) converse_rtranclp_into_rtranclp)
  qed auto
qed

lemma run_sound: "run r st k = Some x \<Longrightarrow> \<exists>st'. matches r st st' \<and> k st' = Some x"
proof (induction r arbitrary: st k x)
  case (Cat r q)
  from Cat.IH(1) [of st "\<lambda>st'. run q st' k" x] Cat.IH(2) Cat.prems show ?case by fastforce
next
  case (Alt r q)
  then show ?case by (fastforce split: option.splits)
next
  case (Star greedy r)
  have "rounds (run r) greedy (length (rx_left st)) st k = Some x" using Star.prems by simp
  from rounds_sound [of "run r" "matches r", OF Star.IH this] show ?case by simp
next
  case (Named g r)
  from Named.IH [of st "\<lambda>st'. k (rx_capture g st st')" x] Named.prems show ?case by auto
qed (auto split: if_splits)

lemma rounds_complete:
  assumes "\<And>st st' k. R st st' \<Longrightarrow> k st' \<noteq> None \<Longrightarrow> m st k \<noteq> (None :: 'a option)"
    and "(\<lambda>a b. R a b \<and> length (rx_left b) < length (rx_left a))\<^sup>*\<^sup>* st st'"
    and "length (rx_left st) \<le> n" and "k st' \<noteq> None"
  shows "rounds m greedy n st k \<noteq> None"
  using assms(2-3)
proof (induction arbitrary: n rule: converse_rtranclp_induct)
  case base
  show ?case
  proof (cases n)
    case 0
    with assms(4) show ?thesis by simp
  next
    case (Suc i)
    with assms(4) show ?thesis by (auto split: option.splits)
  qed
next
  case (step a b)
  then obtain i where n: "n = Suc i" and i: "length (rx_left b) \<le> i"
    by (cases n) auto
  let ?k = "\<lambda>st'. if length (rx_left st') < length (rx_left a) then rounds m greedy i st' k else None"
  have "?k b \<noteq> None" using step.hyps(1) step.IH [OF i] by simp
  then have "m a ?k \<noteq> None" using assms(1) [of a b ?k] step.hyps(1) by blast
  then show ?case by (auto simp: n split: option.splits)
qed

lemma run_complete: "matches r st st' \<Longrightarrow> k st' \<noteq> None \<Longrightarrow> run r st k \<noteq> None"
proof (induction r arbitrary: st st' k)
  case (Cat r q)
  from Cat.prems obtain st1 where "matches r st st1" "matches q st1 st'" by auto
  with Cat.IH(1) [of st st1 "\<lambda>st'. run q st' k"] Cat.IH(2) [of st1 st' k] Cat.prems(2) show ?case by simp
next
  case (Alt r q)
  then have "run r st k \<noteq> None \<or> run q st k \<noteq> None" by (metis matches.simps(4))
  then show ?case by (auto split: option.splits)
next
  case (Star greedy r)
  from rounds_complete [of "matches r" "run r" st st' "length (rx_left st)" k greedy, OF Star.IH] Star.prems
  show ?case by simp
next
  case (Named g r)
  from Named.prems obtain st1 where "matches r st st1" "st' = rx_capture g st st1" by auto
  with Named.IH [of st st1 "\<lambda>st'. k (rx_capture g st st')"] Named.prems(2) show ?case by simp
qed auto

text \<open>A match moves forward over the text.\<close>

definition forward :: "rx_state \<Rightarrow> rx_state \<Rightarrow> bool" where
  "forward st st' \<longleftrightarrow> (\<exists>w. rx_left st = w @ rx_left st' \<and> rx_done st' = rev w @ rx_done st)"

lemma forward_refl: "forward st st"
  by (simp add: forward_def)

lemma forward_trans: "forward a b \<Longrightarrow> forward b c \<Longrightarrow> forward a c"
  by (auto simp: forward_def)

lemma forward_capture [simp]: "forward a (rx_capture g st b) \<longleftrightarrow> forward a b"
  by (simp add: forward_def rx_capture_def)

lemma forward_char: "rx_left st \<noteq> [] \<Longrightarrow> forward st (rx_char st)"
  by (cases "rx_left st") (auto simp: forward_def rx_char_def)

lemma matches_forward: "matches r st st' \<Longrightarrow> forward st st'"
proof (induction r arbitrary: st st')
  case (Cat r q)
  then show ?case by (metis matches.simps(3) forward_trans)
next
  case (Star greedy r)
  from Star.prems show ?case unfolding matches.simps
    by (induction rule: rtranclp_induct) (auto intro: forward_refl forward_trans Star.IH)
qed (auto intro: forward_refl forward_trans forward_char)

section \<open>Searching\<close>

record rx_match =
  rm_before :: string
  rm_text :: string
  rm_after :: string
  rm_groups :: "(string \<times> string) list"

definition match_at :: "regex \<Rightarrow> string \<Rightarrow> string \<Rightarrow> rx_match option" where
  "match_at r prev s =
     run r \<lparr>rx_done = prev, rx_left = s, rx_groups = []\<rparr> (\<lambda>st. Some
       \<lparr>rm_before = rev prev, rm_text = take (length s - length (rx_left st)) s,
        rm_after = rx_left st, rm_groups = rx_groups st\<rparr>)"

text \<open>\<open>r.exec(s)\<close> without the sticky and global flags: the leftmost start at which the pattern matches.\<close>

primrec exec_from :: "regex \<Rightarrow> string \<Rightarrow> string \<Rightarrow> rx_match option" where
  "exec_from r prev [] = match_at r prev []"
| "exec_from r prev (c # s) =
     (case match_at r prev (c # s) of Some m \<Rightarrow> Some m | None \<Rightarrow> exec_from r (c # prev) s)"

definition exec :: "regex \<Rightarrow> string \<Rightarrow> rx_match option" where
  "exec r s = exec_from r [] s"

definition rx_test :: "regex \<Rightarrow> string \<Rightarrow> bool" where
  "rx_test r s \<longleftrightarrow> exec r s \<noteq> None"

definition group_of :: "rx_match \<Rightarrow> string \<Rightarrow> string option" where
  "group_of m g = map_of (rm_groups m) g"

definition replace_first :: "regex \<Rightarrow> string \<Rightarrow> string \<Rightarrow> string" where
  "replace_first r by_text s = (case exec r s of None \<Rightarrow> s | Some m \<Rightarrow> rm_before m @ by_text @ rm_after m)"

text \<open>\<open>s.split(r)\<close> for a pattern without groups: \<open>piece\<close> is the piece begun, and matches that are
  empty are passed over.\<close>

function split_rx :: "regex \<Rightarrow> string \<Rightarrow> string \<Rightarrow> string \<Rightarrow> string list" where
  "split_rx r prev piece [] = [rev piece]"
| "split_rx r prev piece (c # s) =
     (case match_at r prev (c # s) of
        Some m \<Rightarrow> if length (rm_after m) \<le> length s
          then rev piece # split_rx r (rev (rm_text m) @ prev) [] (rm_after m)
          else split_rx r (c # prev) (c # piece) s
      | None \<Rightarrow> split_rx r (c # prev) (c # piece) s)"
  by pat_completeness auto
termination by (relation "measure (\<lambda>(r, b, p, s). length s)") auto

abbreviation rx_at :: "string \<Rightarrow> string \<Rightarrow> rx_state" where
  "rx_at prev s \<equiv> \<lparr>rx_done = prev, rx_left = s, rx_groups = []\<rparr>"

lemma match_at_None: "match_at r prev s = None \<longleftrightarrow> (\<forall>st'. \<not> matches r (rx_at prev s) st')"
proof
  assume n: "match_at r prev s = None"
  show "\<forall>st'. \<not> matches r (rx_at prev s) st'"
  proof (intro allI notI)
    fix st' assume "matches r (rx_at prev s) st'"
    then have "match_at r prev s \<noteq> None" unfolding match_at_def by (rule run_complete) simp
    with n show False by simp
  qed
next
  assume no: "\<forall>st'. \<not> matches r (rx_at prev s) st'"
  show "match_at r prev s = None"
  proof (rule ccontr)
    assume "match_at r prev s \<noteq> None"
    then obtain m where "match_at r prev s = Some m" by auto
    from run_sound [OF this [unfolded match_at_def]] no show False by blast
  qed
qed

lemma match_at_Some:
  assumes "match_at r prev s = Some m"
  shows "rm_before m = rev prev \<and> s = rm_text m @ rm_after m \<and>
    (\<exists>st'. matches r (rx_at prev s) st' \<and> rm_after m = rx_left st' \<and> rm_groups m = rx_groups st')"
proof -
  from run_sound [OF assms [unfolded match_at_def]] obtain st' where
    st: "matches r (rx_at prev s) st'"
    "m = \<lparr>rm_before = rev prev, rm_text = take (length s - length (rx_left st')) s,
      rm_after = rx_left st', rm_groups = rx_groups st'\<rparr>" by auto
  from matches_forward [OF st(1)] obtain w where "s = w @ rx_left st'" by (auto simp: forward_def)
  with st show ?thesis by (auto intro!: exI [of _ st'])
qed

lemma exec_from_None:
  "exec_from r prev s = None \<longleftrightarrow> (\<forall>a b st'. s = a @ b \<longrightarrow> \<not> matches r (rx_at (rev a @ prev) b) st')"
proof (induction s arbitrary: prev)
  case Nil
  show ?case by (simp add: match_at_None)
next
  case (Cons c s)
  have "exec_from r prev (c # s) = None \<longleftrightarrow>
      match_at r prev (c # s) = None \<and> exec_from r (c # prev) s = None"
    by (simp split: option.splits)
  also have "\<dots> \<longleftrightarrow> (\<forall>st'. \<not> matches r (rx_at prev (c # s)) st') \<and>
      (\<forall>a b st'. s = a @ b \<longrightarrow> \<not> matches r (rx_at (rev a @ c # prev) b) st')"
    by (simp only: match_at_None Cons.IH)
  also have "\<dots> \<longleftrightarrow> (\<forall>a b st'. c # s = a @ b \<longrightarrow> \<not> matches r (rx_at (rev a @ prev) b) st')" (is "?l \<longleftrightarrow> ?r")
  proof
    assume l: ?l
    show ?r
    proof (intro allI impI)
      fix a b st' assume e: "c # s = a @ b"
      show "\<not> matches r (rx_at (rev a @ prev) b) st'"
      proof (cases a)
        case Nil
        with l e show ?thesis by simp
      next
        case (Cons d a')
        with e have "s = a' @ b" "d = c" by simp_all
        with l Cons show ?thesis by simp
      qed
    qed
  next
    assume r: ?r
    have "\<not> matches r (rx_at prev (c # s)) st'" for st' using r [rule_format, of "[]" "c # s"] by simp
    moreover have "s = a @ b \<longrightarrow> \<not> matches r (rx_at (rev a @ c # prev) b) st'" for a b st'
      using r [rule_format, of "c # a" b] by simp
    ultimately show ?l by blast
  qed
  finally show ?case .
qed

lemma exec_None:
  "exec r s = None \<longleftrightarrow>
     (\<forall>a b st'. s = a @ b \<longrightarrow> \<not> matches r (rx_at (rev a) b) st')"
  using exec_from_None [of r "[]" s] by (simp add: exec_def)

lemma exec_from_Some:
  "exec_from r prev s = Some m \<Longrightarrow>
     \<exists>a b. s = a @ b \<and> match_at r (rev a @ prev) b = Some m"
proof (induction s arbitrary: prev)
  case Nil
  then show ?case by simp
next
  case (Cons c s)
  show ?case
  proof (cases "match_at r prev (c # s)")
    case None
    with Cons.prems have "exec_from r (c # prev) s = Some m" by simp
    from Cons.IH [OF this] obtain a b where "s = a @ b" "match_at r (rev a @ c # prev) b = Some m" by blast
    then show ?thesis by (intro exI [of _ "c # a"] exI [of _ b]) simp
  next
    case (Some m')
    with Cons.prems show ?thesis by (intro exI [of _ "[]"] exI [of _ "c # s"]) simp
  qed
qed

lemma exec_Some:
  assumes "exec r s = Some m"
  obtains st' where "s = rm_before m @ rm_text m @ rm_after m"
    "matches r (rx_at (rev (rm_before m)) (rm_text m @ rm_after m)) st'"
    "rm_after m = rx_left st'" "rm_groups m = rx_groups st'"
proof -
  from exec_from_Some [OF assms [unfolded exec_def]] obtain a b where
    ab: "s = a @ b" "match_at r (rev a) b = Some m" by auto
  from match_at_Some [OF ab(2)] obtain st' where m: "rm_before m = a" "b = rm_text m @ rm_after m"
    "matches r (rx_at (rev a) b) st'" "rm_after m = rx_left st'" "rm_groups m = rx_groups st'" by auto
  show thesis by (rule that [of st']) (use ab m in simp_all)
qed

section \<open>Building blocks\<close>

definition lit :: "char \<Rightarrow> regex" where
  "lit c = Cls (\<lambda>d. d = c)"

text \<open>A letter with the flag \<open>i\<close>.\<close>

definition lit_ci :: "char \<Rightarrow> regex" where
  "lit_ci c = Cls (\<lambda>d. lower_char d = lower_char c)"

definition seq :: "regex list \<Rightarrow> regex" where
  "seq rs = foldr Cat rs Eps"

definition word_ci :: "string \<Rightarrow> regex" where
  "word_ci w = seq (map lit_ci w)"

primrec any_rx :: "regex \<Rightarrow> regex list \<Rightarrow> regex" where
  "any_rx r [] = r"
| "any_rx r (q # qs) = Alt r (any_rx q qs)"

definition plus :: "regex \<Rightarrow> regex" where
  "plus r = Cat r (Star True r)"

definition plus_lazy :: "regex \<Rightarrow> regex" where
  "plus_lazy r = Cat r (Star False r)"

definition maybe :: "regex \<Rightarrow> regex" where
  "maybe r = Alt r Eps"

definition spaces :: regex where
  "spaces = plus (Cls js_space)"

definition spaces0 :: regex where
  "spaces0 = Star True (Cls js_space)"

definition not_newline :: "char \<Rightarrow> bool" where
  "not_newline c \<longleftrightarrow> code c \<noteq> 10 \<and> code c \<noteq> 13"

lemma matches_seq:
  "matches (seq []) st st' \<longleftrightarrow> st' = st"
  "matches (seq (r # rs)) st st' \<longleftrightarrow> (\<exists>st1. matches r st st1 \<and> matches (seq rs) st1 st')"
  by (simp_all add: seq_def)

lemma matches_any_rx: "matches (any_rx r qs) st st' \<longleftrightarrow> (\<exists>q \<in> set (r # qs). matches q st st')"
  by (induction qs arbitrary: r) auto

lemma matches_word_ci:
  "matches (word_ci w) st st' \<longleftrightarrow>
     (\<exists>v b. rx_left st = v @ b \<and> to_lower v = to_lower w \<and>
        st' = st\<lparr>rx_done := rev v @ rx_done st, rx_left := b\<rparr>)"
proof (induction w arbitrary: st)
  case Nil
  show ?case by (auto simp: word_ci_def matches_seq to_lower_def)
next
  case (Cons c w)
  have "matches (word_ci (c # w)) st st' \<longleftrightarrow>
     rx_left st \<noteq> [] \<and> lower_char (hd (rx_left st)) = lower_char c \<and> matches (word_ci w) (rx_char st) st'"
    by (auto simp: word_ci_def matches_seq lit_ci_def)
  also have "\<dots> \<longleftrightarrow> (\<exists>v b. rx_left st = v @ b \<and> to_lower v = to_lower (c # w) \<and>
        st' = st\<lparr>rx_done := rev v @ rx_done st, rx_left := b\<rparr>)" (is "?l \<longleftrightarrow> ?r")
  proof
    assume ?l
    then obtain d t where d: "rx_left st = d # t" "lower_char d = lower_char c" "matches (word_ci w) (rx_char st) st'"
      by (cases "rx_left st") auto
    from d(3) obtain v b where v: "t = v @ b" "to_lower v = to_lower w"
      "st' = st\<lparr>rx_done := rev v @ d # rx_done st, rx_left := b\<rparr>"
      unfolding Cons.IH by (auto simp: rx_char_def d(1))
    show ?r by (rule exI [of _ "d # v"], rule exI [of _ b]) (use d v in \<open>auto simp: to_lower_def\<close>)
  next
    assume ?r
    then obtain v b where v: "rx_left st = v @ b" "to_lower v = to_lower (c # w)"
      "st' = st\<lparr>rx_done := rev v @ rx_done st, rx_left := b\<rparr>" by blast
    then obtain d t where d: "v = d # t" "lower_char d = lower_char c" "to_lower t = to_lower w"
      by (cases v) (auto simp: to_lower_def)
    have "matches (word_ci w) (rx_char st) st'"
      unfolding Cons.IH by (rule exI [of _ t], rule exI [of _ b]) (simp add: v d rx_char_def)
    then show ?l by (simp add: v d)
  qed
  finally show ?case .
qed

text \<open>What a repeated character class consumes: a run of its characters.\<close>

definition rx_skip :: "string \<Rightarrow> rx_state \<Rightarrow> rx_state" where
  "rx_skip w st = st\<lparr>rx_done := rev w @ rx_done st, rx_left := drop (length w) (rx_left st)\<rparr>"

lemma rx_skip_left [simp]: "rx_left st = w @ b \<Longrightarrow> rx_left (rx_skip w st) = b"
  by (simp add: rx_skip_def)

lemma rx_skip_done [simp]: "rx_done (rx_skip w st) = rev w @ rx_done st"
  by (simp add: rx_skip_def)

lemma matches_star_cls:
  assumes "matches (Star g (Cls P)) st st'"
  obtains w b where "rx_left st = w @ b" "list_all P w" "st' = rx_skip w st"
proof -
  let ?R = "\<lambda>a b. matches (Cls P) a b \<and> length (rx_left b) < length (rx_left a)"
  have "\<exists>w b. rx_left st = w @ b \<and> list_all P w \<and> st' = rx_skip w st"
    if "?R\<^sup>*\<^sup>* st st'" for st
    using that
  proof (induction rule: converse_rtranclp_induct)
    case base
    show ?case by (rule exI [of _ "[]"]) (simp add: rx_skip_def)
  next
    case (step x y)
    then obtain w b where w: "rx_left y = w @ b" "list_all P w" "st' = rx_skip w y" by blast
    from step.hyps(1) obtain c s where c: "rx_left x = c # s" "P c" "y = rx_char x"
      by (cases "rx_left x") auto
    show ?case
      by (rule exI [of _ "c # w"], rule exI [of _ b]) (use w c in \<open>simp add: rx_char_def rx_skip_def\<close>)
  qed
  from this [OF assms [unfolded matches.simps(5)]] that show thesis by blast
qed

lemma star_cls_matches:
  "rx_left st = w @ b \<Longrightarrow> list_all P w \<Longrightarrow> matches (Star g (Cls P)) st (rx_skip w st)"
proof (induction w arbitrary: st)
  case Nil
  then have "rx_skip [] st = st" by (simp add: rx_skip_def)
  then show ?case by simp
next
  case (Cons c w)
  have "matches (Star g (Cls P)) (rx_char st) (rx_skip w (rx_char st))"
    by (rule Cons.IH) (use Cons.prems in \<open>simp_all add: rx_char_def\<close>)
  moreover have "rx_skip w (rx_char st) = rx_skip (c # w) st"
    using Cons.prems by (simp add: rx_skip_def rx_char_def)
  moreover have "matches (Cls P) st (rx_char st)" "length (rx_left (rx_char st)) < length (rx_left st)"
    using Cons.prems by (simp_all add: rx_char_def)
  ultimately show ?case by (simp add: converse_rtranclp_into_rtranclp)
qed

lemma matches_plus_cls:
  assumes "matches (plus (Cls P)) st st'"
  obtains w b where "rx_left st = w @ b" "w \<noteq> []" "list_all P w" "st' = rx_skip w st"
proof -
  from assms obtain c s where c: "rx_left st = c # s" "P c" "matches (Star True (Cls P)) (rx_char st) st'"
    unfolding plus_def by (cases "rx_left st") (auto simp del: matches.simps(5))
  from matches_star_cls [OF c(3)] obtain w b where w: "s = w @ b" "list_all P w" "st' = rx_skip w (rx_char st)"
    by (metis c(1) list.sel(3) rx_char_def rx_state.select_convs(2) rx_state.surjective rx_state.update_convs(1,2))
  show thesis
    by (rule that [of "c # w" b]) (use c w in \<open>simp_all add: rx_skip_def rx_char_def\<close>)
qed

lemma plus_cls_matches:
  assumes "rx_left st = w @ b" and "w \<noteq> []" and "list_all P w"
  shows "matches (plus (Cls P)) st (rx_skip w st)"
proof -
  from assms(2) obtain c v where v: "w = c # v" by (cases w) auto
  have "matches (Star True (Cls P)) (rx_char st) (rx_skip v (rx_char st))"
    by (rule star_cls_matches) (use assms v in \<open>simp_all add: rx_char_def\<close>)
  moreover have "rx_skip v (rx_char st) = rx_skip w st"
    using assms v by (simp add: rx_skip_def rx_char_def)
  moreover have "matches (Cls P) st (rx_char st)" using assms v by simp
  ultimately show ?thesis unfolding plus_def matches.simps(3) by metis
qed

lemma matches_word_skip:
  "matches (word_ci w) st st' \<longleftrightarrow> (\<exists>v b. rx_left st = v @ b \<and> to_lower v = to_lower w \<and> st' = rx_skip v st)"
  unfolding matches_word_ci rx_skip_def by force

text \<open>A pattern without groups leaves the groups alone.\<close>

primrec groupless :: "regex \<Rightarrow> bool" where
  "groupless Eps \<longleftrightarrow> True"
| "groupless (Cls P) \<longleftrightarrow> True"
| "groupless (Cat r q) \<longleftrightarrow> groupless r \<and> groupless q"
| "groupless (Alt r q) \<longleftrightarrow> groupless r \<and> groupless q"
| "groupless (Star g r) \<longleftrightarrow> groupless r"
| "groupless (Named g r) \<longleftrightarrow> False"
| "groupless Bound \<longleftrightarrow> True"
| "groupless At_start \<longleftrightarrow> True"
| "groupless At_end \<longleftrightarrow> True"

lemma matches_groupless: "matches r st st' \<Longrightarrow> groupless r \<Longrightarrow> rx_groups st' = rx_groups st"
proof (induction r arbitrary: st st')
  case (Cat r q)
  then show ?case by (metis groupless.simps(3) matches.simps(3))
next
  case (Star g r)
  from Star.prems(1) show ?case unfolding matches.simps
    by (induction rule: rtranclp_induct) (use Star.IH Star.prems(2) in auto)
qed (auto simp: rx_char_def)

lemma groupless_seq [simp]: "groupless (seq rs) \<longleftrightarrow> list_all groupless rs"
  by (induction rs) (simp_all add: seq_def)

lemma groupless_word_ci [simp]: "groupless (word_ci w)"
  by (induction w) (simp_all add: word_ci_def lit_ci_def list_all_iff)

lemma groupless_any_rx [simp]: "groupless (any_rx r rs) \<longleftrightarrow> groupless r \<and> list_all groupless rs"
  by (induction rs arbitrary: r) auto

lemma groupless_spaces [simp]: "groupless spaces" "groupless spaces0" "groupless (plus r) = groupless r"
  "groupless (plus_lazy r) = groupless r" "groupless (maybe r) = groupless r" "groupless (lit c)"
  by (simp_all add: spaces_def spaces0_def plus_def plus_lazy_def maybe_def lit_def)

lemma rx_groups_skip [simp]: "rx_groups (rx_skip w st) = rx_groups st"
  by (simp add: rx_skip_def)

text \<open>What a named group around a pattern captures.\<close>

lemma matches_Named_capture:
  assumes "matches (Named g r) st st'" and "groupless r"
  obtains w st1 where "matches r st st1" "rx_left st = w @ rx_left st1" "rx_left st' = rx_left st1"
    "rx_groups st' = alist_set g w (rx_groups st)"
proof -
  from assms(1) obtain st1 where m: "matches r st st1" "st' = rx_capture g st st1" by auto
  from matches_forward [OF m(1)] obtain w where w: "rx_left st = w @ rx_left st1" by (auto simp: forward_def)
  from matches_groupless [OF m(1) assms(2)] have "rx_groups st1 = rx_groups st" .
  with m w that [of st1 w] show thesis by (simp add: rx_capture_def)
qed

end
