(* ===== verification/Sql_Guard.thy ===== *)
theory Sql_Guard
  imports Js_Regex Gw_Domain
begin

text \<open>
  The static checks on caller-supplied SQL (\<open>apps/mcp-servers/postgres/src/guard.ts\<close>): removal of
  literals and comments, the refusals, and the text that is executed in place of the caller's.
\<close>

section \<open>Literals and comments\<close>

text \<open>After the first \<open>*/\<close> of the text, which begins with the comment's own slash.\<close>

fun after_close :: "string \<Rightarrow> string" where
  "after_close (c # d # s) = (if c = CHR ''*'' \<and> d = CHR ''/'' then s else after_close (d # s))"
| "after_close _ = []"

text \<open>After the quote that ends a literal; a doubled quote does not.\<close>

fun after_quote :: "char \<Rightarrow> string \<Rightarrow> string" where
  "after_quote q [] = []"
| "after_quote q [c] = []"
| "after_quote q (c # d # s) =
     (if c \<noteq> q then after_quote q (d # s) else if d = q then after_quote q s else d # s)"

lemma length_after_close: "length (after_close s) \<le> length s"
  by (induction s rule: after_close.induct) auto

lemma length_after_quote: "length (after_quote q s) \<le> length s"
  by (induction q s rule: after_quote.induct) auto

abbreviation dquote :: char where "dquote \<equiv> CHR 0x22"
abbreviation squote :: char where "squote \<equiv> CHR 0x27"

function stripLiteralsAndComments :: "string \<Rightarrow> string" where
  "stripLiteralsAndComments [] = []"
| "stripLiteralsAndComments (c # s) =
     (if starts_with (c # s) ''--'' then stripLiteralsAndComments (dropWhile (\<lambda>d. d \<noteq> CHR 0x0A) (c # s))
      else if starts_with (c # s) ''/*'' then stripLiteralsAndComments (after_close (c # s))
      else if c = squote \<or> c = dquote then CHR '' '' # stripLiteralsAndComments (after_quote c s)
      else c # stripLiteralsAndComments s)"
  by pat_completeness auto
termination
proof (relation "measure length")
  fix c and s :: string
  assume "starts_with (c # s) ''--''"
  then have "c = CHR ''-''" by (simp add: starts_with_def)
  then show "(dropWhile (\<lambda>d. d \<noteq> CHR 0x0A) (c # s), c # s) \<in> measure length"
    using length_dropWhile_le [of "\<lambda>d. d \<noteq> CHR 0x0A" s] by simp
next
  fix c and s :: string
  assume "starts_with (c # s) ''/*''"
  then obtain t where "c = CHR ''/''" "s = CHR ''*'' # t" by (cases s) (auto simp: starts_with_def)
  then show "(after_close (c # s), c # s) \<in> measure length"
    using length_after_close [of s] by simp
next
  fix c and s :: string
  show "(after_quote c s, c # s) \<in> measure length"
    using length_after_quote [of c s] by simp
qed auto

declare stripLiteralsAndComments.simps(2) [simp del]

section \<open>The patterns\<close>

definition ALLOWED_LEADING_KEYWORDS :: "string list" where
  "ALLOWED_LEADING_KEYWORDS = [''select'', ''with'']"

definition forbidden_words :: "string list" where
  "forbidden_words =
     [''insert'', ''update'', ''delete'', ''drop'', ''alter'', ''truncate'', ''grant'', ''revoke'', ''create'',
      ''comment'', ''reindex'', ''vacuum'', ''copy'', ''call'', ''do'', ''listen'', ''notify'', ''lock'', ''reset'',
      ''discard'', ''prepare'', ''execute'', ''deallocate'']"

definition whole_word :: "regex \<Rightarrow> regex" where
  "whole_word r = Cat Bound (Cat r Bound)"

definition set_then :: "string \<Rightarrow> regex" where
  "set_then w = Cat (word_ci ''set'') (Cat spaces (word_ci w))"

definition FORBIDDEN_KEYWORD :: regex where
  "FORBIDDEN_KEYWORD = whole_word (any_rx (word_ci (hd forbidden_words))
     (map word_ci (tl forbidden_words) @ [set_then ''role'', set_then ''session'']))"

definition pg_char :: "char \<Rightarrow> bool" where
  "pg_char c \<longleftrightarrow> is_letter c \<or> c = CHR ''_''"

definition FORBIDDEN_IDENTIFIER :: regex where
  "FORBIDDEN_IDENTIFIER = whole_word
     (any_rx (Cat (word_ci ''pg_'') (plus (Cls pg_char))) [word_ci ''information_schema''])"

text \<open>The trailing semicolon.\<close>

definition TRAILING_SEMICOLON :: regex where
  "TRAILING_SEMICOLON = seq [lit (CHR '';''), spaces0, At_end]"

section \<open>The guard\<close>

record guard_options =
  go_maxRows :: int
  go_maxLength :: "int option"

record guarded_statement =
  gs_sql :: string
  gs_original :: string
  gs_limit :: int

definition without_trailing :: "string \<Rightarrow> string" where
  "without_trailing original = replace_first TRAILING_SEMICOLON [] (stripLiteralsAndComments original)"

definition leading_keyword :: "string \<Rightarrow> string" where
  "leading_keyword t = to_lower (takeWhile (\<lambda>c. \<not> js_space c) (trim_start t))"

definition guarded_sql :: "string \<Rightarrow> int \<Rightarrow> string" where
  "guarded_sql t limit = concat [''SELECT * FROM ('', t, '') AS mcp_guarded_query LIMIT '', int_str limit]"

definition guardStatement :: "string \<Rightarrow> guard_options \<Rightarrow> (gateway_error, guarded_statement) result" where
  "guardStatement rawSql options =
     (let original = trim rawSql; maxLength = or_default (go_maxLength options) 8000
      in if original = [] then Inl (BadRequestError ''A SQL statement is required'' [])
         else if maxLength < int (length original)
         then Inl (BadRequestError (concat [''Statement exceeds the '', int_str maxLength, '' character limit'']) [])
         else (let t = without_trailing original; leading = leading_keyword t
               in if CHR '';'' \<in> set t then Inl (BadRequestError ''Only a single statement may be submitted'' [])
                  else if leading \<notin> set ALLOWED_LEADING_KEYWORDS
                  then Inl (BadRequestError
                    (''Only SELECT and WITH statements are permitted; this statement begins with '' @ quoted leading)
                    [(''leading'', JStr leading)])
                  else (case exec FORBIDDEN_KEYWORD t of
                    Some m \<Rightarrow> Inl (BadRequestError (''Statement contains the forbidden keyword '' @ quoted (rm_text m))
                      [(''keyword'', JStr (rm_text m))])
                  | None \<Rightarrow> (case exec FORBIDDEN_IDENTIFIER t of
                      Some m \<Rightarrow> Inl (BadRequestError
                        (concat [''Statement references '', quoted (rm_text m), '', which is not queryable through this tool''])
                        [(''identifier'', JStr (rm_text m))])
                    | None \<Rightarrow>
                        (let limit = max 1 (min (go_maxRows options) (go_maxRows options))
                         in Inr \<lparr>gs_sql = guarded_sql t limit, gs_original = original, gs_limit = limit\<rparr>)))))"

section \<open>What stripping leaves\<close>

text \<open>A text in which nothing opens a literal or a comment.\<close>

fun plain_sql :: "string \<Rightarrow> bool" where
  "plain_sql [] \<longleftrightarrow> True"
| "plain_sql (c # s) \<longleftrightarrow>
     c \<noteq> squote \<and> c \<noteq> dquote \<and> \<not> starts_with (c # s) ''--'' \<and> \<not> starts_with (c # s) ''/*'' \<and> plain_sql s"

lemma strip_plain: "plain_sql s \<Longrightarrow> stripLiteralsAndComments s = s"
  by (induction s) (simp_all add: stripLiteralsAndComments.simps(2))

lemma strip_no_quote: "squote \<notin> set (stripLiteralsAndComments s) \<and> dquote \<notin> set (stripLiteralsAndComments s)"
  by (induction s rule: stripLiteralsAndComments.induct) (auto simp: stripLiteralsAndComments.simps(2))

lemma length_strip: "length (stripLiteralsAndComments s) \<le> length s"
proof (induction s rule: stripLiteralsAndComments.induct)
  case (2 c s)
  have a: "length (after_close (c # s)) \<le> length (c # s)" "length (after_quote c s) \<le> length s"
    "length (dropWhile (\<lambda>d. d \<noteq> CHR 0x0A) (c # s)) \<le> length (c # s)"
    by (rule length_after_close length_after_quote length_dropWhile_le)+
  consider "starts_with (c # s) ''--''" | "\<not> starts_with (c # s) ''--''" "starts_with (c # s) ''/*''"
    | "\<not> starts_with (c # s) ''--''" "\<not> starts_with (c # s) ''/*''" "c = squote \<or> c = dquote"
    | "\<not> starts_with (c # s) ''--''" "\<not> starts_with (c # s) ''/*''" "\<not> (c = squote \<or> c = dquote)" by blast
  then show ?case
  proof cases
    case 1
    with 2(1) a(3) show ?thesis by (simp only: stripLiteralsAndComments.simps(2) if_True) (meson le_trans)
  next
    case c: 2
    with 2(2) a(1) show ?thesis by (simp only: stripLiteralsAndComments.simps(2) if_True if_False) (meson le_trans)
  next
    case 3
    with 2(3) a(2) show ?thesis by (auto simp: stripLiteralsAndComments.simps(2))
  next
    case 4
    with 2(4) show ?thesis by (auto simp: stripLiteralsAndComments.simps(2))
  qed
qed simp

text \<open>Stripping changes a text unless there is nothing to strip.\<close>

lemma strip_fixed_plain: "stripLiteralsAndComments s = s \<Longrightarrow> plain_sql s"
proof (induction s)
  case (Cons c s)
  have q: "c \<noteq> squote" "c \<noteq> dquote"
    using strip_no_quote [of "c # s"] Cons.prems by auto
  have "\<not> starts_with (c # s) ''--''"
  proof
    assume sw: "starts_with (c # s) ''--''"
    then have "c = CHR ''-''" by (simp add: starts_with_def)
    then have "length (dropWhile (\<lambda>d. d \<noteq> CHR 0x0A) (c # s)) < length (c # s)"
      using length_dropWhile_le [of "\<lambda>d. d \<noteq> CHR 0x0A" s] by simp
    with sw Cons.prems length_strip [of "dropWhile (\<lambda>d. d \<noteq> CHR 0x0A) (c # s)"]
    show False by (metis stripLiteralsAndComments.simps(2) not_less)
  qed
  moreover have "\<not> starts_with (c # s) ''/*''"
  proof
    assume sw: "starts_with (c # s) ''/*''"
    then obtain t where "c = CHR ''/''" "s = CHR ''*'' # t" by (cases s) (auto simp: starts_with_def)
    then have "length (after_close (c # s)) < length (c # s)"
      using length_after_close [of s] by simp
    with sw calculation Cons.prems length_strip [of "after_close (c # s)"]
    show False by (metis stripLiteralsAndComments.simps(2) not_less)
  qed
  ultimately show ?case
    using q Cons by (simp add: stripLiteralsAndComments.simps(2))
qed simp

lemma starts_two: "starts_with s [a, b] \<longleftrightarrow> (\<exists>t. s = a # b # t)"
  by (cases s; cases "tl s") (auto simp: starts_with_def)

lemma plain_append:
  "plain_sql u \<Longrightarrow> plain_sql v \<Longrightarrow>
     u = [] \<or> v = [] \<or> (last u = CHR ''-'' \<longrightarrow> hd v \<noteq> CHR ''-'') \<and> (last u = CHR ''/'' \<longrightarrow> hd v \<noteq> CHR ''*'') \<Longrightarrow>
     plain_sql (u @ v)"
proof (induction u)
  case (Cons d u)
  then show ?case by (cases u; cases v) (auto simp: starts_two)
qed simp

lemma strip_plain_append:
  "plain_sql u \<Longrightarrow>
     u = [] \<or> v = [] \<or> (last u = CHR ''-'' \<longrightarrow> hd v \<noteq> CHR ''-'') \<and> (last u = CHR ''/'' \<longrightarrow> hd v \<noteq> CHR ''*'') \<Longrightarrow>
     stripLiteralsAndComments (u @ v) = u @ stripLiteralsAndComments v"
proof (induction u)
  case (Cons d u)
  then show ?case by (cases u; cases v) (auto simp: starts_two stripLiteralsAndComments.simps(2))
qed simp

lemma strip_line_comment:
  "CHR 0x0A \<notin> set s \<Longrightarrow> stripLiteralsAndComments (''--'' @ s) = []"
proof -
  assume "CHR 0x0A \<notin> set s"
  then have "dropWhile (\<lambda>d. d \<noteq> CHR 0x0A) s = []" by auto
  then show ?thesis by (simp add: stripLiteralsAndComments.simps(2) starts_two del: dropWhile_eq_Nil_conv)
qed

lemma plain_digits: "list_all (\<lambda>c. is_digit c) s \<Longrightarrow> plain_sql s"
  by (induction s) (auto simp: starts_two is_digit_def code_def)

text \<open>Only whitespace and the semicolon are dropped at the end.\<close>

lemma set_without_trailing: "set (without_trailing s) \<subseteq> set (stripLiteralsAndComments s)"
proof (cases "exec TRAILING_SEMICOLON (stripLiteralsAndComments s)")
  case None
  then show ?thesis by (simp add: without_trailing_def replace_first_def)
next
  case (Some m)
  from exec_Some [OF Some] have "stripLiteralsAndComments s = rm_before m @ rm_text m @ rm_after m" by metis
  with Some show ?thesis by (auto simp: without_trailing_def replace_first_def)
qed

section \<open>Whole words\<close>

text \<open>A stretch of text that no word character touches.\<close>

definition delimited :: "string \<Rightarrow> string \<Rightarrow> bool" where
  "delimited a b \<longleftrightarrow> (a = [] \<or> \<not> word_char (last a)) \<and> (b = [] \<or> \<not> word_char (hd b))"

definition has_word :: "(string \<Rightarrow> bool) \<Rightarrow> string \<Rightarrow> bool" where
  "has_word P s \<longleftrightarrow> (\<exists>a v b. s = a @ v @ b \<and> P v \<and> delimited a b)"

lemma word_edges:
  assumes "v \<noteq> []" and "word_char (hd v)" and "word_char (last v)"
  shows "at_word_edge (rev a) (v @ b) \<and> at_word_edge (rev v @ rev a) b \<longleftrightarrow> delimited a b"
  using assms by (auto simp: at_word_edge_def delimited_def hd_append hd_rev)

lemma exec_whole_word:
  assumes "\<And>st st'. matches r st st' \<Longrightarrow> \<exists>v b. rx_left st = v @ b \<and> P v \<and> st' = rx_skip v st"
    and "\<And>st v b. rx_left st = v @ b \<Longrightarrow> P v \<Longrightarrow> matches r st (rx_skip v st)"
    and "\<And>v. P v \<Longrightarrow> v \<noteq> [] \<and> word_char (hd v) \<and> word_char (last v)"
  shows "exec (whole_word r) s = None \<longleftrightarrow> \<not> has_word P s"
proof -
  have "exec (whole_word r) s \<noteq> None \<longleftrightarrow> has_word P s"
  proof
    assume "exec (whole_word r) s \<noteq> None"
    then obtain m where "exec (whole_word r) s = Some m" by auto
    then obtain st' where st: "s = rm_before m @ rm_text m @ rm_after m"
      "matches (whole_word r) (rx_at (rev (rm_before m)) (rm_text m @ rm_after m)) st'"
      by (rule exec_Some)
    then obtain st1 where e1: "at_word_edge (rev (rm_before m)) (rm_text m @ rm_after m)"
      and m1: "matches r (rx_at (rev (rm_before m)) (rm_text m @ rm_after m)) st1"
      and e2: "at_word_edge (rx_done st1) (rx_left st1)"
      by (auto simp: whole_word_def)
    from assms(1) [OF m1] obtain v b where v: "rm_text m @ rm_after m = v @ b" "P v"
      "st1 = rx_skip v (rx_at (rev (rm_before m)) (rm_text m @ rm_after m))" by auto
    from e2 v(1,3) have "at_word_edge (rev v @ rev (rm_before m)) b" by simp
    with e1 v(1) assms(3) [OF v(2)] have "delimited (rm_before m) b"
      using word_edges [of v "rm_before m" b] by simp
    with st(1) v(1,2) show "has_word P s" unfolding has_word_def by (metis append.assoc)
  next
    assume "has_word P s"
    then obtain a v b where a: "s = a @ v @ b" "P v" "delimited a b" by (auto simp: has_word_def)
    let ?st = "rx_at (rev a) (v @ b)"
    have "matches r ?st (rx_skip v ?st)" by (rule assms(2)) (use a in simp_all)
    moreover have "at_word_edge (rev a) (v @ b)" "at_word_edge (rev v @ rev a) b"
      using word_edges [of v a b] assms(3) [OF a(2)] a(3) by simp_all
    ultimately have "matches (whole_word r) ?st (rx_skip v ?st)"
      by (simp add: whole_word_def)
    with a(1) show "exec (whole_word r) s \<noteq> None" unfolding exec_None by blast
  qed
  then show ?thesis by blast
qed

text \<open>The forbidden keywords and identifiers.\<close>

definition keyword_text :: "string \<Rightarrow> bool" where
  "keyword_text v \<longleftrightarrow> to_lower v \<in> set forbidden_words \<or>
     (\<exists>a sp b. v = a @ sp @ b \<and> to_lower a = ''set'' \<and> sp \<noteq> [] \<and> list_all js_space sp \<and>
        to_lower b \<in> {''role'', ''session''})"

definition identifier_text :: "string \<Rightarrow> bool" where
  "identifier_text v \<longleftrightarrow> to_lower v = ''information_schema'' \<or>
     (\<exists>a b. v = a @ b \<and> to_lower a = ''pg_'' \<and> b \<noteq> [] \<and> list_all pg_char b)"

lemma word_char_lower [simp]: "word_char (lower_char d) \<longleftrightarrow> word_char d"
proof -
  have lower: "code (lower_char d) = (if (65 \<le> code d \<and> code d \<le> 90) \<or>
      (192 \<le> code d \<and> code d \<le> 222 \<and> code d \<noteq> 215) then code d + 32 else code d)"
    by (auto simp: lower_char_def code_char_of)
  have "code (CHR ''_'') = 95" by code_simp
  then have us: "c = CHR ''_'' \<longleftrightarrow> code c = 95" for c
    using code_inject [of c "CHR ''_''"] by simp
  show ?thesis
    by (auto simp: word_char_def is_letter_def is_digit_def us lower)
qed

lemma word_ends:
  "v \<noteq> [] \<Longrightarrow> word_char (hd v) \<longleftrightarrow> word_char (hd (to_lower v))"
  "v \<noteq> [] \<Longrightarrow> word_char (last v) \<longleftrightarrow> word_char (last (to_lower v))"
  by (simp_all add: to_lower_def hd_map last_map)

lemma to_lower_Nil [simp]: "to_lower v = [] \<longleftrightarrow> v = []"
  by (simp add: to_lower_def)

lemma lower_wordy:
  assumes "to_lower v = w" and "w \<noteq> []" and "word_char (hd w)" and "word_char (last w)"
  shows "v \<noteq> [] \<and> word_char (hd v) \<and> word_char (last v)"
  using assms word_ends [of v] by auto

lemma keyword_text_wordy: "keyword_text v \<Longrightarrow> v \<noteq> [] \<and> word_char (hd v) \<and> word_char (last v)"
proof -
  assume "keyword_text v"
  then consider w where "w \<in> set forbidden_words" "to_lower v = w"
    | a sp b where "v = a @ sp @ b" "to_lower a = ''set''" "to_lower b \<in> {''role'', ''session''}"
    by (auto simp: keyword_text_def)
  then show ?thesis
  proof cases
    case 1
    have "list_all (\<lambda>w. w \<noteq> [] \<and> word_char (hd w) \<and> word_char (last w)) forbidden_words" by code_simp
    with 1 lower_wordy [of v w] show ?thesis by (auto simp: list_all_iff)
  next
    case 2
    have "word_char (hd ''set'')" "word_char (last ''set'')" "word_char (last ''role'')" "word_char (hd ''role'')"
      "word_char (hd ''session'')" "word_char (last ''session'')" by code_simp+
    with 2 lower_wordy [of a "''set''"] lower_wordy [of b "''role''"] lower_wordy [of b "''session''"]
    show ?thesis by auto
  qed
qed

lemma identifier_text_wordy: "identifier_text v \<Longrightarrow> v \<noteq> [] \<and> word_char (hd v) \<and> word_char (last v)"
proof -
  assume "identifier_text v"
  then consider "to_lower v = ''information_schema''"
    | a b where "v = a @ b" "to_lower a = ''pg_''" "b \<noteq> []" "list_all pg_char b"
    by (auto simp: identifier_text_def)
  then show ?thesis
  proof cases
    case 1
    have "word_char (hd ''information_schema'')" "word_char (last ''information_schema'')" by code_simp+
    with 1 lower_wordy [of v "''information_schema''"] show ?thesis by simp
  next
    case 2
    have w: "word_char (hd ''pg_'')" "word_char (last ''pg_'')" by code_simp+
    have "pg_char (last b)" using 2 by (simp add: list_all_iff)
    then have "word_char (last b)" by (auto simp: pg_char_def word_char_def)
    with 2 w lower_wordy [of a "''pg_''"] show ?thesis by auto
  qed
qed

lemma rx_skip_skip: "rx_left st = v @ w @ b \<Longrightarrow> rx_skip w (rx_skip v st) = rx_skip (v @ w) st"
  by (simp add: rx_skip_def)

lemma matches_set_then:
  assumes "matches (set_then w) st st'"
  shows "\<exists>a sp b c. rx_left st = a @ sp @ b @ c \<and> to_lower a = ''set'' \<and> sp \<noteq> [] \<and> list_all js_space sp \<and>
    to_lower b = to_lower w \<and> st' = rx_skip (a @ sp @ b) st"
proof -
  from assms obtain s1 s2 where m: "matches (word_ci ''set'') st s1" "matches spaces s1 s2" "matches (word_ci w) s2 st'"
    by (auto simp: set_then_def)
  from m(1) obtain a u where a: "rx_left st = a @ u" "to_lower a = to_lower ''set''" "s1 = rx_skip a st"
    by (auto simp: matches_word_skip)
  from m(2) [unfolded spaces_def] obtain sp u' where
    sp: "rx_left s1 = sp @ u'" "sp \<noteq> []" "list_all js_space sp" "s2 = rx_skip sp s1"
    by (rule matches_plus_cls)
  from m(3) obtain b c where b: "rx_left s2 = b @ c" "to_lower b = to_lower w" "st' = rx_skip b s2"
    by (auto simp: matches_word_skip)
  have l: "rx_left st = a @ sp @ b @ c" using a sp b by simp
  moreover have "st' = rx_skip (a @ sp @ b) st"
    using a(3) sp(4) b(3) l by (simp add: rx_skip_skip)
  moreover have "to_lower ''set'' = ''set''" by code_simp
  ultimately show ?thesis using a sp b by metis
qed

lemma set_then_matches:
  assumes "rx_left st = a @ sp @ b @ c" and "to_lower a = ''set''" and "sp \<noteq> []" and "list_all js_space sp"
    and "to_lower b = to_lower w"
  shows "matches (set_then w) st (rx_skip (a @ sp @ b) st)"
proof -
  have "to_lower ''set'' = ''set''" by code_simp
  with assms have 1: "matches (word_ci ''set'') st (rx_skip a st)" by (auto simp: matches_word_skip)
  have 2: "matches spaces (rx_skip a st) (rx_skip sp (rx_skip a st))"
    unfolding spaces_def by (rule plus_cls_matches) (use assms in simp_all)
  have 3: "matches (word_ci w) (rx_skip sp (rx_skip a st)) (rx_skip b (rx_skip sp (rx_skip a st)))"
    using assms by (auto simp: matches_word_skip)
  have "rx_skip b (rx_skip sp (rx_skip a st)) = rx_skip (a @ sp @ b) st"
    using assms(1) by (simp add: rx_skip_skip)
  with 1 2 3 show ?thesis unfolding set_then_def matches.simps by metis
qed

lemma forbidden_words_split: "set forbidden_words = insert (hd forbidden_words) (set (tl forbidden_words))"
  by (simp add: forbidden_words_def)

lemma matches_keyword:
  assumes "matches (any_rx (word_ci (hd forbidden_words))
     (map word_ci (tl forbidden_words) @ [set_then ''role'', set_then ''session''])) st st'"
  shows "\<exists>v b. rx_left st = v @ b \<and> keyword_text v \<and> st' = rx_skip v st"
proof -
  have low: "list_all (\<lambda>w. to_lower w = w) (''role'' # ''session'' # forbidden_words)" by code_simp
  have set_keyword: "\<exists>v b. rx_left st = v @ b \<and> keyword_text v \<and> st' = rx_skip v st"
    if "w \<in> {''role'', ''session''}" "matches (set_then w) st st'" for w
  proof -
    from matches_set_then [OF that(2)] obtain a sp b c where
      m: "rx_left st = a @ sp @ b @ c" "to_lower a = ''set''" "sp \<noteq> []" "list_all js_space sp"
      "to_lower b = to_lower w" "st' = rx_skip (a @ sp @ b) st" by blast
    from that(1) low m(5) have "to_lower b \<in> {''role'', ''session''}" by auto
    with m have "keyword_text (a @ sp @ b)" unfolding keyword_text_def by blast
    with m show ?thesis by (metis append.assoc)
  qed
  from assms obtain q where q: "q \<in> set (word_ci (hd forbidden_words) # map word_ci (tl forbidden_words) @
      [set_then ''role'', set_then ''session''])" "matches q st st'"
    unfolding matches_any_rx by blast
  from q(1) have "q \<in> word_ci ` set forbidden_words \<or> q = set_then ''role'' \<or> q = set_then ''session''"
    unfolding forbidden_words_split by auto
  then show ?thesis
  proof (elim disjE imageE)
    fix w assume w: "q = word_ci w" "w \<in> set forbidden_words"
    with q(2) obtain v b where "rx_left st = v @ b" "to_lower v = to_lower w" "st' = rx_skip v st"
      by (auto simp: matches_word_skip)
    moreover have "to_lower w = w" using low w(2) by (simp add: list_all_iff)
    ultimately show ?thesis unfolding keyword_text_def using w(2) by metis
  next
    assume "q = set_then ''role''"
    with q(2) set_keyword [of "''role''"] show ?thesis by blast
  next
    assume "q = set_then ''session''"
    with q(2) set_keyword [of "''session''"] show ?thesis by blast
  qed
qed

lemma keyword_matches:
  assumes "rx_left st = v @ b" and "keyword_text v"
  shows "matches (any_rx (word_ci (hd forbidden_words))
     (map word_ci (tl forbidden_words) @ [set_then ''role'', set_then ''session''])) st (rx_skip v st)"
proof -
  have low: "list_all (\<lambda>w. to_lower w = w) (''role'' # ''session'' # forbidden_words)" by code_simp
  note f = forbidden_words_split
  from assms(2) consider "to_lower v \<in> set forbidden_words"
    | a sp c w where "v = a @ sp @ c" "to_lower a = ''set''" "sp \<noteq> []" "list_all js_space sp"
        "to_lower c = w" "w \<in> {''role'', ''session''}"
    by (auto simp: keyword_text_def)
  then show ?thesis
  proof cases
    case 1
    then have "matches (word_ci (to_lower v)) st (rx_skip v st)"
      using assms(1) by (auto simp: matches_word_skip)
    with 1 f show ?thesis unfolding matches_any_rx by auto
  next
    case 2
    have "matches (set_then w) st (rx_skip (a @ sp @ c) st)"
      by (rule set_then_matches [where c = b]) (use 2 assms(1) low in auto)
    with 2 show ?thesis unfolding matches_any_rx by auto
  qed
qed

lemma exec_keyword: "exec FORBIDDEN_KEYWORD s = None \<longleftrightarrow> \<not> has_word keyword_text s"
  unfolding FORBIDDEN_KEYWORD_def
  by (rule exec_whole_word) (fact matches_keyword keyword_matches keyword_text_wordy)+

lemma matches_identifier:
  "matches (any_rx (Cat (word_ci ''pg_'') (plus (Cls pg_char))) [word_ci ''information_schema'']) st st' \<longleftrightarrow>
     (\<exists>v b. rx_left st = v @ b \<and> identifier_text v \<and> st' = rx_skip v st)" (is "?l \<longleftrightarrow> ?r")
proof -
  have low: "to_lower ''pg_'' = ''pg_''" "to_lower ''information_schema'' = ''information_schema''" by code_simp+
  show ?thesis
  proof
    assume ?l
    then consider s1 where "matches (word_ci ''pg_'') st s1" "matches (plus (Cls pg_char)) s1 st'"
      | "matches (word_ci ''information_schema'') st st'"
      unfolding matches_any_rx by auto
    then show ?r
    proof cases
      case 1
      from 1(1) low obtain a u where a: "rx_left st = a @ u" "to_lower a = ''pg_''" "s1 = rx_skip a st"
        by (auto simp: matches_word_skip)
      from 1(2) obtain w b where w: "rx_left s1 = w @ b" "w \<noteq> []" "list_all pg_char w" "st' = rx_skip w s1"
        by (rule matches_plus_cls)
      have l: "rx_left st = a @ w @ b" using a w by simp
      then have "st' = rx_skip (a @ w) st" using a(3) w(4) by (simp add: rx_skip_skip)
      moreover have "identifier_text (a @ w)" unfolding identifier_text_def using a w by blast
      ultimately show ?thesis using l by (metis append.assoc)
    next
      case 2
      with low show ?thesis by (auto simp: matches_word_skip identifier_text_def)
    qed
  next
    assume ?r
    then obtain v b where v: "rx_left st = v @ b" "identifier_text v" "st' = rx_skip v st" by blast
    from v(2) consider "to_lower v = ''information_schema''"
      | a w where "v = a @ w" "to_lower a = ''pg_''" "w \<noteq> []" "list_all pg_char w"
      by (auto simp: identifier_text_def)
    then show ?l
    proof cases
      case 1
      with v low have "matches (word_ci ''information_schema'') st st'" by (auto simp: matches_word_skip)
      then show ?thesis unfolding matches_any_rx by simp
    next
      case 2
      have "matches (word_ci ''pg_'') st (rx_skip a st)" using v 2 low by (auto simp: matches_word_skip)
      moreover have "matches (plus (Cls pg_char)) (rx_skip a st) (rx_skip w (rx_skip a st))"
        by (rule plus_cls_matches) (use v 2 in simp_all)
      moreover have "rx_skip w (rx_skip a st) = st'" using v 2 by (simp add: rx_skip_skip)
      ultimately have "matches (Cat (word_ci ''pg_'') (plus (Cls pg_char))) st st'" by auto
      then show ?thesis unfolding matches_any_rx by (metis list.set_intros(1))
    qed
  qed
qed

lemma exec_identifier: "exec FORBIDDEN_IDENTIFIER s = None \<longleftrightarrow> \<not> has_word identifier_text s"
  unfolding FORBIDDEN_IDENTIFIER_def
proof (rule exec_whole_word)
  fix st :: rx_state and v b
  assume "rx_left st = v @ b" "identifier_text v"
  then show "matches (any_rx (Cat (word_ci ''pg_'') (plus (Cls pg_char))) [word_ci ''information_schema'']) st (rx_skip v st)"
    unfolding matches_identifier by blast
qed (use matches_identifier identifier_text_wordy in blast)+

section \<open>Properties\<close>

definition admissible :: "string \<Rightarrow> guard_options \<Rightarrow> bool" where
  "admissible rawSql options \<longleftrightarrow> trim rawSql \<noteq> [] \<and>
     int (length (trim rawSql)) \<le> or_default (go_maxLength options) 8000 \<and>
     CHR '';'' \<notin> set (without_trailing (trim rawSql)) \<and>
     leading_keyword (without_trailing (trim rawSql)) \<in> {''select'', ''with''} \<and>
     \<not> has_word keyword_text (without_trailing (trim rawSql)) \<and>
     \<not> has_word identifier_text (without_trailing (trim rawSql))"

lemma guard_Inr:
  "guardStatement rawSql options = Inr g \<longleftrightarrow> admissible rawSql options \<and>
     g = \<lparr>gs_sql = guarded_sql (without_trailing (trim rawSql)) (max 1 (go_maxRows options)),
          gs_original = trim rawSql, gs_limit = max 1 (go_maxRows options)\<rparr>"
  unfolding guardStatement_def admissible_def exec_keyword [symmetric] exec_identifier [symmetric]
    ALLOWED_LEADING_KEYWORDS_def Let_def
  by (auto split: option.splits)

lemma guard_Inl: "guardStatement rawSql options = Inl e \<Longrightarrow> ge_code e = BAD_REQUEST \<and> ge_status e = 400"
  unfolding guardStatement_def Let_def
  by (auto simp: BadRequestError_def gateway_err_def split: if_splits option.splits)

text \<open>C11: the verdict on a statement. A statement is refused, always as a bad request, exactly when it
  is not admissible: empty, too long, several statements, not led by SELECT or WITH, or holding a
  forbidden keyword or catalogue name as a whole word outside literals and comments. What is
  executed instead of an admissible one is a text without quotes or semicolons, itself free of those
  words, inside the row cap's wrapper.\<close>

theorem guard_verdict:
  "case guardStatement rawSql options of
     Inl e \<Rightarrow> ge_code e = BAD_REQUEST \<and> ge_status e = 400 \<and> \<not> admissible rawSql options
   | Inr g \<Rightarrow> admissible rawSql options \<and> (\<exists>t.
       gs_sql g = concat [''SELECT * FROM ('', t, '') AS mcp_guarded_query LIMIT '', int_str (max 1 (go_maxRows options))] \<and>
       {squote, dquote, CHR '';''} \<inter> set t = {} \<and> leading_keyword t \<in> {''select'', ''with''} \<and>
       \<not> has_word keyword_text t \<and> \<not> has_word identifier_text t)"
proof (cases "guardStatement rawSql options")
  case (Inl e)
  then have "\<not> admissible rawSql options" using guard_Inr [of rawSql options] by auto
  with Inl guard_Inl [OF Inl] show ?thesis by simp
next
  case (Inr g)
  let ?t = "without_trailing (trim rawSql)"
  from Inr have a: "admissible rawSql options" "gs_sql g = guarded_sql ?t (max 1 (go_maxRows options))"
    by (simp_all add: guard_Inr)
  have "{squote, dquote, CHR '';''} \<inter> set ?t = {}"
    using set_without_trailing [of "trim rawSql"] strip_no_quote [of "trim rawSql"] a(1)
    by (auto simp: admissible_def)
  with a Inr show ?thesis by (auto simp: admissible_def guarded_sql_def)
qed

declare plain_sql.simps(2) [simp del]

lemma guarded_sql_plain:
  assumes "plain_sql t" and "0 \<le> limit"
  shows "plain_sql (guarded_sql t limit)"
proof -
  let ?w = "'') AS mcp_guarded_query LIMIT ''" and ?p = "''SELECT * FROM (''"
  have i: "plain_sql (int_str limit)"
    using assms(2) nat_str_digits by (auto simp: int_str_def list_all_iff intro: plain_digits)
  have c: "plain_sql ?w" "last ?w = CHR '' ''" "plain_sql ?p" "last ?p = CHR ''(''" by code_simp+
  have 1: "plain_sql (?w @ int_str limit)" by (rule plain_append [OF c(1) i]) (simp add: c)
  have 2: "plain_sql (t @ ?w @ int_str limit)" by (rule plain_append [OF assms(1) 1]) simp
  have "plain_sql (?p @ t @ ?w @ int_str limit)" by (rule plain_append [OF c(3) 2]) (simp add: c)
  then show ?thesis by (simp add: guarded_sql_def)
qed

definition row_cap_evader :: string where
  "row_cap_evader = ''SELECT * FROM orders) AS t -/**/-''"



text \<open>A literal in the middle of a statement.\<close>

lemma after_quote_literal:
  "squote \<notin> set v \<Longrightarrow> b = [] \<or> hd b \<noteq> squote \<Longrightarrow> after_quote squote (v @ squote # b) = b"
proof (induction v)
  case Nil
  then show ?case by (cases b) auto
next
  case (Cons c v)
  then show ?case by (cases v) auto
qed

lemma strip_literal:
  assumes "plain_sql a" and "squote \<notin> set v" and "b = [] \<or> hd b \<noteq> squote"
  shows "stripLiteralsAndComments (a @ squote # v @ squote # b) = a @ CHR '' '' # stripLiteralsAndComments b"
proof -
  have "stripLiteralsAndComments (squote # v @ squote # b) = CHR '' '' # stripLiteralsAndComments b"
    using after_quote_literal [OF assms(2,3)] by (simp add: stripLiteralsAndComments.simps(2) starts_with_def)
  with assms(1) show ?thesis by (subst strip_plain_append) simp_all
qed

lemma trim_literal:
  assumes "a \<noteq> []" and "\<not> js_space (hd a)"
  shows "trim (a @ squote # v @ squote # b) = a @ squote # v @ squote # trim_end b"
proof -
  have "trim_start (a @ squote # v @ squote # b) = a @ squote # v @ squote # b"
    using assms by (cases a) (simp_all add: trim_start_def)
  moreover have "\<not> js_space squote" by code_simp
  ultimately show ?thesis
    by (simp add: trim_def trim_end_def dropWhile_append)
qed

lemma trim_end_hd_quote: "b = [] \<or> hd b \<noteq> squote \<Longrightarrow> trim_end b = [] \<or> hd (trim_end b) \<noteq> squote"
  using trim_end_hd [of b] by (metis trim_end_def dropWhile.simps(1) rev.simps(1))

text \<open>What is executed does not depend on the values in the statement. Two admissible
  statements that differ only in a string literal are executed as the same SQL, in which both
  literals are a blank: a comparison with a literal is never the one the caller wrote.\<close>

theorem guard_ignores_literals:
  assumes "guardStatement (a @ squote # v @ squote # b) options = Inr g"
    and "guardStatement (a @ squote # w @ squote # b) options = Inr g'"
    and "plain_sql a" "a \<noteq> []" "\<not> js_space (hd a)" "b = [] \<or> hd b \<noteq> squote"
    and "squote \<notin> set v" "squote \<notin> set w"
  shows "gs_sql g = gs_sql g' \<and>
    gs_sql g = guarded_sql (replace_first TRAILING_SEMICOLON []
      (a @ CHR '' '' # stripLiteralsAndComments (trim_end b))) (max 1 (go_maxRows options))"
proof -
  note b = trim_end_hd_quote [OF assms(6)]
  have "without_trailing (trim (a @ squote # u @ squote # b)) =
      replace_first TRAILING_SEMICOLON [] (a @ CHR '' '' # stripLiteralsAndComments (trim_end b))"
    if "squote \<notin> set u" for u
    using strip_literal [OF assms(3) that b] by (simp add: without_trailing_def trim_literal [OF assms(4,5)])
  with assms(1,2,7,8) show ?thesis by (simp add: guard_Inr)
qed

theorem guard_ignores_literals_witness:
  "guarded_sql (replace_first TRAILING_SEMICOLON []
      (''SELECT 1 WHERE s = '' @ CHR '' '' # stripLiteralsAndComments (trim_end []))) 5 =
   ''SELECT * FROM (SELECT 1 WHERE s =  ) AS mcp_guarded_query LIMIT 5'' \<and>
   gs_sql (projr (guardStatement (''SELECT 1 WHERE s = '' @ squote # ''open'' @ squote # []) \<lparr>go_maxRows = 5, go_maxLength = None\<rparr>)) =
   gs_sql (projr (guardStatement (''SELECT 1 WHERE s = '' @ squote # ''shut'' @ squote # []) \<lparr>go_maxRows = 5, go_maxLength = None\<rparr>))"
proof -
  let ?o = "\<lparr>go_maxRows = 5, go_maxLength = None\<rparr>"
  let ?a = "''SELECT 1 WHERE s = ''"
  have i: "isl (guardStatement (?a @ squote # ''open'' @ squote # []) ?o) = False"
    "isl (guardStatement (?a @ squote # ''shut'' @ squote # []) ?o) = False" by code_simp+
  have 1: "guardStatement (?a @ squote # ''open'' @ squote # []) ?o =
      Inr (projr (guardStatement (?a @ squote # ''open'' @ squote # []) ?o))"
    and 2: "guardStatement (?a @ squote # ''shut'' @ squote # []) ?o =
      Inr (projr (guardStatement (?a @ squote # ''shut'' @ squote # []) ?o))"
    using i by (simp_all only: sum.collapse(2) not_False_eq_True)
  have c: "plain_sql ?a" "?a \<noteq> []" "\<not> js_space (hd ?a)" "squote \<notin> set ''open''" "squote \<notin> set ''shut''" by code_simp+
  have "guarded_sql (replace_first TRAILING_SEMICOLON []
      (?a @ CHR '' '' # stripLiteralsAndComments (trim_end []))) 5 =
   ''SELECT * FROM (SELECT 1 WHERE s =  ) AS mcp_guarded_query LIMIT 5''" by code_simp
  with guard_ignores_literals [OF 1 2 c(1-3) disjI1 [OF refl] c(4,5)] show ?thesis by blast
qed

definition tenant_switch :: string where
  "tenant_switch = ''SELECT set_config($$app.tenant_id$$, $$globex$$, true)''"


end
