(* ===== verification/Mcp_Runtime.thy ===== *)
theory Mcp_Runtime
  imports Auth_Verify Client_Pool
begin

text \<open>
  The scaffolding of every MCP server (\<open>packages/mcp-runtime/src/context.ts\<close>, \<open>tool.ts\<close>,
  \<open>server.ts\<close>): the caller as the downstream token describes it, authentication for the server's own
  audience, the scope check in front of every handler, and how results and failures are answered. The
  MCP library's routing of a request to a registered tool and its rejection of malformed arguments
  are the parameter \<open>refusal\<close>; \<open>pretty\<close> is \<open>JSON.stringify(v, null, 2)\<close>.
\<close>

section \<open>The caller\<close>

record dprincipal =
  dp_subject :: string
  dp_tenantId :: string
  dp_role :: role
  dp_scopes :: "string list"
  dp_tokenId :: string
  dp_email :: "string option"
  dp_name :: "string option"
  dp_territory :: "string option"
  dp_actor :: "string option"

definition principalHasScope :: "dprincipal \<Rightarrow> string \<Rightarrow> bool" where
  "principalHasScope p required = hasScope (dp_scopes p) required"

definition principalHasAllScopes :: "dprincipal \<Rightarrow> string list \<Rightarrow> bool" where
  "principalHasAllScopes p required = list_all (principalHasScope p) required"

definition missingScopes :: "dprincipal \<Rightarrow> string list \<Rightarrow> string list" where
  "missingScopes p required = filter (\<lambda>s. \<not> principalHasScope p s) required"

text \<open>\<open>String(v ?? '')\<close>; \<open>None\<close> is the \<open>TypeError\<close> of a value without a string form.\<close>

definition string_or_empty :: "(rat \<Rightarrow> string) \<Rightarrow> jval \<Rightarrow> (thrown, string) result" where
  "string_or_empty fmt v = (if v = JUndef \<or> v = JNull then Inr [] else case js_to_string fmt v of
     None \<Rightarrow> Inl (Thrown_error ''TypeError'' ''Cannot convert object to primitive value'') | Some s \<Rightarrow> Inr s)"

definition toPrincipal :: "(rat \<Rightarrow> string) \<Rightarrow> claims \<Rightarrow> (thrown, dprincipal) result" where
  "toPrincipal fmt cs =
     bind_result (string_or_empty fmt (own_prop cs ''sub'')) (\<lambda>subject. Inr
       \<lparr>dp_subject = subject,
        dp_tenantId = or_default (as_string (own_prop cs ''tenant_id'')) [],
        dp_role = or_default (parse_role (own_prop cs ''role'')) Viewer,
        dp_scopes = (case own_prop cs ''scope'' of JStr s \<Rightarrow> words_by js_space s | _ \<Rightarrow> []),
        dp_tokenId = or_default (as_string (own_prop cs ''jti'')) [],
        dp_email = as_string (own_prop cs ''email''), dp_name = as_string (own_prop cs ''name''),
        dp_territory = as_string (own_prop cs ''territory''),
        dp_actor = (case isRecord (own_prop cs ''act'') of
          None \<Rightarrow> None | Some act \<Rightarrow> as_string (js_get (JObj act) ''sub''))\<rparr>)"

section \<open>Tools\<close>

text \<open>A tool over the server's own state; the handler's arguments have passed the input schema.\<close>

record 's tool_definition =
  td_name :: string
  td_description :: string
  td_inputSchema :: "jval \<Rightarrow> jval option"
  td_requiredScopes :: "string list"
  td_readOnly :: "bool option"
  td_handler :: "jval \<Rightarrow> dprincipal \<Rightarrow> 's \<Rightarrow> (thrown, jval) result \<times> 's"

definition InvalidRequest :: int where "InvalidRequest = - 32600"
definition MethodNotFound :: int where "MethodNotFound = - 32601"
definition InvalidParams :: int where "InvalidParams = - 32602"
definition InternalError :: int where "InternalError = - 32603"

definition toMcpErrorCode :: "thrown \<Rightarrow> int" where
  "toMcpErrorCode t = (case t of
     Thrown_gateway e \<Rightarrow>
       if ge_status e = 400 then InvalidParams
       else if ge_status e \<in> {401, 403} then InvalidRequest
       else if ge_status e = 404 then MethodNotFound
       else InternalError
   | _ \<Rightarrow> InternalError)"

record tool_failure =
  tf_code :: int
  tf_message :: string
  tf_data :: "(string \<times> jval) list"

definition describeFailure :: "thrown \<Rightarrow> tool_failure" where
  "describeFailure t = (case t of
     Thrown_gateway e \<Rightarrow>
       \<lparr>tf_code = toMcpErrorCode t, tf_message = ge_message e,
        tf_data = foldl (\<lambda>d (k, v). alist_set k v d) [(''code'', JStr (code_str (ge_code e)))] (ge_details e)\<rparr>
   | Thrown_error n msg \<Rightarrow>
       \<lparr>tf_code = InternalError, tf_message = msg, tf_data = [(''code'', JStr ''internal_error'')]\<rparr>
   | Thrown_other \<Rightarrow>
       \<lparr>tf_code = InternalError, tf_message = ''Unexpected error'', tf_data = [(''code'', JStr ''internal_error'')]\<rparr>)"

text \<open>What is registered with the MCP library for a tool and a caller.\<close>

definition success_answer :: "(jval \<Rightarrow> jval) \<Rightarrow> jval \<Rightarrow> jval" where
  "success_answer pretty r = JObj
     [(''content'', JArr [JObj [(''type'', JStr ''text''), (''text'', pretty r)]]),
      (''structuredContent'', case isRecord r of Some kvs \<Rightarrow> JObj kvs | None \<Rightarrow> JObj [(''value'', r)])]"

definition failure_answer :: "(jval \<Rightarrow> jval) \<Rightarrow> thrown \<Rightarrow> jval" where
  "failure_answer pretty t = JObj
     [(''isError'', JBool True),
      (''content'', JArr [JObj [(''type'', JStr ''text''),
         (''text'', pretty (JObj [(''error'', JObj (tf_data (describeFailure t))),
            (''message'', JStr (tf_message (describeFailure t)))]))]])]"

definition registerTool ::
    "(jval \<Rightarrow> jval) \<Rightarrow> 's tool_definition \<Rightarrow> dprincipal \<Rightarrow> jval \<Rightarrow> 's \<Rightarrow> jval \<times> 's" where
  "registerTool pretty tool p args s =
     (let absent = missingScopes p (td_requiredScopes tool)
      in if absent \<noteq> []
         then (failure_answer pretty (Thrown_gateway (ScopeDeniedError absent (dp_scopes p))), s)
         else (case td_handler tool args p s of
                 (Inl t, s') \<Rightarrow> (failure_answer pretty t, s')
               | (Inr r, s') \<Rightarrow> (success_answer pretty r, s')))"

section \<open>The service\<close>

datatype health_state = H_ok | H_degraded | H_down

text \<open>\<open>sv_jwks\<close> is the lookup of the provider's keys, with the verification they give.\<close>

record 's mcp_service =
  sv_issuer :: string
  sv_expectedAudience :: string
  sv_tools :: "'s tool_definition list"
  sv_jwks :: "(thrown, string \<Rightarrow> jwt_options \<Rightarrow> thrown + claims) result"

definition mcp_authenticate :: "(rat \<Rightarrow> string) \<Rightarrow> 's mcp_service \<Rightarrow> string option \<Rightarrow> (thrown, dprincipal) result" where
  "mcp_authenticate fmt sv header = (case extractBearer header of
     None \<Rightarrow> Inl (Thrown_gateway (UnauthenticatedError ''A downstream bearer token is required'' []))
   | Some token \<Rightarrow>
       bind_result (sv_jwks sv) (\<lambda>verify.
       (case verifyAccessToken verify token
            \<lparr>vo_issuer = sv_issuer sv, vo_audience = Some [sv_expectedAudience sv], vo_clockToleranceSeconds = None\<rparr> of
          Inl e \<Rightarrow> Inl (Thrown_gateway e)
        | Inr (cs, p) \<Rightarrow> toPrincipal fmt cs)))"

datatype mcp_reply = Mcp_rejected int jval | Mcp_answer jval

text \<open>\<open>POST /mcp\<close> with a call of a tool.\<close>

definition mcp_call ::
    "(rat \<Rightarrow> string) \<Rightarrow> (jval \<Rightarrow> jval) \<Rightarrow> (string \<Rightarrow> jval \<Rightarrow> jval) \<Rightarrow> 's mcp_service \<Rightarrow> string option \<Rightarrow>
       string \<Rightarrow> jval \<Rightarrow> 's \<Rightarrow> mcp_reply \<times> 's" where
  "mcp_call fmt pretty refusal sv header toolName args s = (case mcp_authenticate fmt sv header of
     Inl t \<Rightarrow> (let failure = toGatewayError t
               in (Mcp_rejected (if ge_status failure = 403 then 403 else 401) (toResponseBody failure), s))
   | Inr p \<Rightarrow> (case List.find (\<lambda>t. td_name t = toolName) (sv_tools sv) of
       None \<Rightarrow> (Mcp_answer (refusal toolName args), s)
     | Some tool \<Rightarrow> (case td_inputSchema tool args of
         None \<Rightarrow> (Mcp_answer (refusal toolName args), s)
       | Some a \<Rightarrow> (case registerTool pretty tool p a s of (v, s') \<Rightarrow> (Mcp_answer v, s')))))"

definition mcp_readyz :: "'s mcp_service \<Rightarrow> (string \<times> health_state) list \<Rightarrow> int \<times> (string \<times> health_state) list" where
  "mcp_readyz sv readiness =
     (let checks = foldl (\<lambda>d (k, v). alist_set k v d)
            [(''identity'', if isl (sv_jwks sv) then H_down else H_ok)] readiness
      in (if list_all (\<lambda>(k, h). h = H_ok) checks then 200 else 503, checks))"

definition scopes_supported :: "'s mcp_service \<Rightarrow> string list" where
  "scopes_supported sv = sort (nub (concat (map td_requiredScopes (sv_tools sv))))"

definition listed :: "'s mcp_service \<Rightarrow> (string \<times> string \<times> string list \<times> bool) list" where
  "listed sv = map (\<lambda>t. (td_name t, td_description t, td_requiredScopes t, or_default (td_readOnly t) False)) (sv_tools sv)"

section \<open>Lemmas\<close>

lemma missingScopes_Nil: "missingScopes p required = [] \<longleftrightarrow> principalHasAllScopes p required"
  by (induction required) (auto simp: missingScopes_def principalHasAllScopes_def)

text \<open>The projection of claims that a token verification has accepted.\<close>

lemma toPrincipal_verified:
  assumes "principalFromClaims cs = Inr p"
  shows "\<exists>dp. toPrincipal fmt cs = Inr dp \<and> dp_subject dp = pn_subject p \<and> dp_tenantId dp = pn_tenantId p \<and>
    dp_role dp = pn_role p \<and> dp_tokenId dp = pn_tokenId p \<and> set (dp_scopes dp) \<subseteq> set (pn_scopes p)"
proof -
  from assms obtain sub tid jti where c: "own_prop cs ''sub'' = JStr sub" "own_prop cs ''tenant_id'' = JStr tid"
    "own_prop cs ''jti'' = JStr jti"
    and p: "pn_subject p = sub" "pn_tenantId p = tid" "pn_tokenId p = jti"
      "pn_role p = or_default (parse_role (own_prop cs ''role'')) Viewer"
      "pn_scopes p = parseScope (own_prop cs ''scope'')"
    by (auto simp: principalFromClaims_def nonempty_string_def split: jval.splits if_splits)
  show ?thesis
    unfolding toPrincipal_def by (auto simp: c p string_or_empty_def parseScope_def split: jval.splits)
qed

lemma mcp_authenticate_Inr:
  assumes "mcp_authenticate fmt sv header = Inr dp"
  obtains token verify cs p where "extractBearer header = Some token" "sv_jwks sv = Inr verify"
    "verify token \<lparr>jo_issuer = sv_issuer sv, jo_audience = Some [sv_expectedAudience sv],
       jo_algorithms = ALLOWED_ALGORITHMS, jo_clockTolerance = 5\<rparr> = Inr cs"
    "principalFromClaims cs = Inr p" "toPrincipal fmt cs = Inr dp"
proof -
  from assms obtain token where t: "extractBearer header = Some token"
    by (auto simp: mcp_authenticate_def split: option.splits)
  from assms t obtain verify where v: "sv_jwks sv = Inr verify"
    by (auto simp: mcp_authenticate_def bind_result_Inr_iff)
  let ?o = "\<lparr>vo_issuer = sv_issuer sv, vo_audience = Some [sv_expectedAudience sv], vo_clockToleranceSeconds = None\<rparr>"
  from assms t v obtain cs p where a: "verifyAccessToken verify token ?o = Inr (cs, p)" "toPrincipal fmt cs = Inr dp"
    by (auto simp: mcp_authenticate_def split: sum.splits)
  from a(1) have "verify token (jwt_options_of ?o) = Inr cs" "principalFromClaims cs = Inr p"
    by (auto simp: verifyAccessToken_def bind_result_Inr_iff split: if_splits sum.splits)
  with t v a(2) that show thesis by (simp add: jwt_options_of_def)
qed

lemma registerTool_absent:
  "\<not> principalHasAllScopes p (td_requiredScopes tool) \<Longrightarrow> registerTool pretty tool p args s =
     (failure_answer pretty (Thrown_gateway (ScopeDeniedError (missingScopes p (td_requiredScopes tool)) (dp_scopes p))), s)"
  by (simp add: registerTool_def Let_def flip: missingScopes_Nil)

lemma registerTool_held:
  "principalHasAllScopes p (td_requiredScopes tool) \<Longrightarrow> registerTool pretty tool p args s =
     (case fst (td_handler tool args p s) of Inl t \<Rightarrow> failure_answer pretty t | Inr r \<Rightarrow> success_answer pretty r,
      snd (td_handler tool args p s))"
  by (simp add: registerTool_def Let_def case_prod_beta flip: missingScopes_Nil split: sum.splits)

lemma read_failure_answer:
  "\<exists>r. read_tool_result ms (failure_answer pretty t) = Inr r \<and> ur_isError r \<and> ur_structured r = None"
  by (simp add: read_tool_result_def failure_answer_def js_get_def object_proto_get_def object_methods_def isRecord_def)

lemma read_success_answer:
  "\<exists>r. read_tool_result ms (success_answer pretty v) = Inr r \<and> \<not> ur_isError r \<and>
     ur_structured r = Some (case isRecord v of Some kvs \<Rightarrow> kvs | None \<Rightarrow> [(''value'', v)])"
  by (simp add: read_tool_result_def success_answer_def js_get_def object_proto_get_def object_methods_def isRecord_def
      split: option.splits jval.splits)

section \<open>Properties\<close>

text \<open>C21: a handler runs only for a caller it may serve. When a call changes the server's state, its
  bearer token was verified with the server's own audience required, the tool is one of the
  server's, the caller projected from the token holds every scope the tool declares, and the change is
  the handler's for that caller; a rejected request is answered 401 or 403.\<close>

theorem mcp_call_guarded:
  assumes "mcp_call fmt pretty refusal sv header toolName args s = (reply, s')"
  shows "(s' = s \<and> (case reply of Mcp_rejected c body \<Rightarrow> c \<in> {401, 403} | Mcp_answer v \<Rightarrow> True)) \<or>
    (\<exists>token verify cs p dp tool a. extractBearer header = Some token \<and> sv_jwks sv = Inr verify \<and>
       verify token \<lparr>jo_issuer = sv_issuer sv, jo_audience = Some [sv_expectedAudience sv],
         jo_algorithms = ALLOWED_ALGORITHMS, jo_clockTolerance = 5\<rparr> = Inr cs \<and>
       principalFromClaims cs = Inr p \<and> dp_subject dp = pn_subject p \<and> dp_tenantId dp = pn_tenantId p \<and>
       set (dp_scopes dp) \<subseteq> set (pn_scopes p) \<and> tool \<in> set (sv_tools sv) \<and> td_name tool = toolName \<and>
       list_all (hasScope (dp_scopes dp)) (td_requiredScopes tool) \<and>
       td_inputSchema tool args = Some a \<and> s' = snd (td_handler tool a dp s))"
proof (cases "mcp_authenticate fmt sv header")
  case (Inl t)
  then show ?thesis using assms by (auto simp: mcp_call_def Let_def)
next
  case (Inr dp)
  from mcp_authenticate_Inr [OF Inr] obtain token verify cs p where
    auth: "extractBearer header = Some token" "sv_jwks sv = Inr verify"
    "verify token \<lparr>jo_issuer = sv_issuer sv, jo_audience = Some [sv_expectedAudience sv],
       jo_algorithms = ALLOWED_ALGORITHMS, jo_clockTolerance = 5\<rparr> = Inr cs"
    "principalFromClaims cs = Inr p" "toPrincipal fmt cs = Inr dp" .
  from toPrincipal_verified [OF auth(4), of fmt] auth(5) have dp: "dp_subject dp = pn_subject p"
    "dp_tenantId dp = pn_tenantId p" "set (dp_scopes dp) \<subseteq> set (pn_scopes p)" by auto
  show ?thesis
  proof (cases "List.find (\<lambda>t. td_name t = toolName) (sv_tools sv)")
    case None
    then show ?thesis using assms Inr by (auto simp: mcp_call_def)
  next
    case (Some tool)
    then have tool: "tool \<in> set (sv_tools sv)" "td_name tool = toolName"
      by (auto simp: find_Some_iff)
    show ?thesis
    proof (cases "td_inputSchema tool args")
      case None
      then show ?thesis using assms Inr Some by (auto simp: mcp_call_def)
    next
      case a: (Some a)
      show ?thesis
      proof (cases "principalHasAllScopes dp (td_requiredScopes tool)")
        case False
        from registerTool_absent [OF this] show ?thesis using assms Inr Some a by (auto simp: mcp_call_def)
      next
        case True
        have "s' = snd (td_handler tool a dp s)"
          using assms Inr Some a registerTool_held [OF True] by (simp add: mcp_call_def)
        moreover have "list_all (hasScope (dp_scopes dp)) (td_requiredScopes tool)"
          using True by (simp add: principalHasAllScopes_def principalHasScope_def [abs_def])
        ultimately show ?thesis using auth dp tool a by blast
      qed
    qed
  qed
qed

definition demo_service :: "nat mcp_service" where
  "demo_service = \<lparr>sv_issuer = ''idp'', sv_expectedAudience = ''mcp'',
     sv_tools = [\<lparr>td_name = ''count'', td_description = [], td_inputSchema = Some, td_requiredScopes = [''a:b''],
       td_readOnly = None, td_handler = (\<lambda>v p n. (Inr (JObj []), Suc n))\<rparr>],
     sv_jwks = Inr (\<lambda>t o'. if t = ''tok'' \<and> jo_audience o' = Some [''mcp''] then Inr [(''sub'', JStr ''alice''), (''tenant_id'', JStr ''acme''),
       (''jti'', JStr ''j1''), (''scope'', JStr ''a:b c:d'')] else Inl Thrown_other)\<rparr>"

theorem mcp_call_guarded_witness:
  "\<exists>p cs. principalFromClaims cs = Inr p \<and>
     (\<exists>dp :: dprincipal. dp_subject dp = pn_subject p \<and> hasScope (dp_scopes dp) ''a:b'')"
proof -
  let ?r = "mcp_call (\<lambda>q. []) id (\<lambda>n a. JNull) demo_service (Some ''Bearer tok'') ''count'' JNull 4"
  have n: "snd ?r \<noteq> 4" by code_simp
  have "?r = (fst ?r, snd ?r)" by simp
  from mcp_call_guarded [OF this] n obtain cs and p :: principal and dp :: dprincipal and tool where
    "principalFromClaims cs = Inr p" "dp_subject dp = pn_subject p" "tool \<in> set (sv_tools demo_service)"
    "list_all (hasScope (dp_scopes dp)) (td_requiredScopes tool)" by blast
  then show ?thesis by (auto simp: demo_service_def)
qed


end
