(* ===== verification/Warehouse.thy ===== *)
theory Warehouse
  imports Sql_Guard Mcp_Runtime Zod_Values
begin

text \<open>
  The warehouse server (\<open>apps/mcp-servers/postgres/src/warehouse.ts\<close>, \<open>tools.ts\<close>): every statement of a
  caller runs in a read-only transaction that has first taken on the caller's database role and
  published the caller's tenant and territory. The database driver is the parameter \<open>drv\<close>, from a
  statement with its parameters and a connection to its outcome; what Postgres documents of the
  statements used is the hypothesis \<open>pg_documented\<close> over an observer \<open>ctx\<close> of a connection's session.
\<close>

section \<open>The driver\<close>

type_synonym sql = "string \<times> string list"

record pg_result =
  pr_columns :: "string list"
  pr_rows :: "(string \<times> jval) list list"
  pr_rowCount :: "nat option"

type_synonym 'c pg_exec = "sql \<Rightarrow> 'c \<Rightarrow> (thrown, pg_result) result \<times> 'c"
type_synonym ('c, 'a) pg = "'c \<Rightarrow> (thrown, 'a) result \<times> 'c"

definition pg_bind :: "('c, 'a) pg \<Rightarrow> ('a \<Rightarrow> ('c, 'b) pg) \<Rightarrow> ('c, 'b) pg" where
  "pg_bind m f = (\<lambda>c. case m c of (Inl t, c') \<Rightarrow> (Inl t, c') | (Inr x, c') \<Rightarrow> f x c')"

definition pg_return :: "'a \<Rightarrow> ('c, 'a) pg" where
  "pg_return x = (\<lambda>c. (Inr x, c))"

text \<open>Statements one after the other, their results ignored.\<close>

primrec run_all :: "'c pg_exec \<Rightarrow> sql list \<Rightarrow> ('c, unit) pg" where
  "run_all drv [] = pg_return ()"
| "run_all drv (q # qs) = pg_bind (drv q) (\<lambda>_. run_all drv qs)"

section \<open>Callers\<close>

record warehouse_caller =
  wc_tenantId :: string
  wc_role :: role
  wc_territory :: "string option"

definition ROLE_TO_DB_ROLE :: "role \<Rightarrow> string" where
  "ROLE_TO_DB_ROLE r = (case r of Admin \<Rightarrow> ''app_admin'' | Manager \<Rightarrow> ''app_manager''
     | Analyst \<Rightarrow> ''app_analyst'' | Viewer \<Rightarrow> ''app_viewer'')"

definition EXPOSED_TABLES :: "string list" where
  "EXPOSED_TABLES = [''customers'', ''products'', ''orders'', ''order_items'']"

definition LIST_TABLES_COUNT_CAP :: int where
  "LIST_TABLES_COUNT_CAP = 10000"

record warehouse =
  wh_statementTimeoutMs :: int
  wh_maxRows :: int

text \<open>What is run before the caller's own statements.\<close>

definition set_config :: "string \<Rightarrow> string \<Rightarrow> sql" where
  "set_config k v = (''SELECT set_config($1, $2, true)'', [k, v])"

definition caller_setup :: "warehouse \<Rightarrow> warehouse_caller \<Rightarrow> sql list" where
  "caller_setup w caller =
     [(''BEGIN READ ONLY'', []),
      (''SET LOCAL statement_timeout = '' @ int_str (wh_statementTimeoutMs w), []),
      set_config ''app.tenant_id'' (wc_tenantId caller),
      set_config ''app.territory'' (or_default (wc_territory caller) []),
      (''SET LOCAL ROLE '' @ ROLE_TO_DB_ROLE (wc_role caller), [])]"

definition withCallerContext ::
    "'c pg_exec \<Rightarrow> warehouse \<Rightarrow> warehouse_caller \<Rightarrow> ('c, 'a) pg \<Rightarrow> ('c, 'a) pg" where
  "withCallerContext drv w caller fn = (\<lambda>c.
     case pg_bind (run_all drv (caller_setup w caller)) (\<lambda>_.
            pg_bind fn (\<lambda>r. pg_bind (drv (''COMMIT'', [])) (\<lambda>_. pg_return r))) c of
       (Inr r, c') \<Rightarrow> (Inr r, c')
     | (Inl t, c') \<Rightarrow> (Inl t, snd (drv (''ROLLBACK'', []) c')))"

section \<open>Operations\<close>

record table_listing =
  tb_name :: string
  tb_rowsVisible :: js_num
  tb_exact :: bool
  tb_description :: string

definition table_description :: "string \<Rightarrow> string" where
  "table_description t =
     (if t = ''customers'' then ''Customer accounts, one row per customer, scoped by territory''
      else if t = ''products'' then ''Product catalogue with list prices''
      else if t = ''orders'' then ''Order headers with status, channel and total value''
      else ''Order line items joining orders to products'')"

definition count_statement :: "string \<Rightarrow> sql" where
  "count_statement t = (concat [''SELECT COUNT(*)::text AS count FROM (SELECT 1 FROM '', t, '' LIMIT '',
     int_str (LIST_TABLES_COUNT_CAP + 1), '') AS capped''], [])"

text \<open>\<open>Math.min(counted, cap)\<close> and \<open>counted <= cap\<close>.\<close>

definition capped_count :: "js_num \<Rightarrow> js_num \<times> bool" where
  "capped_count n = (case n of
     JFin q \<Rightarrow> (JFin (min q (of_int LIST_TABLES_COUNT_CAP)), q \<le> of_int LIST_TABLES_COUNT_CAP)
   | JNegZero \<Rightarrow> (JNegZero, True) | JNegInf \<Rightarrow> (JNegInf, True)
   | JInf \<Rightarrow> (JFin (of_int LIST_TABLES_COUNT_CAP), False) | JNaN \<Rightarrow> (JNaN, False))"

text \<open>\<open>Number(rows[0]?.count ?? 0)\<close>; the count is text.\<close>

definition counted_rows :: "pg_result \<Rightarrow> js_num" where
  "counted_rows r = (case pr_rows r of
     [] \<Rightarrow> JFin 0
   | row # _ \<Rightarrow> (case own_prop row ''count'' of JStr s \<Rightarrow> js_string_to_num s | JNum n \<Rightarrow> n
       | JUndef \<Rightarrow> JFin 0 | JNull \<Rightarrow> JFin 0 | _ \<Rightarrow> JNaN))"

definition list_table :: "'c pg_exec \<Rightarrow> string \<Rightarrow> ('c, table_listing) pg" where
  "list_table drv t = pg_bind (drv (count_statement t)) (\<lambda>r.
     case capped_count (counted_rows r) of (n, exact) \<Rightarrow>
       pg_return \<lparr>tb_name = t, tb_rowsVisible = n, tb_exact = exact, tb_description = table_description t\<rparr>)"

primrec list_each :: "'c pg_exec \<Rightarrow> string list \<Rightarrow> ('c, table_listing list) pg" where
  "list_each drv [] = pg_return []"
| "list_each drv (t # ts) = pg_bind (list_table drv t) (\<lambda>x. pg_bind (list_each drv ts) (\<lambda>xs. pg_return (x # xs)))"

definition listTables :: "'c pg_exec \<Rightarrow> warehouse \<Rightarrow> warehouse_caller \<Rightarrow> ('c, table_listing list) pg" where
  "listTables drv w caller = withCallerContext drv w caller (list_each drv EXPOSED_TABLES)"

record column_listing =
  co_name :: jval
  co_type :: jval
  co_nullable :: bool

definition describe_statement :: "string \<Rightarrow> sql" where
  "describe_statement t = (concat [''SELECT column_name, data_type, is_nullable
           FROM information_schema.columns
          WHERE table_schema = '', quoted ''public'', '' AND table_name = $1
          ORDER BY ordinal_position''], [t])"

definition row_level_note :: "string \<Rightarrow> string" where
  "row_level_note t = (if t = ''customers'' \<or> t = ''orders''
     then ''Tenant-scoped for every role; additionally territory-scoped for analyst and viewer.''
     else ''Tenant-scoped for every role.'')"

definition describeTable :: "'c pg_exec \<Rightarrow> string \<Rightarrow> ('c, column_listing list \<times> string) pg" where
  "describeTable drv t =
     (if t \<notin> set EXPOSED_TABLES
      then (\<lambda>c. (Inl (Thrown_gateway (BadRequestError
        (concat [''Unknown table '', quoted t, ''. Available tables: '', join '', '' EXPOSED_TABLES])
        [(''available'', JArr (map JStr EXPOSED_TABLES))])), c))
      else pg_bind (drv (describe_statement t)) (\<lambda>r. pg_return
        (map (\<lambda>row. \<lparr>co_name = own_prop row ''column_name'', co_type = own_prop row ''data_type'',
           co_nullable = (own_prop row ''is_nullable'' = JStr ''YES'')\<rparr>) (pr_rows r), row_level_note t)))"

record query_outcome =
  qo_columns :: "string list"
  qo_rows :: "(string \<times> jval) list list"
  qo_rowCount :: nat
  qo_truncated :: bool
  qo_appliedRole :: string

definition driver_message :: "thrown \<Rightarrow> string" where
  "driver_message t = (case t of
     Thrown_gateway e \<Rightarrow> ge_message e | Thrown_error n msg \<Rightarrow> msg | Thrown_other \<Rightarrow> ''Query failed'')"

definition query_failure :: "warehouse \<Rightarrow> thrown \<Rightarrow> thrown" where
  "query_failure w t =
     (let m = to_lower (driver_message t)
      in Thrown_gateway
        (if has_sub m ''statement timeout'' \<or> has_sub m ''canceling statement''
         then UpstreamError ''warehouse''
           (concat [''Query exceeded the '', int_str (wh_statementTimeoutMs w), ''ms statement timeout''])
           [(''timeoutMs'', jint (wh_statementTimeoutMs w))]
         else BadRequestError (''Query rejected by the database: '' @ driver_message t) []))"

definition outcome_of :: "warehouse_caller \<Rightarrow> guarded_statement \<Rightarrow> pg_result \<Rightarrow> query_outcome" where
  "outcome_of caller g r =
     \<lparr>qo_columns = pr_columns r, qo_rows = pr_rows r,
      qo_rowCount = or_default (pr_rowCount r) (length (pr_rows r)),
      qo_truncated = (gs_limit g \<le> int (or_default (pr_rowCount r) 0)),
      qo_appliedRole = ROLE_TO_DB_ROLE (wc_role caller)\<rparr>"

definition run_guarded ::
    "'c pg_exec \<Rightarrow> warehouse \<Rightarrow> warehouse_caller \<Rightarrow> guarded_statement \<Rightarrow> ('c, query_outcome) pg" where
  "run_guarded drv w caller g = (\<lambda>c. case drv (gs_sql g, []) c of
     (Inl t, c') \<Rightarrow> (Inl (query_failure w t), c')
   | (Inr r, c') \<Rightarrow> (Inr (outcome_of caller g r), c'))"

definition warehouse_query ::
    "'c pg_exec \<Rightarrow> warehouse \<Rightarrow> warehouse_caller \<Rightarrow> string \<Rightarrow> int option \<Rightarrow> ('c, query_outcome) pg" where
  "warehouse_query drv w caller sql limit =
     (case guardStatement sql \<lparr>go_maxRows = min (or_default limit (wh_maxRows w)) (wh_maxRows w), go_maxLength = None\<rparr> of
        Inl e \<Rightarrow> (\<lambda>c. (Inl (Thrown_gateway e), c))
      | Inr g \<Rightarrow> withCallerContext drv w caller (run_guarded drv w caller g))"

section \<open>The tools\<close>

definition callerFrom :: "dprincipal \<Rightarrow> warehouse_caller" where
  "callerFrom p = \<lparr>wc_tenantId = dp_tenantId p, wc_role = dp_role p, wc_territory = dp_territory p\<rparr>"

definition pg_then :: "('c, 'a) pg \<Rightarrow> ('a \<Rightarrow> jval) \<Rightarrow> ('c, jval) pg" where
  "pg_then m f = pg_bind m (\<lambda>x. pg_return (f x))"

definition list_tables_tool :: "'c pg_exec \<Rightarrow> warehouse \<Rightarrow> 'c tool_definition" where
  "list_tables_tool drv w =
     \<lparr>td_name = ''pg.list_tables'',
      td_description = ''Lists the warehouse tables available to the caller, with how many rows each exposes to them under row-level security. Counts are capped so the listing stays fast on large tables; each entry reports whether its count is exact.'',
      td_inputSchema = zod_object (\<lambda>field. Some (JObj [])), td_requiredScopes = [''postgres:read''], td_readOnly = Some True,
      td_handler = (\<lambda>args p. pg_then (listTables drv w (callerFrom p)) (\<lambda>tables. JObj
        [(''tables'', JArr (map (\<lambda>t. JObj
            [(''name'', JStr (tb_name t)), (''rowsVisible'', JNum (tb_rowsVisible t)), (''exact'', JBool (tb_exact t)),
             (''description'', JStr (tb_description t))]) tables)),
         (''appliedRole'', JStr (ROLE_TO_DB_ROLE (dp_role p))), (''countedUpTo'', jint LIST_TABLES_COUNT_CAP)]))\<rparr>"

definition describe_table_tool :: "'c pg_exec \<Rightarrow> 'c tool_definition" where
  "describe_table_tool drv =
     \<lparr>td_name = ''pg.describe_table'',
      td_description = ''Returns the columns of a warehouse table and a note on how row-level security applies to it.'',
      td_inputSchema = zod_object (\<lambda>field. map_option (\<lambda>t. JObj [(''table'', JStr t)]) (zod_enum EXPOSED_TABLES (field ''table''))),
      td_requiredScopes = [''postgres:read''], td_readOnly = Some True,
      td_handler = (\<lambda>args p. let t = or_default (as_string (js_get args ''table'')) []
        in pg_then (describeTable drv t) (\<lambda>(columns, note). JObj
          [(''table'', JStr t),
           (''columns'', JArr (map (\<lambda>k. JObj [(''name'', co_name k), (''type'', co_type k), (''nullable'', JBool (co_nullable k))]) columns)),
           (''rowLevelSecurity'', JStr note)]))\<rparr>"

definition query_tool :: "'c pg_exec \<Rightarrow> js_num \<Rightarrow> warehouse \<Rightarrow> 'c tool_definition" where
  "query_tool drv durationMs w =
     \<lparr>td_name = ''pg.query'',
      td_description = ''Executes a single SELECT (or WITH) statement against the warehouse. The statement runs in a read-only transaction under the caller own database role, so results are already restricted to the rows they are entitled to see. Catalog schemas are not reachable and the result set is capped.'',
      td_inputSchema = zod_object (\<lambda>field. case (zod_string 1 None (field ''sql''), zod_optional (zod_int 1 (Some 5000)) (field ''limit'')) of
        (Some s, Some None) \<Rightarrow> Some (JObj [(''sql'', JStr s)])
      | (Some s, Some (Some l)) \<Rightarrow> Some (JObj [(''sql'', JStr s), (''limit'', jint l)])
      | _ \<Rightarrow> None),
      td_requiredScopes = [''postgres:query''], td_readOnly = Some True,
      td_handler = (\<lambda>args p. pg_then
        (warehouse_query drv w (callerFrom p) (or_default (as_string (js_get args ''sql'')) []) (zod_int 1 (Some 5000) (js_get args ''limit'')))
        (\<lambda>r. JObj
          [(''columns'', JArr (map JStr (qo_columns r))), (''rows'', JArr (map JObj (qo_rows r))),
           (''rowCount'', jint (int (qo_rowCount r))), (''truncated'', JBool (qo_truncated r)), (''durationMs'', JNum durationMs),
           (''appliedRole'', JStr (qo_appliedRole r))]))\<rparr>"

definition createWarehouseTools :: "'c pg_exec \<Rightarrow> js_num \<Rightarrow> warehouse \<Rightarrow> 'c tool_definition list" where
  "createWarehouseTools drv durationMs w = [list_tables_tool drv w, describe_table_tool drv, query_tool drv durationMs w]"

section \<open>What Postgres documents\<close>

record pg_context =
  pc_readOnly :: bool
  pc_role :: string
  pc_tenant :: string
  pc_territory :: string

text \<open>\<open>ctx\<close> is \<open>None\<close> outside a transaction. Statements that succeed: \<open>BEGIN\<close> leaves a read-only
  transaction, \<open>set_config\<close> with its third argument true and \<open>SET LOCAL\<close> change one setting of the
  transaction, and a count changes none.\<close>

definition pg_documented :: "'c pg_exec \<Rightarrow> ('c \<Rightarrow> pg_context option) \<Rightarrow> bool" where
  "pg_documented drv ctx \<longleftrightarrow>
     (\<forall>c r c'. drv (''BEGIN READ ONLY'', []) c = (Inr r, c') \<longrightarrow> (\<exists>x. ctx c' = Some x \<and> pc_readOnly x)) \<and>
     (\<forall>c r c' x i. drv (''SET LOCAL statement_timeout = '' @ int_str i, []) c = (Inr r, c') \<longrightarrow> ctx c = Some x \<longrightarrow> ctx c' = Some x) \<and>
     (\<forall>c r c' x v. drv (set_config ''app.tenant_id'' v) c = (Inr r, c') \<longrightarrow> ctx c = Some x \<longrightarrow> ctx c' = Some (x\<lparr>pc_tenant := v\<rparr>)) \<and>
     (\<forall>c r c' x v. drv (set_config ''app.territory'' v) c = (Inr r, c') \<longrightarrow> ctx c = Some x \<longrightarrow> ctx c' = Some (x\<lparr>pc_territory := v\<rparr>)) \<and>
     (\<forall>c r c' x v. drv (''SET LOCAL ROLE '' @ v, []) c = (Inr r, c') \<longrightarrow> ctx c = Some x \<longrightarrow> ctx c' = Some (x\<lparr>pc_role := v\<rparr>)) \<and>
     (\<forall>c r c' t. drv (count_statement t) c = (Inr r, c') \<longrightarrow> ctx c' = ctx c)"

definition caller_context :: "warehouse_caller \<Rightarrow> pg_context" where
  "caller_context caller =
     \<lparr>pc_readOnly = True, pc_role = ROLE_TO_DB_ROLE (wc_role caller), pc_tenant = wc_tenantId caller,
      pc_territory = or_default (wc_territory caller) []\<rparr>"

text \<open>The driver with a log of the statements and the session each was run in.\<close>

type_synonym pg_log = "(sql \<times> pg_context option) list"

definition recorded :: "'c pg_exec \<Rightarrow> ('c \<Rightarrow> pg_context option) \<Rightarrow> ('c \<times> pg_log) pg_exec" where
  "recorded drv ctx q s = (case s of (c, lg) \<Rightarrow> (case drv q c of (r, c') \<Rightarrow> (r, (c', lg @ [(q, ctx c)]))))"

definition plumbing :: "warehouse \<Rightarrow> warehouse_caller \<Rightarrow> sql set" where
  "plumbing w caller = set (caller_setup w caller) \<union> {(''COMMIT'', []), (''ROLLBACK'', [])} \<union> describe_statement ` set EXPOSED_TABLES"

text \<open>A count of an exposed table, or what the guard makes of a caller's statement.\<close>

definition own_statement :: "sql \<Rightarrow> bool" where
  "own_statement q \<longleftrightarrow> q \<in> count_statement ` set EXPOSED_TABLES \<or>
     (\<exists>raw options g. guardStatement raw options = Inr g \<and> q = (gs_sql g, []))"

definition in_own_context :: "warehouse \<Rightarrow> warehouse_caller \<Rightarrow> pg_log \<Rightarrow> bool" where
  "in_own_context w caller lg \<longleftrightarrow>
     list_all (\<lambda>(q, x). q \<in> plumbing w caller \<or> own_statement q \<and> x = Some (caller_context caller)) lg"

lemma in_own_context_append [simp]:
  "in_own_context w caller (a @ b) \<longleftrightarrow> in_own_context w caller a \<and> in_own_context w caller b"
  by (simp add: in_own_context_def)

lemma in_own_context_Nil [simp]: "in_own_context w caller []"
  by (simp add: in_own_context_def)

text \<open>A computation over the recorded driver logs only what its caller may run.\<close>

definition keeps :: "warehouse \<Rightarrow> warehouse_caller \<Rightarrow> (('c \<times> pg_log), 'a) pg \<Rightarrow> ('c \<times> pg_log) \<Rightarrow> bool" where
  "keeps w caller m s \<longleftrightarrow> (in_own_context w caller (snd s) \<longrightarrow> in_own_context w caller (snd (snd (m s))))"

lemma keeps_return: "keeps w caller (pg_return x) s"
  by (simp add: keeps_def pg_return_def)

lemma keeps_bind:
  assumes "keeps w caller m s" and "\<And>x s'. m s = (Inr x, s') \<Longrightarrow> keeps w caller (f x) s'"
  shows "keeps w caller (pg_bind m f) s"
proof -
  obtain r s' where "m s = (r, s')" by (metis surj_pair)
  with assms show ?thesis by (cases r) (auto simp: keeps_def pg_bind_def)
qed

lemma keeps_plumbing: "q \<in> plumbing w caller \<Longrightarrow> keeps w caller (recorded drv ctx q) s"
  by (cases s) (simp add: keeps_def recorded_def in_own_context_def case_prod_beta)

lemma keeps_own:
  "own_statement q \<Longrightarrow> ctx (fst s) = Some (caller_context caller) \<Longrightarrow> keeps w caller (recorded drv ctx q) s"
  by (cases s) (simp add: keeps_def recorded_def in_own_context_def case_prod_beta)

lemma recorded_Inr: "recorded drv ctx q s = (Inr r, s') \<Longrightarrow> drv q (fst s) = (Inr r, fst s')"
  by (cases s) (auto simp: recorded_def split: prod.splits)

lemma pg_bind_Inr:
  "pg_bind m f s = (Inr y, s'') \<longleftrightarrow> (\<exists>x s'. m s = (Inr x, s') \<and> f x s' = (Inr y, s''))"
  by (auto simp: pg_bind_def split: prod.splits sum.splits)

lemma keeps_run_all: "set qs \<subseteq> plumbing w caller \<Longrightarrow> keeps w caller (run_all (recorded drv ctx) qs) s"
  by (induction qs arbitrary: s) (auto intro: keeps_return keeps_bind keeps_plumbing)

text \<open>The set-up puts the session into the caller's context, whatever it was.\<close>

lemma setup_context:
  assumes "pg_documented drv ctx" and "run_all (recorded drv ctx) (caller_setup w caller) s = (Inr u, s')"
  shows "ctx (fst s') = Some (caller_context caller)"
proof -
  note doc = assms(1) [unfolded pg_documented_def]
  from assms(2) obtain r1 s1 r2 s2 r3 s3 r4 s4 r5 where run:
    "recorded drv ctx (''BEGIN READ ONLY'', []) s = (Inr r1, s1)"
    "recorded drv ctx (''SET LOCAL statement_timeout = '' @ int_str (wh_statementTimeoutMs w), []) s1 = (Inr r2, s2)"
    "recorded drv ctx (set_config ''app.tenant_id'' (wc_tenantId caller)) s2 = (Inr r3, s3)"
    "recorded drv ctx (set_config ''app.territory'' (or_default (wc_territory caller) [])) s3 = (Inr r4, s4)"
    "recorded drv ctx (''SET LOCAL ROLE '' @ ROLE_TO_DB_ROLE (wc_role caller), []) s4 = (Inr r5, s')"
    unfolding caller_setup_def run_all.simps pg_bind_Inr pg_return_def by blast
  note e = run [THEN recorded_Inr]
  note d2 = doc [THEN conjunct2]
  note d3 = d2 [THEN conjunct2]
  note d4 = d3 [THEN conjunct2]
  note d5 = d4 [THEN conjunct2]
  from doc [THEN conjunct1, rule_format, OF e(1)] obtain x where
    x: "ctx (fst s1) = Some x" "pc_readOnly x" by (elim exE conjE)
  note x2 = d2 [THEN conjunct1, rule_format, OF e(2) x(1)]
  note x3 = d3 [THEN conjunct1, rule_format, OF e(3) x2]
  note x4 = d4 [THEN conjunct1, rule_format, OF e(4) x3]
  note x5 = d5 [THEN conjunct1, rule_format, OF e(5) x4]
  from x5 x(2) show ?thesis by (cases x) (simp add: caller_context_def)
qed

lemma keeps_withCallerContext:
  assumes "pg_documented drv ctx"
    and "\<And>s. ctx (fst s) = Some (caller_context caller) \<Longrightarrow> keeps w caller fn s"
  shows "keeps w caller (withCallerContext (recorded drv ctx) w caller fn) s"
proof -
  let ?body = "pg_bind (run_all (recorded drv ctx) (caller_setup w caller)) (\<lambda>_.
    pg_bind fn (\<lambda>r. pg_bind (recorded drv ctx (''COMMIT'', [])) (\<lambda>_. pg_return r)))"
  have pl: "set (caller_setup w caller) \<subseteq> plumbing w caller" "(''COMMIT'', []) \<in> plumbing w caller"
    "(''ROLLBACK'', []) \<in> plumbing w caller" by (auto simp: plumbing_def)
  have "keeps w caller ?body s"
    by (intro keeps_bind keeps_run_all keeps_plumbing keeps_return assms(2) setup_context [OF assms(1)] pl)
  moreover have "keeps w caller (recorded drv ctx (''ROLLBACK'', [])) s'" for s'
    by (rule keeps_plumbing) (rule pl)
  ultimately show ?thesis
    unfolding keeps_def withCallerContext_def by (auto split: prod.splits sum.splits)
qed

lemma keeps_list_each:
  assumes "pg_documented drv ctx" and "set ts \<subseteq> set EXPOSED_TABLES" and "ctx (fst s) = Some (caller_context caller)"
  shows "keeps w caller (list_each (recorded drv ctx) ts) s"
  using assms(2-3)
proof (induction ts arbitrary: s)
  case (Cons t ts)
  have own: "own_statement (count_statement t)" using Cons.prems(1) by (simp add: own_statement_def)
  have one: "keeps w caller (list_table (recorded drv ctx) t) s"
    unfolding list_table_def using own Cons.prems(2)
    by (intro keeps_bind keeps_own) (simp_all add: keeps_return split: prod.splits)
  have "ctx (fst s') = Some (caller_context caller)" if "list_table (recorded drv ctx) t s = (Inr x, s')" for x s'
  proof -
    from that obtain r where "recorded drv ctx (count_statement t) s = (Inr r, s')"
      unfolding list_table_def pg_bind_Inr by (auto simp: pg_return_def case_prod_beta)
    from recorded_Inr [OF this] assms(1) Cons.prems(2) show ?thesis
      unfolding pg_documented_def by metis
  qed
  with Cons.IH Cons.prems(1) one show ?case
    unfolding list_each.simps by (intro keeps_bind keeps_return) auto
qed (simp add: keeps_return)

lemma keeps_run_guarded:
  assumes "guardStatement raw options = Inr g" and "ctx (fst s) = Some (caller_context caller)"
  shows "keeps w caller (run_guarded (recorded drv ctx) w caller g) s"
proof -
  have "own_statement (gs_sql g, [])" using assms(1) unfolding own_statement_def by blast
  from keeps_own [where ctx = ctx, OF this assms(2), of w drv] show ?thesis
    by (auto simp: keeps_def run_guarded_def split: prod.splits sum.splits)
qed

lemma keeps_pg_then: "keeps w caller m s \<Longrightarrow> keeps w caller (pg_then m f) s"
  unfolding pg_then_def by (intro keeps_bind keeps_return)

lemma keeps_failed: "keeps w caller (\<lambda>c. (Inl t, c)) s"
  by (simp add: keeps_def)

lemma keeps_describe: "keeps w caller (describeTable (recorded drv ctx) t) s"
proof (cases "t \<in> set EXPOSED_TABLES")
  case True
  then have "describe_statement t \<in> plumbing w caller" by (simp add: plumbing_def)
  with True show ?thesis unfolding describeTable_def by (auto intro!: keeps_bind keeps_plumbing keeps_return)
qed (simp add: describeTable_def keeps_failed)

lemma keeps_query:
  assumes "pg_documented drv ctx"
  shows "keeps w caller (warehouse_query (recorded drv ctx) w caller raw limit) s"
  unfolding warehouse_query_def
  by (auto split: sum.splits intro!: keeps_failed keeps_withCallerContext [OF assms] keeps_run_guarded)

section \<open>Properties\<close>


text \<open>A database that does what is documented and returns nothing.\<close>

definition demo_driver :: "pg_context option pg_exec" where
  "demo_driver q c =
     (Inr \<lparr>pr_columns = [], pr_rows = [], pr_rowCount = Some 0\<rparr>,
      if fst q = ''BEGIN READ ONLY'' then Some \<lparr>pc_readOnly = True, pc_role = ''mcp'', pc_tenant = [], pc_territory = []\<rparr>
      else if fst q = ''SELECT set_config($1, $2, true)'' \<and> snd q ! 0 = ''app.tenant_id'' then map_option (\<lambda>x. x\<lparr>pc_tenant := snd q ! 1\<rparr>) c
      else if fst q = ''SELECT set_config($1, $2, true)'' then map_option (\<lambda>x. x\<lparr>pc_territory := snd q ! 1\<rparr>) c
      else if starts_with (fst q) ''SET LOCAL ROLE '' then map_option (\<lambda>x. x\<lparr>pc_role := drop 15 (fst q)\<rparr>) c
      else if fst q \<in> {''COMMIT'', ''ROLLBACK''} then None
      else c)"

lemma demo_driver_documented: "pg_documented demo_driver id"
proof -
  have 1: "demo_driver (''SET LOCAL statement_timeout = '' @ s, []) c = (r, c') \<Longrightarrow> c' = c" for s c r c'
    by (simp add: demo_driver_def starts_with_def split: if_splits)
  have 2: "demo_driver (count_statement t) c = (r, c') \<Longrightarrow> c' = c" for t c r c'
    by (simp add: demo_driver_def starts_with_def count_statement_def split: if_splits)
  have 3: "demo_driver (''SET LOCAL ROLE '' @ v, []) c = (r, c') \<Longrightarrow> c' = map_option (\<lambda>x. x\<lparr>pc_role := v\<rparr>) c" for v c r c'
    by (simp add: demo_driver_def starts_with_def)
  have 4: "demo_driver (''BEGIN READ ONLY'', []) c = (r, c') \<Longrightarrow>
      c' = Some \<lparr>pc_readOnly = True, pc_role = ''mcp'', pc_tenant = [], pc_territory = []\<rparr>" for c r c'
    by (simp add: demo_driver_def)
  have 5: "demo_driver (set_config ''app.tenant_id'' v) c = (r, c') \<Longrightarrow> c' = map_option (\<lambda>x. x\<lparr>pc_tenant := v\<rparr>) c"
    "demo_driver (set_config ''app.territory'' v) c = (r, c') \<Longrightarrow> c' = map_option (\<lambda>x. x\<lparr>pc_territory := v\<rparr>) c" for v c r c'
    by (simp_all add: demo_driver_def set_config_def)
  show ?thesis
    unfolding pg_documented_def id_def
    by (intro conjI allI impI; (drule 1 | drule 2 | drule 3 | drule 4 | drule 5(1) | drule 5(2)); simp)
qed

definition demo_warehouse :: warehouse where
  "demo_warehouse = \<lparr>wh_statementTimeoutMs = 5000, wh_maxRows = 500\<rparr>"

definition demo_dprincipal :: dprincipal where
  "demo_dprincipal = \<lparr>dp_subject = ''alice'', dp_tenantId = ''acme'', dp_role = Analyst, dp_scopes = [''postgres:query''],
     dp_tokenId = ''j'', dp_email = None, dp_name = None, dp_territory = Some ''west'', dp_actor = None\<rparr>"


end
