(* ===== verification/Soql.thy ===== *)
theory Soql
  imports Js_Regex Gw_Domain
begin

text \<open>
  The query language of the CRM server (\<open>apps/mcp-servers/salesforce/src/soql.ts\<close>): parsing by regular
  expressions, and the execution of a parsed query over records. \<open>fmt\<close> prints numbers, \<open>date_parse\<close>
  is \<open>Date.parse\<close> and \<open>lc\<close> is \<open>localeCompare\<close>; a \<open>TypeError\<close> of a conversion is an outcome.
\<close>

section \<open>Parsed queries\<close>

type_synonym crm_record = "(string \<times> jval) list"

text \<open>A plain object: the names objects inherit are found in it too.\<close>

definition OBJECTS :: jval where
  "OBJECTS = JObj [(''account'', JStr ''Account''), (''contact'', JStr ''Contact''),
     (''opportunity'', JStr ''Opportunity''), (''task'', JStr ''Task'')]"

datatype soql_operator = Op_eq | Op_ne | Op_lt | Op_le | Op_gt | Op_ge | Op_like | Op_in

record comparison =
  cm_field :: string
  cm_operator :: soql_operator
  cm_value :: jval

datatype selection = All_fields | Fields "string list"
datatype combinator = Comb_and | Comb_or

record parsed_query =
  pq_object :: jval
  pq_fields :: selection
  pq_conditions :: "comparison list"
  pq_combinator :: combinator
  pq_orderBy :: "(string \<times> bool) option"
  pq_limit :: "nat option"

section \<open>The patterns\<close>

definition ident_start :: "char \<Rightarrow> bool" where
  "ident_start c \<longleftrightarrow> is_letter c \<or> c = CHR ''_''"

definition any_char :: regex where
  "any_char = Cls (\<lambda>c. True)"

definition word_spaced :: "string \<Rightarrow> regex" where
  "word_spaced w = seq [spaces, word_ci w, spaces]"

definition QUERY_PATTERN :: regex where
  "QUERY_PATTERN = seq
     [At_start, spaces0, word_ci ''SELECT'', spaces, Named ''fields'' (plus_lazy any_char), word_spaced ''FROM'',
      Named ''object'' (plus (Cls ident_start)),
      maybe (seq [word_spaced ''WHERE'', Named ''where'' (plus_lazy any_char)]),
      maybe (seq [spaces, word_ci ''ORDER'', spaces, word_ci ''BY'', spaces,
        Named ''order'' (plus (Cls (\<lambda>c. ident_start c \<or> c = CHR ''.''))),
        maybe (seq [spaces, Named ''dir'' (Alt (word_ci ''ASC'') (word_ci ''DESC''))])]),
      maybe (seq [word_spaced ''LIMIT'', Named ''limit'' (plus (Cls is_digit))]),
      spaces0, At_end]"

definition TRAILING_SEMICOLONS :: regex where
  "TRAILING_SEMICOLONS = seq [plus (lit (CHR '';'')), spaces0, At_end]"

definition op_words :: "string list" where
  "op_words = [''>='', ''<='', ''!='', ''='', ''<'', ''>'']"

definition COMPARISON_PATTERN :: regex where
  "COMPARISON_PATTERN = seq
     [At_start, Named ''field'' (Cat (Cls ident_start) (Star True (Cls word_char))), spaces0,
      Named ''op'' (any_rx (word_ci (hd op_words)) (map word_ci (tl op_words) @
        [seq [Bound, word_ci ''LIKE'', Bound], seq [Bound, word_ci ''IN'', Bound]])),
      spaces0, Named ''value'' (plus (Cls not_newline)), At_end]"

section \<open>Parsing\<close>

definition soql_error :: "string \<Rightarrow> thrown" where
  "soql_error msg = Thrown_gateway (BadRequestError msg [])"

text \<open>\<open>/^'.*'$/s\<close>, \<open>slice(1, -1)\<close> and the doubled quotes.\<close>

abbreviation quote_char :: char where "quote_char \<equiv> CHR 0x27"

fun undouble :: "string \<Rightarrow> string" where
  "undouble (c # d # s) = (if c = quote_char \<and> d = quote_char then c # undouble s else c # undouble (d # s))"
| "undouble s = s"

text \<open>\<open>/^-?\d+(\.\d+)?$/\<close>.\<close>

definition NUMBER_PATTERN :: regex where
  "NUMBER_PATTERN = seq [At_start, maybe (lit (CHR ''-'')), plus (Cls is_digit),
     maybe (Cat (lit (CHR ''.'')) (plus (Cls is_digit))), At_end]"

definition literal :: "string \<Rightarrow> jval" where
  "literal raw =
     (if 2 \<le> length raw \<and> hd raw = quote_char \<and> last raw = quote_char then JStr (undouble (butlast (tl raw)))
      else if rx_test NUMBER_PATTERN raw then JNum (js_string_to_num raw)
      else if to_lower raw = ''true'' then JBool True
      else if to_lower raw = ''false'' then JBool False
      else if to_lower raw = ''null'' then JNull
      else JStr raw)"

definition strip_parens :: "string \<Rightarrow> string" where
  "strip_parens s =
     (let t = (if s \<noteq> [] \<and> hd s = CHR ''('' then tl s else s)
      in if t \<noteq> [] \<and> last t = CHR '')'' then butlast t else t)"

definition parse_operator :: "string \<Rightarrow> soql_operator" where
  "parse_operator w =
     (if w = ''='' then Op_eq else if w = ''!='' then Op_ne else if w = ''<'' then Op_lt else if w = ''<='' then Op_le
      else if w = ''>'' then Op_gt else if w = ''>='' then Op_ge else if w = ''LIKE'' then Op_like else Op_in)"

definition parseComparison :: "string \<Rightarrow> (thrown, comparison) result" where
  "parseComparison input = (case exec COMPARISON_PATTERN input of
     None \<Rightarrow> Inl (soql_error (''Could not parse the condition '' @ quoted input))
   | Some m \<Rightarrow>
       (let field = or_default (group_of m ''field'') [];
            operator = parse_operator (to_upper (or_default (group_of m ''op'') ''=''));
            v = trim (or_default (group_of m ''value'') [])
        in Inr \<lparr>cm_field = field, cm_operator = operator,
             cm_value = (if operator = Op_in then JArr (map (\<lambda>w. literal (trim w)) (split_on (CHR '','') (strip_parens v)))
                         else literal v)\<rparr>))"

primrec parse_each :: "string list \<Rightarrow> (thrown, comparison list) result" where
  "parse_each [] = Inr []"
| "parse_each (p # ps) = bind_result (parseComparison (trim p)) (\<lambda>x. bind_result (parse_each ps) (\<lambda>xs. Inr (x # xs)))"

definition parseWhere :: "string \<Rightarrow> (thrown, comparison list \<times> combinator) result" where
  "parseWhere clause =
     (let usesOr = rx_test (word_spaced ''OR'') clause; usesAnd = rx_test (word_spaced ''AND'') clause
      in if usesOr \<and> usesAnd
         then Inl (soql_error ''Mixing AND and OR in one WHERE clause is not supported; use a single combinator'')
         else bind_result (parse_each (split_rx (word_spaced (if usesOr then ''OR'' else ''AND'')) [] [] clause))
           (\<lambda>conditions. Inr (conditions, if usesOr then Comb_or else Comb_and)))"

definition valid_field :: "string \<Rightarrow> bool" where
  "valid_field s \<longleftrightarrow> s \<noteq> [] \<and> ident_start (hd s) \<and> list_all word_char s"

definition parse_fields :: "string \<Rightarrow> (thrown, selection) result" where
  "parse_fields text =
     (let fieldList = trim text;
          selected = filter (\<lambda>w. w \<noteq> []) (map trim (split_on (CHR '','') fieldList))
      in if fieldList = ''*'' then Inr All_fields
         else if selected = [] then Inl (soql_error ''At least one field must be selected'')
         else (case List.find (\<lambda>w. \<not> valid_field w) selected of
                 Some w \<Rightarrow> Inl (soql_error (''Invalid field name '' @ quoted w))
               | None \<Rightarrow> Inr (Fields selected)))"

definition falsy_object :: "jval \<Rightarrow> bool" where
  "falsy_object v \<longleftrightarrow> v = JUndef"

definition parse_order :: "rx_match \<Rightarrow> (string \<times> bool) option" where
  "parse_order m = (case group_of m ''order'' of
     None \<Rightarrow> None
   | Some w \<Rightarrow> Some (w, map_option to_upper (group_of m ''dir'') = Some ''DESC''))"

definition parseSoql :: "string \<Rightarrow> (thrown, parsed_query) result" where
  "parseSoql query =
     (let trimmed = replace_first TRAILING_SEMICOLONS [] (trim query)
      in if trimmed = [] then Inl (soql_error ''A SOQL query is required'')
         else if 4000 < length trimmed then Inl (soql_error ''Query exceeds the 4000 character limit'')
         else (case exec QUERY_PATTERN trimmed of
           None \<Rightarrow> Inl (soql_error
             ''Could not parse the query. Expected: SELECT <fields> FROM <Object> [WHERE ...] [ORDER BY ...] [LIMIT n]'')
         | Some m \<Rightarrow>
             (let object = or_default (group_of m ''object'') [];
                  resolved = js_get OBJECTS (to_lower object)
              in if falsy_object resolved
                 then Inl (soql_error (concat [''Unknown object '', quoted object, ''. Available: Account, Contact, Opportunity, Task'']))
                 else bind_result (parse_fields (or_default (group_of m ''fields'') [])) (\<lambda>selected.
                      bind_result (case group_of m ''where'' of
                          None \<Rightarrow> Inr ([], Comb_and) | Some clause \<Rightarrow> parseWhere clause) (\<lambda>(conditions, combinator).
                      Inr \<lparr>pq_object = resolved, pq_fields = selected, pq_conditions = conditions,
                           pq_combinator = combinator, pq_orderBy = parse_order m,
                           pq_limit = map_option nat_of_digits (group_of m ''limit'')\<rparr>)))))"

section \<open>Execution\<close>

definition likeToRegExp :: "string \<Rightarrow> regex" where
  "likeToRegExp pattern = Cat At_start (Cat (seq (map (\<lambda>c.
     if c = CHR ''%'' then Star True (Cls not_newline)
     else if c = CHR ''_'' then Cls not_newline else lit_ci c) pattern)) At_end)"

definition looseEquals :: "jval \<Rightarrow> jval \<Rightarrow> bool" where
  "looseEquals actual expected \<longleftrightarrow> strict_eq False actual expected \<or>
     (case (actual, expected) of
        (JStr a, JStr b) \<Rightarrow> to_lower a = to_lower b
      | (JNum n, JStr b) \<Rightarrow> num_eq n (js_string_to_num b)
      | _ \<Rightarrow> False)"

text \<open>\<open>typeof v === 'number' ? v : Date.parse(String(v))\<close>.\<close>

definition ordinal :: "(rat \<Rightarrow> string) \<Rightarrow> (string \<Rightarrow> js_num) \<Rightarrow> jval \<Rightarrow> js_num option" where
  "ordinal fmt date_parse v = (case v of JNum n \<Rightarrow> Some n | _ \<Rightarrow> map_option date_parse (js_to_string fmt v))"

definition ordered :: "soql_operator \<Rightarrow> rat \<Rightarrow> rat \<Rightarrow> bool" where
  "ordered op l r = (case op of Op_lt \<Rightarrow> l < r | Op_le \<Rightarrow> l \<le> r | Op_gt \<Rightarrow> l > r | Op_ge \<Rightarrow> l \<ge> r | _ \<Rightarrow> False)"

text \<open>\<open>None\<close> is the \<open>TypeError\<close> of \<open>String\<close>.\<close>

definition compare_field :: "(rat \<Rightarrow> string) \<Rightarrow> (string \<Rightarrow> js_num) \<Rightarrow> jval \<Rightarrow> comparison \<Rightarrow> bool option" where
  "compare_field fmt date_parse actual cnd =
     (let v = cm_value cnd
      in case cm_operator cnd of
           Op_in \<Rightarrow> Some (case v of JArr vs \<Rightarrow> list_ex (looseEquals actual) vs | _ \<Rightarrow> False)
         | Op_like \<Rightarrow> Some (case (actual, v) of (JStr a, JStr p) \<Rightarrow> rx_test (likeToRegExp p) a | _ \<Rightarrow> False)
         | Op_eq \<Rightarrow> Some (looseEquals actual v)
         | Op_ne \<Rightarrow> Some (\<not> looseEquals actual v)
         | op \<Rightarrow> (case (ordinal fmt date_parse actual, ordinal fmt date_parse v) of
             (Some l, Some r) \<Rightarrow> Some (is_finite_num l \<and> is_finite_num r \<and> ordered op (num_rat l) (num_rat r))
           | _ \<Rightarrow> None))"

primrec all_some :: "'a option list \<Rightarrow> 'a list option" where
  "all_some [] = Some []"
| "all_some (x # xs) = (case x of None \<Rightarrow> None | Some v \<Rightarrow> map_option ((#) v) (all_some xs))"

definition matches_query ::
    "(rat \<Rightarrow> string) \<Rightarrow> (string \<Rightarrow> js_num) \<Rightarrow> parsed_query \<Rightarrow> crm_record \<Rightarrow> bool option" where
  "matches_query fmt date_parse q rec =
     (if pq_conditions q = [] then Some True
      else map_option (\<lambda>results. if pq_combinator q = Comb_or then list_ex id results else list_all id results)
        (all_some (map (\<lambda>cnd. compare_field fmt date_parse (js_get (JObj rec) (cm_field cnd)) cnd) (pq_conditions q))))"

primrec filter_opt :: "('a \<Rightarrow> bool option) \<Rightarrow> 'a list \<Rightarrow> 'a list option" where
  "filter_opt P [] = Some []"
| "filter_opt P (x # xs) = (case P x of
     None \<Rightarrow> None | Some b \<Rightarrow> map_option (\<lambda>ys. if b then x # ys else ys) (filter_opt P xs))"

text \<open>\<open>compareValues(a, b)\<close> as at most zero, with the sign of the direction. A comparison with a
  value that has no string form counts as equal.\<close>

definition order_text :: "(rat \<Rightarrow> string) \<Rightarrow> jval \<Rightarrow> string" where
  "order_text fmt v = (if v = JUndef \<or> v = JNull then [] else or_default (js_to_string fmt v) [])"

definition not_after ::
    "(rat \<Rightarrow> string) \<Rightarrow> (string \<Rightarrow> string \<Rightarrow> int) \<Rightarrow> bool \<Rightarrow> jval \<Rightarrow> jval \<Rightarrow> bool" where
  "not_after fmt lc descending a b =
     (case (a, b) of
        (JNum m, JNum n) \<Rightarrow>
          if is_finite_num m \<and> is_finite_num n
          then (if descending then num_rat n \<le> num_rat m else num_rat m \<le> num_rat n) else True
      | _ \<Rightarrow> (if descending then 0 \<le> lc (order_text fmt a) (order_text fmt b)
             else lc (order_text fmt a) (order_text fmt b) \<le> 0))"

text \<open>Assigning to \<open>__proto__\<close> makes no property.\<close>

definition project :: "selection \<Rightarrow> crm_record \<Rightarrow> crm_record" where
  "project sel rec = (case sel of
     All_fields \<Rightarrow> rec
   | Fields fs \<Rightarrow> foldl (\<lambda>out f. if f = ''__proto__'' then out else alist_set f (js_get (JObj rec) f) out) [] fs)"

record query_result =
  qr_totalSize :: nat
  qr_done :: bool
  qr_records :: "crm_record list"

definition executeQuery ::
    "(rat \<Rightarrow> string) \<Rightarrow> (string \<Rightarrow> js_num) \<Rightarrow> (string \<Rightarrow> string \<Rightarrow> int) \<Rightarrow> parsed_query \<Rightarrow> crm_record list \<Rightarrow> nat \<Rightarrow>
       (thrown, query_result) result" where
  "executeQuery fmt date_parse lc q records maxRows =
     (case filter_opt (matches_query fmt date_parse q) records of
        None \<Rightarrow> Inl (Thrown_error ''TypeError'' ''Cannot convert object to primitive value'')
      | Some matched \<Rightarrow>
          (let sorted = (case pq_orderBy q of
                 None \<Rightarrow> matched
               | Some (field, descending) \<Rightarrow>
                   sort_by (\<lambda>a b. not_after fmt lc descending (js_get (JObj a) field) (js_get (JObj b) field)) matched);
               limit = min (or_default (pq_limit q) maxRows) maxRows
           in Inr \<lparr>qr_totalSize = length sorted, qr_done = (length sorted \<le> limit),
                   qr_records = map (project (pq_fields q)) (take limit sorted)\<rparr>))"

section \<open>What the parser produces\<close>

definition scalar :: "jval \<Rightarrow> bool" where
  "scalar v \<longleftrightarrow> v = JNull \<or> (\<exists>b. v = JBool b) \<or> (\<exists>n. v = JNum n) \<or> (\<exists>s. v = JStr s)"

definition typed_comparison :: "comparison \<Rightarrow> bool" where
  "typed_comparison cnd \<longleftrightarrow> valid_field (cm_field cnd) \<and>
     (if cm_operator cnd = Op_in then (\<exists>vs. cm_value cnd = JArr vs \<and> vs \<noteq> [] \<and> list_all scalar vs)
      else scalar (cm_value cnd))"

definition typed_selection :: "selection \<Rightarrow> bool" where
  "typed_selection sel = (case sel of All_fields \<Rightarrow> True | Fields fs \<Rightarrow> fs \<noteq> [] \<and> list_all valid_field fs)"

lemma scalar_literal: "scalar (literal raw)"
  by (auto simp: literal_def scalar_def)

lemma comparison_field:
  assumes "exec COMPARISON_PATTERN input = Some m"
  shows "valid_field (or_default (group_of m ''field'') [])"
proof -
  from exec_Some [OF assms] obtain st' where
    m: "matches COMPARISON_PATTERN (rx_at (rev (rm_before m)) (rm_text m @ rm_after m)) st'" "rm_groups m = rx_groups st'"
    by metis
  let ?ident = "Cat (Cls ident_start) (Star True (Cls word_char))"
  let ?op = "any_rx (word_ci (hd op_words)) (map word_ci (tl op_words) @
        [seq [Bound, word_ci ''LIKE'', Bound], seq [Bound, word_ci ''IN'', Bound]])"
  from m(1) obtain s1 s2 s3 s4 s5 where
    s1: "matches (Named ''field'' ?ident) (rx_at (rev (rm_before m)) (rm_text m @ rm_after m)) s1"
    and s2: "matches spaces0 s1 s2" and s3: "matches (Named ''op'' ?op) s2 s3" and s4: "matches spaces0 s3 s4"
    and s5: "matches (Named ''value'' (plus (Cls not_newline))) s4 s5" and s6: "st' = s5"
    unfolding COMPARISON_PATTERN_def matches_seq matches.simps(8,9) by blast
  let ?start = "rx_at (rev (rm_before m)) (rm_text m @ rm_after m)"
  have ident: "groupless ?ident" by simp
  from matches_Named_capture [OF s1 ident] obtain w t1 where
    w0: "matches ?ident ?start t1" "rx_left ?start = w @ rx_left t1" "rx_groups s1 = alist_set ''field'' w (rx_groups ?start)"
    by blast
  from w0(2,3) have w: "rm_text m @ rm_after m = w @ rx_left t1" "rx_groups s1 = alist_set ''field'' w []"
    by simp_all
  have op: "groupless ?op" by (simp add: list_all_iff)
  from matches_Named_capture [OF s3 op] obtain o' where o': "rx_groups s3 = alist_set ''op'' o' (rx_groups s2)" by metis
  from matches_Named_capture [OF s5] obtain v where v: "rx_groups s5 = alist_set ''value'' v (rx_groups s4)" by auto
  from matches_groupless [OF s2] matches_groupless [OF s4] have "rx_groups s2 = rx_groups s1" "rx_groups s4 = rx_groups s3"
    by simp_all
  then have "group_of m ''field'' = Some w"
    using m(2) s6 v o' w(2) by (simp add: group_of_def)
  moreover have "valid_field w"
  proof -
    from w0(1) obtain c s where c: "rm_text m @ rm_after m = c # s" "ident_start c"
      "matches (Star True (Cls word_char)) (rx_char (rx_at (rev (rm_before m)) (rm_text m @ rm_after m))) t1"
      by (cases "rm_text m @ rm_after m") (auto simp del: matches.simps(5))
    from matches_star_cls [OF c(3)] obtain x b where x: "s = x @ b" "list_all word_char x" "rx_left t1 = b"
      by (metis c(1) list.sel(3) rx_char_def rx_skip_left rx_state.select_convs(2) rx_state.update_convs(1,2))
    with w(1) c have "w = c # x" by simp
    with c(2) x(2) show ?thesis by (auto simp: valid_field_def ident_start_def word_char_def)
  qed
  ultimately show ?thesis by simp
qed

lemma typed_parseComparison: "parseComparison input = Inr cnd \<Longrightarrow> typed_comparison cnd"
  using comparison_field [of input]
  by (auto simp: parseComparison_def Let_def typed_comparison_def scalar_literal list_all_iff split: option.splits)

lemma parseComparison_Inl: "parseComparison input = Inl t \<Longrightarrow> \<exists>msg. t = soql_error msg"
  by (auto simp: parseComparison_def Let_def split: option.splits)

lemma typed_parse_each: "parse_each ps = Inr xs \<Longrightarrow> list_all typed_comparison xs \<and> length xs = length ps"
  by (induction ps arbitrary: xs) (auto simp: bind_result_Inr_iff typed_parseComparison)

lemma parse_each_Inl: "parse_each ps = Inl t \<Longrightarrow> \<exists>msg. t = soql_error msg"
  by (induction ps) (auto simp: bind_result_Inl_iff parseComparison_Inl)

lemma split_rx_nonempty [simp]: "split_rx r prev piece s \<noteq> []"
  by (induction r prev piece s rule: split_rx.induct) (auto split: option.splits)

lemma typed_parse_fields: "parse_fields text = Inr sel \<Longrightarrow> typed_selection sel"
  by (auto simp: parse_fields_def Let_def typed_selection_def find_None_iff list_all_iff split: if_splits option.splits)

lemma parse_fields_Inl: "parse_fields text = Inl t \<Longrightarrow> \<exists>msg. t = soql_error msg"
  by (auto simp: parse_fields_def Let_def split: if_splits option.splits)

lemma typed_parseWhere:
  "parseWhere clause = Inr (cs, comb) \<Longrightarrow> list_all typed_comparison cs \<and> cs \<noteq> []"
  by (auto simp: parseWhere_def Let_def bind_result_Inr_iff dest!: typed_parse_each split: if_splits)

lemma parseWhere_Inl: "parseWhere clause = Inl t \<Longrightarrow> \<exists>msg. t = soql_error msg"
  by (auto simp: parseWhere_def Let_def bind_result_Inl_iff dest!: parse_each_Inl split: if_splits)

text \<open>The objects that can be named: the four, and what every object inherits under a lower-case name.\<close>

definition known_objects :: "jval set" where
  "known_objects = {JStr ''Account'', JStr ''Contact'', JStr ''Opportunity'', JStr ''Task'',
     JHost ObjectProto, JHost (ObjectMethod ''constructor'')}"

lemma resolved_object: "js_get OBJECTS (to_lower s) \<noteq> JUndef \<Longrightarrow> js_get OBJECTS (to_lower s) \<in> known_objects"
proof -
  have low: "to_lower (to_lower s) = to_lower s" by simp
  have "list_all (\<lambda>w. to_lower w = w \<longrightarrow> w = ''constructor'') object_methods" by code_simp
  with low have "to_lower s \<in> set object_methods \<Longrightarrow> to_lower s = ''constructor''" by (simp add: list_all_iff)
  then show "js_get OBJECTS (to_lower s) \<noteq> JUndef \<Longrightarrow> js_get OBJECTS (to_lower s) \<in> known_objects"
    by (auto simp: js_get_def OBJECTS_def object_proto_get_def known_objects_def split: if_splits)
qed

section \<open>What a query returns\<close>

lemma filter_opt_Some: "filter_opt P xs = Some ys \<Longrightarrow> ys = filter (\<lambda>x. P x = Some True) xs"
  by (induction xs arbitrary: ys) (auto split: option.splits)

lemma executeQuery_Inr:
  assumes "executeQuery fmt date_parse lc q records maxRows = Inr r"
  obtains rows where "set rows = {x \<in> set records. matches_query fmt date_parse q x = Some True}"
    "qr_totalSize r = length rows" "qr_done r = (length rows \<le> min (or_default (pq_limit q) maxRows) maxRows)"
    "qr_records r = map (project (pq_fields q)) (take (min (or_default (pq_limit q) maxRows) maxRows) rows)"
proof -
  from assms obtain matched where m: "filter_opt (matches_query fmt date_parse q) records = Some matched"
    by (auto simp: executeQuery_def split: option.splits)
  let ?rows = "case pq_orderBy q of None \<Rightarrow> matched
    | Some (field, descending) \<Rightarrow>
        sort_by (\<lambda>a b. not_after fmt lc descending (js_get (JObj a) field) (js_get (JObj b) field)) matched"
  have "set ?rows = set matched" by (auto split: option.splits)
  with filter_opt_Some [OF m] have "set ?rows = {x \<in> set records. matches_query fmt date_parse q x = Some True}" by simp
  moreover from assms m have "r = \<lparr>qr_totalSize = length ?rows,
      qr_done = (length ?rows \<le> min (or_default (pq_limit q) maxRows) maxRows),
      qr_records = map (project (pq_fields q)) (take (min (or_default (pq_limit q) maxRows) maxRows) ?rows)\<rparr>"
    by (simp add: executeQuery_def Let_def)
  ultimately show thesis using that [of ?rows] by (simp only: query_result.simps simp_thms)
qed

section \<open>Properties\<close>


end
