(* ===== verification/Crm.thy ===== *)
theory Crm
  imports Soql Mcp_Runtime Zod_Values
begin

text \<open>
  The CRM server (\<open>apps/mcp-servers/salesforce/src/dataset.ts\<close>, \<open>tools.ts\<close>): which records a caller may
  see, and the tools over them. Records are JSON objects; amounts are exact rationals. \<open>date_parse\<close>
  is \<open>Date.parse\<close>; the clock and the identifier of a new task are arguments.
\<close>

section \<open>The records\<close>

record crm =
  cr_accounts :: "crm_record list"
  cr_contacts :: "crm_record list"
  cr_opportunities :: "crm_record list"
  cr_tasks :: "crm_record list"

definition dataset_records :: "crm \<Rightarrow> jval \<Rightarrow> crm_record list" where
  "dataset_records d obj =
     (if obj = JStr ''Account'' then cr_accounts d
      else if obj = JStr ''Contact'' then cr_contacts d
      else if obj = JStr ''Opportunity'' then cr_opportunities d
      else if obj = JStr ''Task'' then cr_tasks d
      else [])"

section \<open>Visibility\<close>

datatype visibility = Vis_own | Vis_territory | Vis_tenant

definition visibilityFor :: "dprincipal \<Rightarrow> visibility" where
  "visibilityFor p =
     (if ''salesforce:read.all'' \<in> set (dp_scopes p) then Vis_tenant
      else if ''salesforce:read.team'' \<in> set (dp_scopes p) then Vis_territory
      else Vis_own)"

definition isVisible :: "dprincipal \<Rightarrow> crm_record \<Rightarrow> bool" where
  "isVisible p rec \<longleftrightarrow> own_prop rec ''TenantId'' = JStr (dp_tenantId p) \<and>
     (case visibilityFor p of
        Vis_tenant \<Rightarrow> True
      | Vis_territory \<Rightarrow> (case dp_territory p of None \<Rightarrow> False | Some t \<Rightarrow> own_prop rec ''Territory'' = JStr t)
      | Vis_own \<Rightarrow> own_prop rec ''OwnerId'' = JStr (dp_subject p))"

definition visibleRecords :: "crm \<Rightarrow> jval \<Rightarrow> dprincipal \<Rightarrow> crm_record list" where
  "visibleRecords d obj p = filter (isVisible p) (dataset_records d obj)"

definition describeVisibility :: "dprincipal \<Rightarrow> string" where
  "describeVisibility p = (case visibilityFor p of
     Vis_tenant \<Rightarrow> ''All records in the tenant (salesforce:read.all)''
   | Vis_territory \<Rightarrow> concat [''Records in the '', or_default (dp_territory p) ''unknown'', '' territory (salesforce:read.team)'']
   | Vis_own \<Rightarrow> ''Records owned by the caller (salesforce:read)'')"

definition visibility_str :: "visibility \<Rightarrow> string" where
  "visibility_str v = (case v of Vis_own \<Rightarrow> ''own'' | Vis_territory \<Rightarrow> ''territory'' | Vis_tenant \<Rightarrow> ''tenant'')"

section \<open>Queries and contacts\<close>

definition MAX_ROWS :: nat where
  "MAX_ROWS = 200"

record crm_env =
  ce_fmt :: "rat \<Rightarrow> string"
  ce_date_parse :: "string \<Rightarrow> js_num"
  ce_lc :: "string \<Rightarrow> string \<Rightarrow> int"
  ce_now :: string
  ce_taskId :: string

definition not_found :: "string \<Rightarrow> thrown" where
  "not_found what = Thrown_gateway (NotFoundError what)"

definition crm_query :: "crm_env \<Rightarrow> crm \<Rightarrow> dprincipal \<Rightarrow> string \<Rightarrow> (thrown, jval) result" where
  "crm_query env d p soql =
     bind_result (parseSoql soql) (\<lambda>parsed.
       (let permitted = visibleRecords d (pq_object parsed) p
        in bind_result (executeQuery (ce_fmt env) (ce_date_parse env) (ce_lc env) parsed permitted MAX_ROWS) (\<lambda>r. Inr (JObj
          [(''totalSize'', jint (int (qr_totalSize r))), (''done'', JBool (qr_done r)),
           (''records'', JArr (map JObj (qr_records r))), (''object'', pq_object parsed),
           (''visibility'', JStr (describeVisibility p)), (''recordsInScope'', jint (int (length permitted)))]))))"

definition find_id :: "string \<Rightarrow> crm_record list \<Rightarrow> crm_record option" where
  "find_id i rs = List.find (\<lambda>r. own_prop r ''Id'' = JStr i) rs"

definition crm_get_contact :: "crm \<Rightarrow> dprincipal \<Rightarrow> string \<Rightarrow> (thrown, jval) result" where
  "crm_get_contact d p contactId = (case find_id contactId (cr_contacts d) of
     None \<Rightarrow> Inl (not_found (''Contact '' @ contactId))
   | Some contact \<Rightarrow>
       if \<not> isVisible p contact then Inl (not_found (''Contact '' @ contactId))
       else (let account = List.find (\<lambda>r. strict_eq False (own_prop r ''Id'') (own_prop contact ''AccountId'')) (cr_accounts d)
             in Inr (JObj
               [(''contact'', JObj contact),
                (''account'', case account of None \<Rightarrow> JNull | Some a \<Rightarrow> if isVisible p a then JObj a else JNull),
                (''visibility'', JStr (describeVisibility p))])))"

section \<open>Opportunities\<close>

record opportunity_filter =
  of_stage :: "string option"
  of_minAmount :: "rat option"
  of_closingBefore :: "string option"
  of_openOnly :: bool
  of_limit :: nat

definition text_of :: "crm_record \<Rightarrow> string \<Rightarrow> string" where
  "text_of r k = or_default (as_string (own_prop r k)) []"

definition amount_of :: "crm_record \<Rightarrow> string \<Rightarrow> rat" where
  "amount_of r k = (case own_prop r k of JNum n \<Rightarrow> num_rat n | _ \<Rightarrow> 0)"

text \<open>\<open>a >= b\<close> on times, false when either is not a number.\<close>

definition not_earlier :: "js_num \<Rightarrow> js_num \<Rightarrow> bool" where
  "not_earlier a b \<longleftrightarrow> is_finite_num a \<and> is_finite_num b \<and> num_rat b \<le> num_rat a"

definition keeps_opportunity :: "crm_env \<Rightarrow> opportunity_filter \<Rightarrow> crm_record \<Rightarrow> bool" where
  "keeps_opportunity env f r \<longleftrightarrow>
     \<not> (case of_stage f of None \<Rightarrow> False | Some s \<Rightarrow> s \<noteq> [] \<and> to_lower (text_of r ''StageName'') \<noteq> to_lower s) \<and>
     \<not> (case of_minAmount f of None \<Rightarrow> False | Some n \<Rightarrow> amount_of r ''Amount'' < n) \<and>
     \<not> (of_openOnly f \<and> starts_with (text_of r ''StageName'') ''Closed'') \<and>
     \<not> (case of_closingBefore f of None \<Rightarrow> False
        | Some s \<Rightarrow> s \<noteq> [] \<and> not_earlier (ce_date_parse env (text_of r ''CloseDate'')) (ce_date_parse env s))"

text \<open>\<open>Math.round\<close>.\<close>

definition js_round :: "rat \<Rightarrow> int" where
  "js_round q = \<lfloor>q + 1 / 2\<rfloor>"

definition stage_entry :: "(string \<times> nat \<times> rat) list \<Rightarrow> crm_record \<Rightarrow> (string \<times> nat \<times> rat) list" where
  "stage_entry m r =
     (let (n, v) = or_default (map_of m (text_of r ''StageName'')) (0, 0)
      in alist_set (text_of r ''StageName'') (n + 1, v + amount_of r ''Amount'') m)"

definition crm_list_opportunities :: "crm_env \<Rightarrow> crm \<Rightarrow> dprincipal \<Rightarrow> opportunity_filter \<Rightarrow> jval" where
  "crm_list_opportunities env d p f =
     (let filtered = filter (keeps_opportunity env f) (visibleRecords d (JStr ''Opportunity'') p);
          sorted = sort_by (\<lambda>a b. amount_of b ''Amount'' \<le> amount_of a ''Amount'') filtered;
          totalValue = sum_list (map (\<lambda>r. amount_of r ''Amount'') filtered);
          weightedValue = sum_list (map (\<lambda>r. amount_of r ''Amount'' * amount_of r ''Probability'' / 100) filtered)
      in JObj
        [(''totalSize'', jint (int (length filtered))), (''totalValue'', jint (js_round totalValue)),
         (''weightedValue'', jint (js_round weightedValue)),
         (''byStage'', JObj (map (\<lambda>(s, n, v). (s, JObj [(''count'', jint (int n)), (''value'', JNum (JFin v))]))
            (foldl stage_entry [] filtered))),
         (''visibility'', JStr (describeVisibility p)), (''visibilityLevel'', JStr (visibility_str (visibilityFor p))),
         (''records'', JArr (map JObj (take (of_limit f) sorted)))])"

section \<open>Tasks\<close>

record task_input =
  ti_subject :: string
  ti_relatedTo :: "string option"
  ti_contactId :: "string option"
  ti_dueDate :: string
  ti_priority :: string

definition find_reference :: "crm \<Rightarrow> string \<Rightarrow> crm_record option" where
  "find_reference d i = (case find_id i (cr_accounts d) of Some r \<Rightarrow> Some r
     | None \<Rightarrow> (case find_id i (cr_opportunities d) of Some r \<Rightarrow> Some r | None \<Rightarrow> find_id i (cr_contacts d)))"

definition check_reference :: "crm \<Rightarrow> dprincipal \<Rightarrow> string \<Rightarrow> string option \<Rightarrow> (thrown, unit) result" where
  "check_reference d p label i = (case i of
     None \<Rightarrow> Inr ()
   | Some k \<Rightarrow> if k = [] then Inr () else
       (case find_reference d k of
          Some r \<Rightarrow> if isVisible p r then Inr () else Inl (not_found (concat [''Record '', k, '' referenced by '', label]))
        | None \<Rightarrow> Inl (not_found (concat [''Record '', k, '' referenced by '', label]))))"

definition optional_str :: "string option \<Rightarrow> jval" where
  "optional_str v = (case v of None \<Rightarrow> JNull | Some s \<Rightarrow> JStr s)"

definition new_task :: "crm_env \<Rightarrow> dprincipal \<Rightarrow> task_input \<Rightarrow> crm_record" where
  "new_task env p i =
     [(''Id'', JStr (''00T'' @ ce_taskId env)), (''TenantId'', JStr (dp_tenantId p)), (''Subject'', JStr (ti_subject i)),
      (''WhatId'', optional_str (ti_relatedTo i)), (''WhoId'', optional_str (ti_contactId i)),
      (''ActivityDate'', JStr (ti_dueDate i)), (''Status'', JStr ''Not Started''), (''Priority'', JStr (ti_priority i)),
      (''OwnerId'', JStr (dp_subject p)), (''CreatedDate'', JStr (ce_now env))]"

definition crm_create_task :: "crm_env \<Rightarrow> dprincipal \<Rightarrow> task_input \<Rightarrow> crm \<Rightarrow> (thrown, jval) result \<times> crm" where
  "crm_create_task env p i d =
     (case bind_result (check_reference d p ''relatedTo'' (ti_relatedTo i))
             (\<lambda>_. check_reference d p ''contactId'' (ti_contactId i)) of
        Inl t \<Rightarrow> (Inl t, d)
      | Inr _ \<Rightarrow> (Inr (JObj [(''created'', JBool True), (''task'', JObj (new_task env p i))]),
          d\<lparr>cr_tasks := cr_tasks d @ [new_task env p i]\<rparr>))"

section \<open>The tools\<close>

text \<open>\<open>/^\d{4}-\d{2}-\d{2}$/\<close>.\<close>

definition due_date :: "jval \<Rightarrow> string option" where
  "due_date v = (case v of
     JStr s \<Rightarrow> if length s = 10 \<and> s ! 4 = CHR ''-'' \<and> s ! 7 = CHR ''-'' \<and>
       list_all is_digit (take 4 s @ take 2 (drop 5 s) @ drop 8 s) then Some s else None
   | _ \<Rightarrow> None)"

definition zod_min_number :: "rat \<Rightarrow> jval \<Rightarrow> rat option" where
  "zod_min_number lo v = (case v of JNum n \<Rightarrow> if is_finite_num n \<and> lo \<le> num_rat n then Some (num_rat n) else None | _ \<Rightarrow> None)"

datatype crm_args =
    Query_args string
  | Contact_args string
  | Opportunity_args opportunity_filter
  | Task_args task_input

definition parse_query_args :: "jval \<Rightarrow> crm_args option" where
  "parse_query_args = zod_object (\<lambda>field. map_option Query_args (zod_string 1 None (field ''soql'')))"

definition parse_contact_args :: "jval \<Rightarrow> crm_args option" where
  "parse_contact_args = zod_object (\<lambda>field. map_option Contact_args (zod_string 3 None (field ''contactId'')))"

definition parse_opportunity_args :: "jval \<Rightarrow> crm_args option" where
  "parse_opportunity_args = zod_object (\<lambda>field.
     case (zod_optional (zod_string 0 None) (field ''stage''), zod_optional (zod_min_number 0) (field ''minAmount''),
           zod_optional (zod_string 0 None) (field ''closingBefore''), zod_default False zod_bool (field ''openOnly''),
           zod_default 50 (zod_int 1 (Some (int MAX_ROWS))) (field ''limit'')) of
       (Some stage, Some minAmount, Some closingBefore, Some openOnly, Some limit) \<Rightarrow> Some (Opportunity_args
         \<lparr>of_stage = stage, of_minAmount = minAmount, of_closingBefore = closingBefore, of_openOnly = openOnly,
          of_limit = nat limit\<rparr>)
     | _ \<Rightarrow> None)"

definition parse_task_args :: "jval \<Rightarrow> crm_args option" where
  "parse_task_args = zod_object (\<lambda>field.
     case (zod_string 1 (Some 255) (field ''subject''), zod_optional (zod_string 0 None) (field ''relatedTo''),
           zod_optional (zod_string 0 None) (field ''contactId''), due_date (field ''dueDate''),
           zod_default ''Normal'' (zod_enum [''Low'', ''Normal'', ''High'']) (field ''priority'')) of
       (Some subject, Some relatedTo, Some contactId, Some dueDate, Some priority) \<Rightarrow> Some (Task_args
         \<lparr>ti_subject = subject, ti_relatedTo = relatedTo, ti_contactId = contactId, ti_dueDate = dueDate,
          ti_priority = priority\<rparr>)
     | _ \<Rightarrow> None)"

text \<open>A handler applied to arguments its schema has parsed.\<close>

definition crm_handler :: "crm_env \<Rightarrow> dprincipal \<Rightarrow> crm_args \<Rightarrow> crm \<Rightarrow> (thrown, jval) result \<times> crm" where
  "crm_handler env p args d = (case args of
     Query_args soql \<Rightarrow> (crm_query env d p soql, d)
   | Contact_args i \<Rightarrow> (crm_get_contact d p i, d)
   | Opportunity_args f \<Rightarrow> (Inr (crm_list_opportunities env d p f), d)
   | Task_args i \<Rightarrow> crm_create_task env p i d)"

definition crm_tool ::
    "crm_env \<Rightarrow> string \<Rightarrow> string \<Rightarrow> string \<Rightarrow> bool \<Rightarrow> (jval \<Rightarrow> crm_args option) \<Rightarrow> crm tool_definition" where
  "crm_tool env name description scope readOnly parse =
     \<lparr>td_name = name, td_description = description,
      td_inputSchema = (\<lambda>v. if parse v = None then None else Some v),
      td_requiredScopes = [scope], td_readOnly = Some readOnly,
      td_handler = (\<lambda>v p d. case parse v of None \<Rightarrow> (Inl Thrown_other, d) | Some args \<Rightarrow> crm_handler env p args d)\<rparr>"

definition createCrmTools :: "crm_env \<Rightarrow> crm tool_definition list" where
  "createCrmTools env =
     [crm_tool env ''sf.query''
        ''Runs a SOQL query against Account, Contact, Opportunity or Task. Results are restricted to the records the caller is entitled to see, which is determined by the scopes on their token rather than by the query.''
        ''salesforce:read'' True parse_query_args,
      crm_tool env ''sf.get_contact'' ''Returns a single contact by id, together with the account it belongs to.''
        ''salesforce:read'' True parse_contact_args,
      crm_tool env ''sf.list_opportunities''
        ''Returns opportunities visible to the caller with pipeline totals, optionally filtered by stage, minimum amount or close date window.''
        ''salesforce:read'' True parse_opportunity_args,
      crm_tool env ''sf.create_task''
        ''Creates a follow-up task owned by the caller, optionally linked to an account or opportunity they can see.''
        ''salesforce:write'' False parse_task_args]"

section \<open>What a caller can tell apart\<close>

definition record_id :: "crm_record \<Rightarrow> jval" where
  "record_id r = own_prop r ''Id''"

text \<open>Identifiers are strings and name one record.\<close>

definition unique_ids :: "crm \<Rightarrow> bool" where
  "unique_ids d \<longleftrightarrow> (let rs = cr_accounts d @ cr_opportunities d @ cr_contacts d
     in distinct (map record_id rs) \<and> list_all (\<lambda>r. as_string (record_id r) \<noteq> None) rs)"

text \<open>Two data sets with the same visible records.\<close>

definition agree :: "dprincipal \<Rightarrow> crm \<Rightarrow> crm \<Rightarrow> bool" where
  "agree p d d' \<longleftrightarrow>
     filter (isVisible p) (cr_accounts d) = filter (isVisible p) (cr_accounts d') \<and>
     filter (isVisible p) (cr_contacts d) = filter (isVisible p) (cr_contacts d') \<and>
     filter (isVisible p) (cr_opportunities d) = filter (isVisible p) (cr_opportunities d') \<and>
     filter (isVisible p) (cr_tasks d) = filter (isVisible p) (cr_tasks d')"

definition if_visible :: "dprincipal \<Rightarrow> crm_record option \<Rightarrow> crm_record option" where
  "if_visible p r = (case r of None \<Rightarrow> None | Some x \<Rightarrow> if isVisible p x then Some x else None)"

lemma find_visible:
  "distinct (map record_id rs) \<Longrightarrow>
     if_visible p (List.find (\<lambda>r. record_id r = v) rs) = List.find (\<lambda>r. record_id r = v) (filter (isVisible p) rs)"
proof (induction rs)
  case (Cons r rs)
  have none: "List.find (\<lambda>x. record_id x = v) (filter (isVisible p) rs) = None" if "record_id r = v"
    unfolding find_None_iff using Cons.prems that by (force simp: image_iff)
  with Cons show ?case by (auto simp: if_visible_def)
qed (simp add: if_visible_def)

lemma unique_ids_parts:
  assumes "unique_ids d"
  shows "distinct (map record_id (cr_accounts d))" "distinct (map record_id (cr_contacts d))"
    "distinct (map record_id (cr_accounts d @ cr_opportunities d @ cr_contacts d))"
    "list_all (\<lambda>r. as_string (record_id r) \<noteq> None) (cr_accounts d)"
  using assms by (simp_all add: unique_ids_def Let_def)

lemma find_append: "List.find P (xs @ ys) = (case List.find P xs of Some x \<Rightarrow> Some x | None \<Rightarrow> List.find P ys)"
  by (induction xs) auto

lemma find_reference_union:
  "find_reference d i = List.find (\<lambda>r. record_id r = JStr i) (cr_accounts d @ cr_opportunities d @ cr_contacts d)"
  by (simp add: find_reference_def find_id_def find_append record_id_def split: option.splits)

lemma check_reference_visible:
  "check_reference d p label i = (case i of None \<Rightarrow> Inr () | Some k \<Rightarrow> if k = [] \<or> if_visible p (find_reference d k) \<noteq> None
     then Inr () else Inl (not_found (concat [''Record '', k, '' referenced by '', label])))"
  by (auto simp: check_reference_def if_visible_def split: option.splits)

lemma get_contact_visible:
  "crm_get_contact d p i = (case if_visible p (find_id i (cr_contacts d)) of
     None \<Rightarrow> Inl (not_found (''Contact '' @ i))
   | Some contact \<Rightarrow> Inr (JObj
       [(''contact'', JObj contact),
        (''account'', case if_visible p (List.find (\<lambda>r. strict_eq False (own_prop r ''Id'') (own_prop contact ''AccountId'')) (cr_accounts d))
           of None \<Rightarrow> JNull | Some a \<Rightarrow> JObj a),
        (''visibility'', JStr (describeVisibility p))]))"
  by (auto simp: crm_get_contact_def if_visible_def Let_def split: option.splits)

text \<open>On identifiers that are strings, \<open>===\<close> is equality.\<close>

lemma find_strict_eq:
  assumes "list_all (\<lambda>r. as_string (record_id r) \<noteq> None) rs"
  shows "List.find (\<lambda>r. strict_eq False (own_prop r ''Id'') v) rs = List.find (\<lambda>r. record_id r = v) rs"
proof (rule find_cong [OF refl])
  fix r assume "r \<in> set rs"
  with assms obtain s where "record_id r = JStr s" by (auto simp: list_all_iff as_string_Some)
  then show "strict_eq False (own_prop r ''Id'') v = (record_id r = v)" by (auto simp: record_id_def)
qed

lemma agree_contacts:
  assumes "unique_ids d" and "unique_ids d'" and "agree p d d'"
  shows "crm_get_contact d p i = crm_get_contact d' p i"
proof -
  have c: "if_visible p (find_id i (cr_contacts d)) = if_visible p (find_id i (cr_contacts d'))"
    using unique_ids_parts(2) [OF assms(1)] unique_ids_parts(2) [OF assms(2)] assms(3)
    by (simp add: find_id_def find_visible agree_def flip: record_id_def)
  have a: "if_visible p (List.find (\<lambda>r. strict_eq False (own_prop r ''Id'') v) (cr_accounts d)) =
      if_visible p (List.find (\<lambda>r. strict_eq False (own_prop r ''Id'') v) (cr_accounts d'))" for v
    using unique_ids_parts(1,4) [OF assms(1)] unique_ids_parts(1,4) [OF assms(2)] assms(3)
    by (simp add: find_strict_eq find_visible agree_def)
  show ?thesis unfolding get_contact_visible c a ..
qed

lemma agree_records: "agree p d d' \<Longrightarrow> visibleRecords d obj p = visibleRecords d' obj p"
  by (simp add: agree_def visibleRecords_def dataset_records_def)

lemma agree_reference:
  assumes "unique_ids d" and "unique_ids d'" and "agree p d d'"
  shows "check_reference d p label i = check_reference d' p label i"
proof -
  have "if_visible p (find_reference d k) = if_visible p (find_reference d' k)" for k
    unfolding find_reference_union find_visible [OF unique_ids_parts(3) [OF assms(1)]]
      find_visible [OF unique_ids_parts(3) [OF assms(2)]]
    using assms(3) by (simp add: agree_def)
  then show ?thesis by (simp only: check_reference_visible)
qed

lemma agree_create:
  assumes "unique_ids d" and "unique_ids d'" and "agree p d d'"
  shows "fst (crm_create_task env p i d) = fst (crm_create_task env p i d') \<and>
    agree p (snd (crm_create_task env p i d)) (snd (crm_create_task env p i d'))"
proof -
  have "check_reference d p l k = check_reference d' p l k" for l k by (rule agree_reference [OF assms])
  then have "crm_create_task env p i d =
      (case bind_result (check_reference d' p ''relatedTo'' (ti_relatedTo i)) (\<lambda>_. check_reference d' p ''contactId'' (ti_contactId i)) of
        Inl t \<Rightarrow> (Inl t, d)
      | Inr _ \<Rightarrow> (Inr (JObj [(''created'', JBool True), (''task'', JObj (new_task env p i))]),
          d\<lparr>cr_tasks := cr_tasks d @ [new_task env p i]\<rparr>))"
    by (simp add: crm_create_task_def)
  then show ?thesis
    using assms(3) by (simp add: crm_create_task_def [of env p i d'] agree_def split: sum.splits)
qed

lemma agree_handler:
  assumes "unique_ids d" and "unique_ids d'" and "agree p d d'"
  shows "fst (crm_handler env p args d) = fst (crm_handler env p args d') \<and>
    agree p (snd (crm_handler env p args d)) (snd (crm_handler env p args d'))"
proof (cases args)
  case (Query_args soql)
  then show ?thesis using assms(3) agree_records [OF assms(3)] by (simp add: crm_handler_def crm_query_def)
next
  case (Contact_args i)
  then show ?thesis using assms(3) agree_contacts [OF assms] by (simp add: crm_handler_def)
next
  case (Opportunity_args f)
  then show ?thesis
    using assms(3) agree_records [OF assms(3)] by (simp add: crm_handler_def crm_list_opportunities_def)
next
  case (Task_args i)
  then show ?thesis using agree_create [OF assms] by (simp add: crm_handler_def)
qed

section \<open>Properties\<close>

text \<open>C10: a caller learns nothing of records they cannot see. Over two data sets whose identifiers are
  unique and which hold the same records visible to the caller, every tool gives every argument the
  same answer, errors included, and leaves data sets that again agree for the caller: a hidden contact
  reads as a missing one, and linking a task to a hidden record fails as for a missing one.\<close>

theorem crm_noninterference:
  assumes "unique_ids d" and "unique_ids d'" and "agree p d d'" and "tool \<in> set (createCrmTools env)"
  shows "fst (td_handler tool args p d) = fst (td_handler tool args p d') \<and>
    agree p (snd (td_handler tool args p d)) (snd (td_handler tool args p d'))"
proof -
  from assms(4) obtain nm ds sc ro parse where "tool = crm_tool env nm ds sc ro parse"
    by (auto simp: createCrmTools_def)
  then show ?thesis
    using agree_handler [OF assms(1-3)] assms(3) by (simp add: crm_tool_def split: option.splits)
qed

definition demo_contact :: "string \<Rightarrow> string \<Rightarrow> crm_record" where
  "demo_contact i owner = [(''Id'', JStr i), (''TenantId'', JStr ''acme''), (''OwnerId'', JStr owner),
     (''Territory'', JStr ''west'')]"

definition demo_seller :: "string list \<Rightarrow> dprincipal" where
  "demo_seller scopes = \<lparr>dp_subject = ''alice'', dp_tenantId = ''acme'', dp_role = Analyst, dp_scopes = scopes,
     dp_tokenId = ''j'', dp_email = None, dp_name = None, dp_territory = Some ''east'', dp_actor = None\<rparr>"

definition demo_crm :: "crm_record list \<Rightarrow> crm" where
  "demo_crm contacts = \<lparr>cr_accounts = [], cr_contacts = contacts, cr_opportunities = [], cr_tasks = []\<rparr>"

definition demo_env :: crm_env where
  "demo_env = \<lparr>ce_fmt = (\<lambda>q. []), ce_date_parse = (\<lambda>s. JNaN), ce_lc = (\<lambda>a b. 0), ce_now = [], ce_taskId = ''1''\<rparr>"

theorem crm_noninterference_witness:
  "fst (td_handler (createCrmTools demo_env ! 1) (JObj [(''contactId'', JStr ''003B'')]) (demo_seller [''salesforce:read''])
       (demo_crm [demo_contact ''003A'' ''alice'', demo_contact ''003B'' ''bob'']))
   = fst (td_handler (createCrmTools demo_env ! 1) (JObj [(''contactId'', JStr ''003B'')]) (demo_seller [''salesforce:read''])
       (demo_crm [demo_contact ''003A'' ''alice'']))"
proof -
  let ?d = "demo_crm [demo_contact ''003A'' ''alice'', demo_contact ''003B'' ''bob'']" and ?d' = "demo_crm [demo_contact ''003A'' ''alice'']"
  have "unique_ids ?d" "unique_ids ?d'" "agree (demo_seller [''salesforce:read'']) ?d ?d'" by code_simp+
  moreover have "createCrmTools demo_env ! 1 \<in> set (createCrmTools demo_env)" by (simp add: createCrmTools_def)
  ultimately show ?thesis using crm_noninterference by blast
qed

text \<open>The rows of a query. A query that is answered was parsed, and its rows are the selected
  fields of at most two hundred, and of at most its own limit, records of the object that the caller
  may see and that satisfy its conditions; the total counts all of those.\<close>

theorem query_rows_visible:
  "case crm_query env d p soql of
     Inl t \<Rightarrow> parseSoql soql = Inl t \<or> t = Thrown_error ''TypeError'' ''Cannot convert object to primitive value''
   | Inr answer \<Rightarrow> (\<exists>q rows. parseSoql soql = Inr q \<and>
       set rows = {r \<in> set (dataset_records d (pq_object q)). isVisible p r \<and>
         matches_query (ce_fmt env) (ce_date_parse env) q r = Some True} \<and>
       js_get answer ''totalSize'' = jint (int (length rows)) \<and>
       js_get answer ''records'' = JArr (map (JObj \<circ> project (pq_fields q)) (take (min (or_default (pq_limit q) 200) 200) rows)))"
proof (cases "crm_query env d p soql")
  case (Inl t)
  then show ?thesis
    by (auto simp: crm_query_def Let_def bind_result_Inl_iff executeQuery_def split: option.splits)
next
  case (Inr answer)
  then obtain q r where q: "parseSoql soql = Inr q"
    and r: "executeQuery (ce_fmt env) (ce_date_parse env) (ce_lc env) q (visibleRecords d (pq_object q) p) MAX_ROWS = Inr r"
    and a: "answer = JObj [(''totalSize'', jint (int (qr_totalSize r))), (''done'', JBool (qr_done r)),
           (''records'', JArr (map JObj (qr_records r))), (''object'', pq_object q),
           (''visibility'', JStr (describeVisibility p)), (''recordsInScope'', jint (int (length (visibleRecords d (pq_object q) p))))]"
    by (auto simp: crm_query_def Let_def bind_result_Inr_iff)
  from executeQuery_Inr [OF r] obtain rows where rows:
    "set rows = {x \<in> set (visibleRecords d (pq_object q) p). matches_query (ce_fmt env) (ce_date_parse env) q x = Some True}"
    "qr_totalSize r = length rows"
    "qr_records r = map (project (pq_fields q)) (take (min (or_default (pq_limit q) MAX_ROWS) MAX_ROWS) rows)" .
  have "js_get answer ''totalSize'' = jint (int (length rows))"
    "js_get answer ''records'' = JArr (map (JObj \<circ> project (pq_fields q)) (take (min (or_default (pq_limit q) 200) 200) rows))"
    using rows(2,3) by (simp_all add: a js_get_def MAX_ROWS_def)
  moreover have "set rows = {r \<in> set (dataset_records d (pq_object q)). isVisible p r \<and>
         matches_query (ce_fmt env) (ce_date_parse env) q r = Some True}"
    using rows(1) by (auto simp: visibleRecords_def)
  ultimately show ?thesis using Inr q by auto
qed

text \<open>The levels of visibility. A caller with \<open>salesforce:read.all\<close> sees exactly the records of
  their tenant, nobody sees another tenant's, and the levels are not nested: gaining
  \<open>salesforce:read.team\<close> hides from a caller a record they own in another territory, and a caller
  without a territory then sees nothing at all.\<close>

theorem visibility_levels:
  "isVisible p r = (own_prop r ''TenantId'' = JStr (dp_tenantId p) \<and> isVisible p r) \<and>
   isVisible (p\<lparr>dp_scopes := ''salesforce:read.all'' # scopes\<rparr>) r = (own_prop r ''TenantId'' = JStr (dp_tenantId p)) \<and>
   isVisible (demo_seller [''salesforce:read'']) (demo_contact i ''alice'') \<and>
   \<not> isVisible (demo_seller [''salesforce:read'', ''salesforce:read.team'']) (demo_contact i ''alice'') \<and>
   \<not> isVisible ((demo_seller [''salesforce:read'', ''salesforce:read.team''])\<lparr>dp_territory := None\<rparr>) r"
  by (auto simp: isVisible_def visibilityFor_def demo_seller_def demo_contact_def own_prop_def)

end
