(* ===== verification/Migrations.thy ===== *)
theory Migrations
  imports Audit_Log
begin

text \<open>
  The migration runner (\<open>scripts/migrate.ts\<close>): the checked-in SQL files are applied in lexical order,
  each with its ledger entry in one transaction.

  What a migration's text does to the schema is Postgres's, the parameter \<open>run_sql\<close> (\<open>None\<close> when a
  statement fails); a text is taken not to end the transaction it runs in nor to write the ledger,
  as none of \<open>infra/migrations\<close> does. The answers of the database to the runner's own statements and
  of the file system to its reads are arguments, so any of them may fail. Several runners may be at
  work on one database at once: a transaction is one step, and the primary key of the ledger
  refuses the second entry of a name.
\<close>

section \<open>The ledger and one transaction\<close>

record 'o mig_db =
  mg_objects :: 'o
  mg_ledger :: "(string \<times> string) list option"

definition ledger_rows :: "'o mig_db \<Rightarrow> (string \<times> string) list" where
  "ledger_rows db = or_default (mg_ledger db) []"

text \<open>\<open>CREATE TABLE IF NOT EXISTS schema_migrations\<close>.\<close>

definition create_ledger :: "'o mig_db \<Rightarrow> 'o mig_db" where
  "create_ledger db = db\<lparr>mg_ledger := Some (ledger_rows db)\<rparr>"

datatype mig_error =
    Changed_since_applied string
  | File_unreadable string
  | Statement_failed

definition changed_message :: "string \<Rightarrow> string \<Rightarrow> string" where
  "changed_message file target =
     ''Migration '' @ file @ '' has changed since it was applied to '' @ target @ ''. '' @
     ''Add a new migration instead of editing a released one.''"

text \<open>How the statements around a migration fare. The answer to a \<open>COMMIT\<close> may be lost after the
  database has carried it out.\<close>

datatype commit_fate = Committed | Commit_refused | Commit_unanswered

record file_fate =
  ff_begin :: bool
  ff_sql :: bool
  ff_insert :: bool
  ff_commit :: commit_fate

definition record_migration ::
    "(string \<Rightarrow> 'o \<Rightarrow> 'o option) \<Rightarrow> file_fate \<Rightarrow> string \<Rightarrow> string \<Rightarrow> string \<Rightarrow> 'o mig_db \<Rightarrow>
       'o mig_db \<times> (mig_error, unit) result" where
  "record_migration run_sql fate file checksum sql db =
     (if \<not> ff_begin fate then (db, Inl Statement_failed)
      else case (if ff_sql fate then run_sql sql (mg_objects db) else None) of
        None \<Rightarrow> (db, Inl Statement_failed)
      | Some objects \<Rightarrow>
          if \<not> ff_insert fate \<or> mg_ledger db = None \<or> file \<in> set (map fst (ledger_rows db))
          then (db, Inl Statement_failed)
          else
            (let done_db = db\<lparr>mg_objects := objects,
               mg_ledger := Some (ledger_rows db @ [(file, char64 checksum)])\<rparr>
             in case ff_commit fate of
                  Committed \<Rightarrow> (done_db, Inr ())
                | Commit_refused \<Rightarrow> (db, Inl Statement_failed)
                | Commit_unanswered \<Rightarrow> (done_db, Inl Statement_failed)))"

section \<open>The runner\<close>

text \<open>A directory as it is listed, names with whether they are files, and as its files are read.\<close>

record mig_dir =
  dir_entries :: "(string \<times> bool) list option"
  dir_read :: "string \<Rightarrow> string option"

definition listMigrations :: "mig_dir \<Rightarrow> string list" where
  "listMigrations dir = sort (map fst (filter (\<lambda>(name, file). file \<and> ends_with name ''.sql'')
     (or_default (dir_entries dir) [])))"

definition ledger_map :: "(string \<times> string) list \<Rightarrow> (string \<Rightarrow> string option)" where
  "ledger_map rows = fold (\<lambda>(name, checksum) m. map_set m name (trim checksum)) rows (\<lambda>_. None)"

text \<open>The body of the loop.\<close>

definition migrate_file ::
    "(string \<Rightarrow> string) \<Rightarrow> (string \<Rightarrow> 'o \<Rightarrow> 'o option) \<Rightarrow> string \<Rightarrow> mig_dir \<Rightarrow> file_fate \<Rightarrow>
       (string \<Rightarrow> string option) \<Rightarrow> string \<Rightarrow> 'o mig_db \<Rightarrow> 'o mig_db \<times> (mig_error, unit) result" where
  "migrate_file sha run_sql target dir fate seen file db =
     (case dir_read dir file of
        None \<Rightarrow> (db, Inl (File_unreadable file))
      | Some sql \<Rightarrow>
          (let checksum = sha256Hex sha sql in
           case seen file of
             Some previous \<Rightarrow>
               (db, if previous \<noteq> checksum
                    then Inl (Changed_since_applied (changed_message file target)) else Inr ())
           | None \<Rightarrow> record_migration run_sql fate file checksum sql db))"

fun migrate_files ::
    "(string \<Rightarrow> string) \<Rightarrow> (string \<Rightarrow> 'o \<Rightarrow> 'o option) \<Rightarrow> string \<Rightarrow> mig_dir \<Rightarrow> (string \<Rightarrow> file_fate) \<Rightarrow>
       (string \<Rightarrow> string option) \<Rightarrow> string list \<Rightarrow> 'o mig_db \<Rightarrow> 'o mig_db \<times> (mig_error, unit) result" where
  "migrate_files sha run_sql target dir fates seen [] db = (db, Inr ())"
| "migrate_files sha run_sql target dir fates seen (file # files) db =
     (case migrate_file sha run_sql target dir (fates file) seen file db of
        (db', Inl e) \<Rightarrow> (db', Inl e)
      | (db', Inr _) \<Rightarrow> migrate_files sha run_sql target dir fates seen files db')"

record run_fate =
  rf_connect :: bool
  rf_create :: bool
  rf_select :: bool
  rf_file :: "string \<Rightarrow> file_fate"

definition applyTo ::
    "(string \<Rightarrow> string) \<Rightarrow> (string \<Rightarrow> 'o \<Rightarrow> 'o option) \<Rightarrow> string \<Rightarrow> mig_dir \<Rightarrow> run_fate \<Rightarrow>
       'o mig_db \<Rightarrow> 'o mig_db \<times> (mig_error, unit) result" where
  "applyTo sha run_sql target dir fate db =
     (let files = listMigrations dir in
      if files = [] then (db, Inr ())
      else if \<not> rf_connect fate \<or> \<not> rf_create fate then (db, Inl Statement_failed)
      else
        (let created = create_ledger db in
         if \<not> rf_select fate then (created, Inl Statement_failed)
         else migrate_files sha run_sql target dir (rf_file fate)
                (ledger_map (ledger_rows created)) files created))"

definition runMigrations ::
    "(string \<Rightarrow> string) \<Rightarrow> (string \<Rightarrow> 'o \<Rightarrow> 'o option) \<Rightarrow> mig_dir \<Rightarrow> mig_dir \<Rightarrow> run_fate \<Rightarrow> run_fate \<Rightarrow>
       'o mig_db \<times> 'o mig_db \<Rightarrow> ('o mig_db \<times> 'o mig_db) \<times> (mig_error, unit) result" where
  "runMigrations sha run_sql control_dir warehouse_dir fate fate' dbs =
     (case applyTo sha run_sql ''control-plane'' control_dir fate (fst dbs) of
        (control, Inl e) \<Rightarrow> ((control, snd dbs), Inl e)
      | (control, Inr _) \<Rightarrow>
          (case applyTo sha run_sql ''warehouse'' warehouse_dir fate' (snd dbs) of
             (warehouse, r) \<Rightarrow> ((control, warehouse), r)))"

section \<open>Several runners on one database\<close>

record runner =
  rn_target :: string
  rn_dir :: mig_dir
  rn_seen :: "string \<Rightarrow> string option"
  rn_todo :: "string list"

text \<open>A runner opens (it connects, creates the ledger and reads it) and then works on its files one
  transaction at a time; a failure ends it.\<close>

inductive mig_reachable ::
    "(string \<Rightarrow> string) \<Rightarrow> (string \<Rightarrow> 'o \<Rightarrow> 'o option) \<Rightarrow> 'o \<Rightarrow> 'o mig_db \<Rightarrow> runner list \<Rightarrow> bool"
  for sha run_sql start where
  mig_empty: "mig_reachable sha run_sql start \<lparr>mg_objects = start, mg_ledger = None\<rparr> []"
| mig_created: "mig_reachable sha run_sql start db rs \<Longrightarrow>
    mig_reachable sha run_sql start (create_ledger db) rs"
| mig_opened: "mig_reachable sha run_sql start db rs \<Longrightarrow>
    mig_reachable sha run_sql start (create_ledger db)
      (rs @ [\<lparr>rn_target = target, rn_dir = dir,
         rn_seen = ledger_map (ledger_rows (create_ledger db)), rn_todo = listMigrations dir\<rparr>])"
| mig_file: "mig_reachable sha run_sql start db rs \<Longrightarrow> i < length rs \<Longrightarrow> rs ! i = r \<Longrightarrow>
    rn_todo r = file # files \<Longrightarrow>
    migrate_file sha run_sql (rn_target r) (rn_dir r) fate (rn_seen r) file db = (db', res) \<Longrightarrow>
    mig_reachable sha run_sql start db'
      (rs[i := r\<lparr>rn_todo := (case res of Inl _ \<Rightarrow> [] | Inr _ \<Rightarrow> files)\<rparr>])"

section \<open>The ledger is the history of the schema\<close>

fun run_all :: "(string \<Rightarrow> 'o \<Rightarrow> 'o option) \<Rightarrow> string list \<Rightarrow> 'o \<Rightarrow> 'o option" where
  "run_all run_sql [] x = Some x"
| "run_all run_sql (sql # sqls) x =
     (case run_sql sql x of None \<Rightarrow> None | Some y \<Rightarrow> run_all run_sql sqls y)"

lemma run_all_append:
  "run_all run_sql (xs @ ys) x =
     (case run_all run_sql xs x of None \<Rightarrow> None | Some y \<Rightarrow> run_all run_sql ys y)"
  by (induction xs arbitrary: x) (auto split: option.split)

definition ledger_history ::
    "(string \<Rightarrow> string) \<Rightarrow> (string \<Rightarrow> 'o \<Rightarrow> 'o option) \<Rightarrow> 'o \<Rightarrow> 'o mig_db \<Rightarrow> bool" where
  "ledger_history sha run_sql start db \<longleftrightarrow>
     distinct (map fst (ledger_rows db)) \<and>
     (\<exists>sqls. map snd (ledger_rows db) = map (\<lambda>sql. char64 (sha256Hex sha sql)) sqls \<and>
        run_all run_sql sqls start = Some (mg_objects db))"

lemma ledger_rows_create [simp]:
  "ledger_rows (create_ledger db) = ledger_rows db"
  "mg_objects (create_ledger db) = mg_objects db"
  "mg_ledger (create_ledger db) = Some (ledger_rows db)"
  by (simp_all add: create_ledger_def ledger_rows_def)

lemma ledger_history_create [simp]:
  "ledger_history sha run_sql start (create_ledger db) = ledger_history sha run_sql start db"
  by (simp add: ledger_history_def)

text \<open>What one transaction can do: nothing, or the migration together with its entry.\<close>

lemma record_migration_cases:
  assumes "record_migration run_sql fate file checksum sql db = (db', res)"
  obtains (kept) "db' = db" "res = Inl Statement_failed"
  | (applied) objects where "run_sql sql (mg_objects db) = Some objects"
      "file \<notin> set (map fst (ledger_rows db))" "mg_objects db' = objects"
      "ledger_rows db' = ledger_rows db @ [(file, char64 checksum)]" "mg_ledger db' \<noteq> None"
      "res = Inr () \<or> res = Inl Statement_failed"
proof (cases "ff_begin fate \<and> ff_sql fate \<and> ff_insert fate \<and> run_sql sql (mg_objects db) \<noteq> None \<and>
    mg_ledger db \<noteq> None \<and> file \<notin> set (map fst (ledger_rows db)) \<and> ff_commit fate \<noteq> Commit_refused")
  case True
  then obtain objects where objects: "run_sql sql (mg_objects db) = Some objects" by blast
  from True assms have "db' = db\<lparr>mg_objects := objects,
      mg_ledger := Some (ledger_rows db @ [(file, char64 checksum)])\<rparr>"
      "res = Inr () \<or> res = Inl Statement_failed"
    unfolding record_migration_def
    by (cases "ff_commit fate"; auto simp: objects Let_def)+
  with True objects show ?thesis by (intro applied [OF objects]) (auto simp: ledger_rows_def)
next
  case False
  with assms have "db' = db \<and> res = Inl Statement_failed"
    unfolding record_migration_def
    by (cases "run_sql sql (mg_objects db)"; cases "ff_commit fate";
        simp add: Let_def split: if_split_asm)
  then show ?thesis by (intro kept) auto
qed

lemma migrate_file_cases:
  assumes "migrate_file sha run_sql target dir fate seen file db = (db', res)"
  obtains (kept) "db' = db"
  | (applied) sql objects where "dir_read dir file = Some sql" "seen file = None"
      "run_sql sql (mg_objects db) = Some objects"
      "file \<notin> set (map fst (ledger_rows db))" "mg_objects db' = objects"
      "ledger_rows db' = ledger_rows db @ [(file, char64 (sha256Hex sha sql))]"
      "mg_ledger db' \<noteq> None" "res = Inr () \<or> res = Inl Statement_failed"
proof (cases "\<exists>sql. dir_read dir file = Some sql \<and> seen file = None")
  case True
  then obtain sql where sql: "dir_read dir file = Some sql" "seen file = None" by blast
  with assms have "record_migration run_sql fate file (sha256Hex sha sql) sql db = (db', res)"
    by (simp add: migrate_file_def Let_def)
  then show ?thesis
    by (cases rule: record_migration_cases) (use sql in \<open>auto intro: kept applied\<close>)
next
  case False
  with assms have "db' = db"
    by (auto simp: migrate_file_def Let_def split: option.splits)
  then show ?thesis by (rule kept)
qed

lemma ledger_history_file:
  assumes "ledger_history sha run_sql start db"
    and "migrate_file sha run_sql target dir fate seen file db = (db', res)"
  shows "ledger_history sha run_sql start db'"
  using assms(2)
proof (cases rule: migrate_file_cases)
  case (applied sql objects)
  from assms(1) obtain sqls where
    "map snd (ledger_rows db) = map (\<lambda>sql. char64 (sha256Hex sha sql)) sqls"
    "run_all run_sql sqls start = Some (mg_objects db)"
    by (auto simp: ledger_history_def)
  with applied have "map snd (ledger_rows db') = map (\<lambda>sql. char64 (sha256Hex sha sql)) (sqls @ [sql])"
      "run_all run_sql (sqls @ [sql]) start = Some (mg_objects db')"
    by (simp_all add: run_all_append)
  with assms(1) applied show ?thesis unfolding ledger_history_def by auto
qed (use assms(1) in simp)

lemma mig_reachable_history:
  "mig_reachable sha run_sql start db rs \<Longrightarrow> ledger_history sha run_sql start db"
proof (induction rule: mig_reachable.induct)
  case mig_empty
  then show ?case by (simp add: ledger_history_def ledger_rows_def)
qed (auto elim: ledger_history_file)

text \<open>A run of its own is such a sequence of steps.\<close>

lemma migrate_files_reachable:
  "mig_reachable sha run_sql start db rs \<Longrightarrow> i < length rs \<Longrightarrow> rs ! i = r \<Longrightarrow> rn_todo r = files \<Longrightarrow>
     rn_target r = target \<Longrightarrow> rn_dir r = dir \<Longrightarrow> rn_seen r = seen \<Longrightarrow>
     \<exists>rs'. mig_reachable sha run_sql start
       (fst (migrate_files sha run_sql target dir fates seen files db)) rs'"
proof (induction files arbitrary: db rs r)
  case (Cons f files)
  obtain db' res where step:
    "migrate_file sha run_sql target dir (fates f) seen f db = (db', res)" by (metis surj_pair)
  let ?r = "r\<lparr>rn_todo := (case res of Inl _ \<Rightarrow> [] | Inr _ \<Rightarrow> files)\<rparr>"
  have next_state: "mig_reachable sha run_sql start db' (rs[i := ?r])"
    using mig_file [OF Cons.prems(1-4), of "fates f" db' res] step Cons.prems(5-7) by simp
  show ?case
  proof (cases res)
    case (Inl e)
    with step next_state show ?thesis by auto
  next
    case (Inr u)
    with Cons.IH [OF next_state, of ?r] Cons.prems step show ?thesis by simp
  qed
qed auto

lemma applyTo_reachable:
  assumes "mig_reachable sha run_sql start db rs"
  shows "\<exists>rs'. mig_reachable sha run_sql start (fst (applyTo sha run_sql target dir fate db)) rs'"
proof (cases "listMigrations dir = [] \<or> \<not> rf_connect fate \<or> \<not> rf_create fate \<or> \<not> rf_select fate")
  case True
  with assms mig_created [OF assms] show ?thesis by (auto simp: applyTo_def Let_def)
next
  case False
  from migrate_files_reachable [OF mig_opened [OF assms, of target dir], of "length rs"]
  have "\<exists>rs'. mig_reachable sha run_sql start
      (fst (migrate_files sha run_sql target dir (rf_file fate)
        (ledger_map (ledger_rows (create_ledger db))) (listMigrations dir) (create_ledger db))) rs'"
    by simp
  with False show ?thesis by (simp add: applyTo_def Let_def)
qed

section \<open>What a successful run leaves\<close>

lemma ledger_map_fold:
  "fold (\<lambda>(name, checksum) m. map_set m name (trim checksum)) rows m0 x =
     (case map_of (rev rows) x of Some c \<Rightarrow> Some (trim c) | None \<Rightarrow> m0 x)"
  by (induction rows arbitrary: m0) (auto split: option.splits simp: map_add_def)

lemma ledger_map_map_of:
  "distinct (map fst rows) \<Longrightarrow> ledger_map rows x = map_option trim (map_of rows x)"
proof -
  assume "distinct (map fst rows)"
  then have "map_of (rev rows) = map_of rows"
    using map_of_eq_Some_iff [of "rev rows"] map_of_eq_Some_iff [of rows]
    by (intro ext) (metis (no_types, lifting) distinct_rev not_Some_eq rev_map set_rev)
  then show ?thesis by (simp add: ledger_map_def ledger_map_fold split: option.split)
qed

lemma ledger_map_None: "ledger_map rows x = None \<longleftrightarrow> x \<notin> set (map fst rows)"
proof -
  have "map_of (rev rows) x = None \<longleftrightarrow> x \<notin> fst ` set (rev rows)" by (rule map_of_eq_None_iff)
  then show ?thesis
    by (cases "map_of (rev rows) x") (simp_all add: ledger_map_def ledger_map_fold)
qed

lemma migrate_file_ok:
  assumes "migrate_file sha run_sql target dir fate seen file db = (db', Inr u)"
  obtains (skipped) sql where "dir_read dir file = Some sql" "seen file = Some (sha256Hex sha sql)"
      "db' = db"
  | (applied) sql where "dir_read dir file = Some sql" "seen file = None"
      "ledger_rows db' = ledger_rows db @ [(file, char64 (sha256Hex sha sql))]"
      "file \<notin> set (map fst (ledger_rows db))" "mg_ledger db' \<noteq> None"
proof (cases "seen file")
  case None
  with assms obtain sql where sql: "dir_read dir file = Some sql"
    "record_migration run_sql fate file (sha256Hex sha sql) sql db = (db', Inr u)"
    by (auto simp: migrate_file_def Let_def split: option.splits)
  from sql(2) show ?thesis
    by (cases rule: record_migration_cases) (use sql(1) None in \<open>auto intro: applied\<close>)
next
  case (Some c)
  with assms show ?thesis
    by (intro skipped [of "the (dir_read dir file)"])
      (auto simp: migrate_file_def Let_def split: option.splits if_splits)
qed

lemma migrate_files_distinct:
  "migrate_files sha run_sql target dir fates seen files db = (db', Inr u) \<Longrightarrow>
    distinct (map fst (ledger_rows db)) \<Longrightarrow> mg_ledger db \<noteq> None \<Longrightarrow>
    distinct (map fst (ledger_rows db')) \<and> mg_ledger db' \<noteq> None"
proof (induction files arbitrary: db)
  case (Cons f files)
  obtain db1 res where step:
    "migrate_file sha run_sql target dir (fates f) seen f db = (db1, res)" by (metis surj_pair)
  with Cons.prems(1) obtain u' where ok: "res = Inr u'"
    and rest: "migrate_files sha run_sql target dir fates seen files db1 = (db', Inr u)"
    by (cases res) auto
  from step [unfolded ok] have "distinct (map fst (ledger_rows db1)) \<and> mg_ledger db1 \<noteq> None"
    by (cases rule: migrate_file_ok) (use Cons.prems(2,3) in auto)
  with Cons.IH [OF rest] show ?case by blast
qed simp

lemma migrate_files_ok:
  assumes digest: "\<And>s. is_digest (sha256Hex sha s)"
  shows "migrate_files sha run_sql target dir fates seen files db = (db', Inr u) \<Longrightarrow>
    ledger_rows db' = ledger_rows db @
      map (\<lambda>f. (f, sha256Hex sha (the (dir_read dir f)))) (filter (\<lambda>f. seen f = None) files) \<and>
    (\<forall>f \<in> set files. \<exists>sql. dir_read dir f = Some sql \<and> seen f \<in> {None, Some (sha256Hex sha sql)})"
proof (induction files arbitrary: db)
  case (Cons f files)
  obtain db1 res where step:
    "migrate_file sha run_sql target dir (fates f) seen f db = (db1, res)" by (metis surj_pair)
  with Cons.prems(1) obtain u' where ok: "res = Inr u'"
    and rest: "migrate_files sha run_sql target dir fates seen files db1 = (db', Inr u)"
    by (cases res) auto
  from step [unfolded ok] show ?case
    by (cases rule: migrate_file_ok)
      (use Cons.IH [OF rest] in \<open>simp_all add: char64_digest [OF digest]\<close>)
qed simp

lemma migrate_files_skip:
  "(\<And>f. f \<in> set files \<Longrightarrow> \<exists>sql. dir_read dir f = Some sql \<and> seen f = Some (sha256Hex sha sql)) \<Longrightarrow>
     migrate_files sha run_sql target dir fates seen files db = (db, Inr ())"
proof (induction files)
  case (Cons f files)
  from Cons.prems [of f] obtain sql where "dir_read dir f = Some sql" "seen f = Some (sha256Hex sha sql)"
    by auto
  with Cons.IH Cons.prems show ?case by (simp add: migrate_file_def)
qed simp

text \<open>A database and a directory for the witnesses: one migration recorded, another to come.\<close>

definition demo_sql :: "string \<Rightarrow> string list \<Rightarrow> string list option" where
  "demo_sql sql objects = (if sql = ''fail'' then None else Some (objects @ [sql]))"

definition all_well :: run_fate where
  "all_well = \<lparr>rf_connect = True, rf_create = True, rf_select = True,
     rf_file = (\<lambda>_. \<lparr>ff_begin = True, ff_sql = True, ff_insert = True, ff_commit = Committed\<rparr>)\<rparr>"

definition demo_dir :: mig_dir where
  "demo_dir = \<lparr>dir_entries = Some [(''b.sql'', True), (''a.sql'', True), (''notes'', True)],
     dir_read = (\<lambda>f. if f = ''a.sql'' then Some ''A'' else if f = ''b.sql'' then Some ''B'' else None)\<rparr>"

definition demo_mig_db :: "string list mig_db" where
  "demo_mig_db = \<lparr>mg_objects = [], mg_ledger = None\<rparr>"

lemma demo_applied:
  "applyTo len_digest demo_sql ''t'' demo_dir all_well demo_mig_db =
     (\<lparr>mg_objects = [''A'', ''B''],
       mg_ledger = Some [(''a.sql'', len_digest ''A''), (''b.sql'', len_digest ''B'')]\<rparr>, Inr ())"
  by code_simp

section \<open>Properties\<close>



text \<open>A run that succeeds has every migration on record. Its files are recorded with the digests
  of their texts as they now are (so none of them had changed since it was applied), the new ones
  behind the old entries in lexical order, and a second run over the same files changes nothing.\<close>

theorem migrated_once:
  assumes "\<And>s. is_digest (sha256Hex sha s)" and "distinct (map fst (ledger_rows db))"
    and "listMigrations dir \<noteq> []" and "applyTo sha run_sql target dir fate db = (db', Inr ())"
  shows "ledger_rows db' = ledger_rows db @ map (\<lambda>f. (f, sha256Hex sha (the (dir_read dir f))))
      (filter (\<lambda>f. f \<notin> set (map fst (ledger_rows db))) (listMigrations dir)) \<and>
    map (\<lambda>f. map_option trim (map_of (ledger_rows db') f)) (listMigrations dir) =
      map (\<lambda>f. map_option (sha256Hex sha) (dir_read dir f)) (listMigrations dir) \<and>
    applyTo sha run_sql' target' dir fate' db' =
      (db', if rf_connect fate' \<and> rf_create fate' \<and> rf_select fate' then Inr ()
            else Inl Statement_failed)"
proof -
  let ?files = "listMigrations dir" and ?seen = "ledger_map (ledger_rows db)"
  have run: "migrate_files sha run_sql target dir (rf_file fate) ?seen ?files (create_ledger db) =
      (db', Inr ())"
    using assms(3,4) by (auto simp: applyTo_def Let_def split: if_splits)
  from migrate_files_ok [OF assms(1) run] migrate_files_distinct [OF run] assms(2)
  have rows: "ledger_rows db' = ledger_rows db @ map (\<lambda>f. (f, sha256Hex sha (the (dir_read dir f))))
      (filter (\<lambda>f. ?seen f = None) ?files)"
    and texts: "\<And>f. f \<in> set ?files \<Longrightarrow>
      \<exists>sql. dir_read dir f = Some sql \<and> ?seen f \<in> {None, Some (sha256Hex sha sql)}"
    and dist: "distinct (map fst (ledger_rows db'))" and table: "mg_ledger db' \<noteq> None"
    unfolding ledger_rows_create by blast+
  have recorded: "\<exists>sql. dir_read dir f = Some sql \<and>
      ledger_map (ledger_rows db') f = Some (sha256Hex sha sql)" if f: "f \<in> set ?files" for f
  proof -
    from texts [OF f] obtain sql where sql: "dir_read dir f = Some sql"
      "?seen f = None \<or> ?seen f = Some (sha256Hex sha sql)" by auto
    from sql(2) show ?thesis
    proof
      assume "?seen f = None"
      with f sql(1) have "(f, sha256Hex sha sql) \<in> set (ledger_rows db')" by (auto simp: rows)
      with dist have "map_of (ledger_rows db') f = Some (sha256Hex sha sql)" by simp
      with sql(1) show ?thesis by (simp add: ledger_map_map_of [OF dist] trim_digest [OF assms(1)])
    next
      assume seen: "?seen f = Some (sha256Hex sha sql)"
      then obtain c where c: "map_of (ledger_rows db) f = Some c" "trim c = sha256Hex sha sql"
        by (auto simp: ledger_map_map_of [OF assms(2)])
      then have "map_of (ledger_rows db') f = Some c"
        using dist by (auto simp: rows dest: map_of_SomeD)
      with sql(1) c show ?thesis by (simp add: ledger_map_map_of [OF dist])
    qed
  qed
  have same: "create_ledger db' = db'"
    using table by (cases db') (auto simp: create_ledger_def ledger_rows_def)
  have "migrate_files sha run_sql' target' dir (rf_file fate') (ledger_map (ledger_rows db')) ?files db' =
      (db', Inr ())" by (rule migrate_files_skip [OF recorded])
  with assms(3) same have "applyTo sha run_sql' target' dir fate' db' =
      (db', if rf_connect fate' \<and> rf_create fate' \<and> rf_select fate' then Inr ()
            else Inl Statement_failed)"
    by (simp add: applyTo_def Let_def)
  moreover have "map_option trim (map_of (ledger_rows db') f) =
      map_option (sha256Hex sha) (dir_read dir f)" if "f \<in> set ?files" for f
    using recorded [OF that] by (auto simp: ledger_map_map_of [OF dist])
  ultimately show ?thesis by (simp add: rows ledger_map_None)
qed

theorem migrated_once_witness:
  "applyTo len_digest demo_sql ''t'' demo_dir all_well
     \<lparr>mg_objects = [''A'', ''B''],
       mg_ledger = Some [(''a.sql'', len_digest ''A''), (''b.sql'', len_digest ''B'')]\<rparr> =
     (\<lparr>mg_objects = [''A'', ''B''],
       mg_ledger = Some [(''a.sql'', len_digest ''A''), (''b.sql'', len_digest ''B'')]\<rparr>, Inr ())"
proof -
  have "listMigrations demo_dir \<noteq> []" by code_simp
  moreover have "distinct (map fst (ledger_rows demo_mig_db))" by code_simp
  moreover have "\<And>s. is_digest (sha256Hex len_digest s)" by (rule digest_env_sha [OF digest_env_example])
  ultimately show ?thesis
    using migrated_once [of len_digest demo_mig_db demo_dir demo_sql "''t''" all_well, OF _ _ _ demo_applied,
        of demo_sql "''t''" all_well]
    by (simp add: all_well_def)
qed

end
