(* ===== verification/Chain_Check.thy ===== *)
theory Chain_Check
  imports Audit_Log
begin

text \<open>
  The command that checks the audit log (\<open>scripts/verify-audit-chain.ts\<close>): its options, its exit code,
  and the tamper check, which alters a row, verifies, and puts the row back.

  Whether the database answers a statement is an argument, as is what it refuses of an update; the
  printed report and its colours are not modelled. Nothing else writes while the check runs.
\<close>

section \<open>Options\<close>

record check_options =
  co_tenant :: "string option"
  co_corruptRow :: "int option"
  co_json :: bool

text \<open>\<open>Number.parseInt(s, 10)\<close>; \<open>None\<close> is \<open>NaN\<close>.\<close>

definition parse_int10 :: "string \<Rightarrow> int option" where
  "parse_int10 s =
     (let t = trim_start s;
          negative = (take 1 t = ''-'');
          body = (if take 1 t \<in> {''-'', ''+''} then drop 1 t else t);
          ds = takeWhile is_digit body
      in if ds = [] then None
         else Some (if negative then - int (nat_of_digits ds) else int (nat_of_digits ds)))"

fun parse_args :: "string list \<Rightarrow> check_options \<Rightarrow> check_options" where
  "parse_args [] opts = opts"
| "parse_args (arg # args) opts =
     (if arg = ''--tenant'' then
        (case args of
           [] \<Rightarrow> opts\<lparr>co_tenant := None\<rparr>
         | v # rest \<Rightarrow> parse_args rest (opts\<lparr>co_tenant := Some v\<rparr>))
      else if arg = ''--corrupt-row'' then
        (case args of
           [] \<Rightarrow> opts\<lparr>co_corruptRow := parse_int10 []\<rparr>
         | v # rest \<Rightarrow> parse_args rest (opts\<lparr>co_corruptRow := parse_int10 v\<rparr>))
      else if arg = ''--json'' then parse_args args (opts\<lparr>co_json := True\<rparr>)
      else parse_args args opts)"

definition parseArgs :: "string list \<Rightarrow> check_options" where
  "parseArgs argv = parse_args argv \<lparr>co_tenant = None, co_corruptRow = None, co_json = False\<rparr>"

section \<open>The tamper check\<close>

text \<open>The tables and whether the trigger that refuses updates of \<open>audit_events\<close> is enabled.\<close>

record guarded_db =
  gd_tables :: audit_db
  gd_guard :: bool

datatype check_failure = Query_failed | Update_refused | Chain_unreadable canon_error

definition js_plus_one :: "js_num \<Rightarrow> js_num" where
  "js_plus_one n = (case n of JFin q \<Rightarrow> JFin (q + 1) | JNegZero \<Rightarrow> JFin 1 | _ \<Rightarrow> n)"

text \<open>\<open>UPDATE audit_events SET latency_ms = ... WHERE seq = ...\<close>.\<close>

definition set_latency :: "int \<Rightarrow> js_num \<Rightarrow> audit_db \<Rightarrow> audit_db" where
  "set_latency seq n db = db\<lparr>db_events :=
     map (\<lambda>r. if int (rw_seq r) = seq then r\<lparr>rw_latency_ms := n\<rparr> else r) (db_events db)\<rparr>"

definition update_latency ::
    "(raw_row \<Rightarrow> bool) \<Rightarrow> bool \<Rightarrow> int \<Rightarrow> js_num \<Rightarrow> guarded_db \<Rightarrow> (check_failure, guarded_db) result" where
  "update_latency refuses answered seq n g =
     (if \<not> answered then Inl Query_failed
      else if gd_guard g \<and> (\<exists>r \<in> set (db_events (gd_tables g)). int (rw_seq r) = seq)
        \<or> (\<exists>r \<in> set (db_events (set_latency seq n (gd_tables g))). int (rw_seq r) = seq \<and> refuses r)
      then Inl Update_refused
      else Inr (g\<lparr>gd_tables := set_latency seq n (gd_tables g)\<rparr>))"

definition check_chain ::
    "(string \<Rightarrow> string) \<Rightarrow> (rat \<Rightarrow> string) \<Rightarrow> bool \<Rightarrow> string \<Rightarrow> guarded_db \<Rightarrow>
       (check_failure, chain_verification) result" where
  "check_chain sha fmt answered tn g =
     (if \<not> answered then Inl Query_failed
      else case verifyTenantChain sha fmt (gd_tables g) tn None of
        Inl e \<Rightarrow> Inl (Chain_unreadable e) | Inr cv \<Rightarrow> Inr cv)"

record tamper_report =
  tr_before :: chain_verification
  tr_after :: chain_verification
  tr_restored :: chain_verification

text \<open>The statements inside the \<open>try\<close>: what they leave, and their result.\<close>

definition tamper_steps ::
    "(string \<Rightarrow> string) \<Rightarrow> (rat \<Rightarrow> string) \<Rightarrow> (raw_row \<Rightarrow> bool) \<Rightarrow> (nat \<Rightarrow> bool) \<Rightarrow> int \<Rightarrow> raw_row \<Rightarrow>
       guarded_db \<Rightarrow> guarded_db \<times> (check_failure, chain_verification \<times> chain_verification) result" where
  "tamper_steps sha fmt refuses answers seq row g =
     (case update_latency refuses (answers 3) seq (js_plus_one (rw_latency_ms row)) g of
        Inl e \<Rightarrow> (g, Inl e)
      | Inr altered \<Rightarrow>
          (case check_chain sha fmt (answers 4) (rw_tenant_id row) altered of
             Inl e \<Rightarrow> (altered, Inl e)
           | Inr after \<Rightarrow>
               (case update_latency refuses (answers 5) seq (rw_latency_ms row) altered of
                  Inl e \<Rightarrow> (altered, Inl e)
                | Inr restored \<Rightarrow>
                    (case check_chain sha fmt (answers 6) (rw_tenant_id row) restored of
                       Inl e \<Rightarrow> (restored, Inl e)
                     | Inr again \<Rightarrow> (restored, Inr (after, again))))))"

datatype tamper_outcome = No_such_row | Tampered tamper_report

definition runTamperCheck ::
    "(string \<Rightarrow> string) \<Rightarrow> (rat \<Rightarrow> string) \<Rightarrow> (raw_row \<Rightarrow> bool) \<Rightarrow> (nat \<Rightarrow> bool) \<Rightarrow> int \<Rightarrow>
       guarded_db \<Rightarrow> guarded_db \<times> (check_failure, tamper_outcome) result" where
  "runTamperCheck sha fmt refuses answers seq g =
     (if \<not> answers 0 then (g, Inl Query_failed)
      else case List.find (\<lambda>r. int (rw_seq r) = seq) (db_events (gd_tables g)) of
        None \<Rightarrow> (g, Inr No_such_row)
      | Some row \<Rightarrow>
          (case check_chain sha fmt (answers 1) (rw_tenant_id row) g of
             Inl e \<Rightarrow> (g, Inl e)
           | Inr before_cv \<Rightarrow>
               if \<not> answers 2 then (g, Inl Query_failed)
               else
                 (case tamper_steps sha fmt refuses answers seq row (g\<lparr>gd_guard := False\<rparr>) of
                    (g', r) \<Rightarrow>
                      if \<not> answers 7 then (g', Inl Query_failed)
                      else (g'\<lparr>gd_guard := True\<rparr>,
                        (case r of
                           Inl e \<Rightarrow> Inl e
                         | Inr (after, again) \<Rightarrow> Inr (Tampered \<lparr>tr_before = before_cv,
                             tr_after = after, tr_restored = again\<rparr>))))))"

definition tamper_exit :: "tamper_outcome \<Rightarrow> nat" where
  "tamper_exit out = (case out of
     No_such_row \<Rightarrow> 1
   | Tampered rep \<Rightarrow> if cv_valid (tr_after rep) \<or> \<not> cv_valid (tr_restored rep) then 1 else 0)"

section \<open>The command\<close>

definition verify_chains ::
    "(string \<Rightarrow> string) \<Rightarrow> (rat \<Rightarrow> string) \<Rightarrow> bool \<Rightarrow> string option \<Rightarrow> guarded_db \<Rightarrow>
       (check_failure, chain_verification list) result" where
  "verify_chains sha fmt answered tenant g =
     (if or_default tenant [] \<noteq> []
      then bind_result (check_chain sha fmt answered (the tenant) g) (\<lambda>cv. Inr [cv])
      else if \<not> answered then Inl Query_failed
      else case verifyAllChains sha fmt (gd_tables g) None of
        Inl e \<Rightarrow> Inl (Chain_unreadable e) | Inr cvs \<Rightarrow> Inr cvs)"

datatype check_result = Chains "chain_verification list" | Tamper tamper_outcome | Crashed check_failure

definition check_main ::
    "(string \<Rightarrow> string) \<Rightarrow> (rat \<Rightarrow> string) \<Rightarrow> (raw_row \<Rightarrow> bool) \<Rightarrow> (nat \<Rightarrow> bool) \<Rightarrow> string list \<Rightarrow>
       guarded_db \<Rightarrow> guarded_db \<times> check_result \<times> nat" where
  "check_main sha fmt refuses answers argv g =
     (let opts = parseArgs argv in
      case co_corruptRow opts of
        Some seq \<Rightarrow>
          (case runTamperCheck sha fmt refuses answers seq g of
             (g', Inl e) \<Rightarrow> (g', Crashed e, 1)
           | (g', Inr out) \<Rightarrow> (g', Tamper out, tamper_exit out))
      | None \<Rightarrow>
          (case verify_chains sha fmt (answers 0) (co_tenant opts) g of
             Inl e \<Rightarrow> (g, Crashed e, 1)
           | Inr cvs \<Rightarrow> (g, Chains cvs, if list_all cv_valid cvs then 0 else 1)))"

section \<open>Setting a row's latency\<close>

lemma set_latency_twice [simp]:
  "set_latency seq n (set_latency seq m db) = set_latency seq n db"
  by (simp add: set_latency_def comp_def cong: if_cong)

lemma set_latency_seqs [simp]:
  "map rw_seq (db_events (set_latency seq n db)) = map rw_seq (db_events db)"
  "db_heads (set_latency seq n db) = db_heads db"
  by (simp_all add: set_latency_def comp_def)

lemma set_latency_own:
  assumes "distinct (map rw_seq (db_events db))" and "row \<in> set (db_events db)"
    and "int (rw_seq row) = seq"
  shows "set_latency seq (rw_latency_ms row) db = db"
proof -
  have "(if int (rw_seq r) = seq then r\<lparr>rw_latency_ms := rw_latency_ms row\<rparr> else r) = r"
    if "r \<in> set (db_events db)" for r
    using assms that by (auto dest: inj_onD [where f = rw_seq and x = r and y = row] simp: distinct_map)
  then have "map (\<lambda>r. if int (rw_seq r) = seq then r\<lparr>rw_latency_ms := rw_latency_ms row\<rparr> else r)
      (db_events db) = db_events db"
    by (intro map_idI)
  then show ?thesis by (simp add: set_latency_def)
qed

lemma tenant_rows_set_latency:
  "tenant_rows (set_latency seq n db) tn =
     map (\<lambda>r. if int (rw_seq r) = seq then r\<lparr>rw_latency_ms := n\<rparr> else r) (tenant_rows db tn)"
  unfolding tenant_rows_def set_latency_def
  by (simp add: filter_map comp_def if_distrib [where f = rw_tenant_id] cong: if_cong)

lemma rows_after_set_latency:
  assumes "audit_ok sha fmt db"
  shows "rows_after (set_latency seq n db) tn 0 = tenant_rows (set_latency seq n db) tn"
proof -
  let ?db = "set_latency seq n db"
  have "\<forall>r \<in> set (db_events ?db). 0 < rw_seq r"
    using assms by (auto simp: audit_ok_def set_latency_def)
  then have "filter (\<lambda>r. rw_tenant_id r = tn \<and> 0 < rw_seq r) (db_events ?db) = tenant_rows ?db tn"
    unfolding tenant_rows_def by (intro filter_cong) auto
  moreover have "sorted (map rw_seq (db_events ?db))"
    using assms by (simp add: audit_ok_def strict_sorted_iff)
  then have "sorted (map rw_seq (tenant_rows ?db tn))" unfolding tenant_rows_def by (rule sorted_filter)
  ultimately show ?thesis by (simp add: rows_after_def sort_key_id_if_sorted)
qed

lemma audit_ok_row_canonical:
  assumes "audit_ok sha fmt db" "row \<in> set (db_events db)"
  shows "\<exists>c. canonicalRow fmt (toLink row) = Inr c"
proof -
  from assms have "linked_from sha fmt (genesisHash sha (rw_tenant_id row))
      (map toLink (tenant_rows db (rw_tenant_id row)))" by (simp add: audit_ok_def)
  moreover from assms(2) obtain us vs where "tenant_rows db (rw_tenant_id row) = us @ row # vs"
    using split_list [of row "tenant_rows db (rw_tenant_id row)"] by (auto simp: tenant_rows_def)
  ultimately show ?thesis
    by (auto simp: linked_from_append verifyLink_None computeRowHash_def bind_result_Inr_iff)
qed

definition altered_row :: "raw_row \<Rightarrow> raw_row" where
  "altered_row row = row\<lparr>rw_latency_ms := js_plus_one (rw_latency_ms row)\<rparr>"

text \<open>The verification of the altered log stops at the altered row.\<close>

lemma altered_report:
  assumes env: "digest_env (sha, fmt)" and ok: "audit_ok sha fmt db"
    and row: "row \<in> set (db_events db)"
    and collision: "\<And>c c'. canonicalRow fmt (toLink row) = Inr c \<Longrightarrow>
      canonicalRow fmt (toLink (altered_row row)) = Inr c' \<Longrightarrow>
      inj_on sha {lk_prevHash (toLink row) @ c, lk_prevHash (toLink row) @ c'}"
  shows "\<exists>cv b. verifyTenantChain sha fmt
      (set_latency (int (rw_seq row)) (js_plus_one (rw_latency_ms row)) db) (rw_tenant_id row) None =
        Inr cv \<and> \<not> cv_valid cv \<and> cv_firstBreak cv = Some b \<and>
      brk_reason b = Row_hash_mismatch \<and> brk_id b = rw_id row"
proof -
  let ?tn = "rw_tenant_id row" and ?seq = "int (rw_seq row)"
  let ?db = "set_latency ?seq (js_plus_one (rw_latency_ms row)) db"
  let ?l = "toLink row" and ?l' = "toLink (altered_row row)"
  have "row \<in> set (tenant_rows db ?tn)" using row by (simp add: tenant_rows_def)
  then obtain us vs where split: "tenant_rows db ?tn = us @ row # vs" by (auto dest: split_list)
  have "distinct (map rw_seq (tenant_rows db ?tn))"
    using audit_ok_distinct [OF ok] by (simp add: rows_after_tenant_rows [OF ok])
  then have "rw_seq r \<noteq> rw_seq row" if "r \<in> set us \<union> set vs" for r
    using that unfolding split by (auto simp: image_iff)
  then have "map (\<lambda>r. if int (rw_seq r) = ?seq then r\<lparr>rw_latency_ms := js_plus_one (rw_latency_ms row)\<rparr> else r) us = us"
    "map (\<lambda>r. if int (rw_seq r) = ?seq then r\<lparr>rw_latency_ms := js_plus_one (rw_latency_ms row)\<rparr> else r) vs = vs"
    by (auto intro!: map_idI)
  then have rows': "rows_after ?db ?tn 0 = us @ altered_row row # vs"
    by (simp add: rows_after_set_latency [OF ok] tenant_rows_set_latency split altered_row_def)
  have dist: "distinct (map rw_seq (rows_after ?db ?tn 0))"
    using \<open>distinct (map rw_seq (tenant_rows db ?tn))\<close> unfolding rows' split
    by (simp add: altered_row_def)
  have "linked_from sha fmt (genesisHash sha ?tn) (map toLink (tenant_rows db ?tn))"
    using ok by (simp add: audit_ok_def)
  then have verified: "verifyChain sha fmt ?tn (map toLink us @ ?l # map toLink vs) =
      Inr \<lparr>res_valid = True, res_checked = length (us @ row # vs), res_break = None\<rparr>"
    by (simp add: verifyChain_def verify_from_valid split)
  obtain c where c: "canonicalRow fmt ?l = Inr c" using audit_ok_row_canonical [OF ok row] by blast
  then obtain t where t: "rw_ts row = Some t" "\<bar>t\<bar> \<le> 8640000000000000" "is_finite_num (rw_latency_ms row)"
    by (auto simp: canonicalRow_text toLink_def)
  then have "\<exists>c'. canonicalRow fmt ?l' = Inr c'"
    by (auto simp: canonicalRow_text toLink_def altered_row_def js_plus_one_def is_finite_num_def
        split: js_num.splits)
  then obtain c' where c': "canonicalRow fmt ?l' = Inr c'" by blast
  have fields: "lk_prevHash ?l' = lk_prevHash ?l" "lk_rowHash ?l' = lk_rowHash ?l" "row_id ?l' = rw_id row"
    by (simp_all add: toLink_def altered_row_def)
  have "num_rat (js_plus_one (rw_latency_ms row)) \<noteq> num_rat (rw_latency_ms row)"
    using t(3) by (auto simp: js_plus_one_def is_finite_num_def num_rat_def split: js_num.splits)
  then have "row_content ?l' \<noteq> row_content ?l"
    by (simp add: row_content_def toLink_def altered_row_def audit_row.defs)
  from edited_row_reported [OF env verified _ fields(1,2) this c c' collision [OF c c']]
  obtain b where b: "verifyChain sha fmt ?tn (map toLink (us @ altered_row row # vs)) =
      Inr \<lparr>res_valid = False, res_checked = length us, res_break = Some b\<rparr>"
    "brk_reason b = Row_hash_mismatch" "brk_id b = rw_id row"
    using fields(3) by auto
  with verifyTenantChain_walk [OF dist, of None sha fmt] show ?thesis
    unfolding rows' by (simp add: tenant_report_def Let_def)
qed

section \<open>Properties\<close>

text \<open>The tamper check on a table in which sequence numbers are unique: the row it looks for, the two
  updates and the outcome after whichever queries are answered.\<close>

lemma seq_unique:
  "distinct (map rw_seq rows) \<Longrightarrow> row \<in> set rows \<Longrightarrow> r \<in> set rows \<Longrightarrow> rw_seq r = rw_seq row \<Longrightarrow> r = row"
  by (auto simp: distinct_map inj_on_def)

lemma find_seq:
  assumes "distinct (map rw_seq rows)" and "row \<in> set rows"
  shows "List.find (\<lambda>r. rw_seq r = rw_seq row) rows = Some row"
proof (cases "List.find (\<lambda>r. rw_seq r = rw_seq row) rows")
  case None
  with assms(2) show ?thesis by (metis (mono_tags, lifting) find_None_iff)
next
  case (Some r)
  from find_Some_in_set [OF Some] have "r \<in> set rows" "rw_seq r = rw_seq row" by simp_all
  from seq_unique [OF assms this] Some show ?thesis by simp
qed

lemma update_altered:
  assumes "distinct (map rw_seq (db_events db))" and "row \<in> set (db_events db)" and "\<not> refuses (altered_row row)"
  shows "update_latency refuses a (int (rw_seq row)) (js_plus_one (rw_latency_ms row)) \<lparr>gd_tables = db, gd_guard = False\<rparr> =
    (if a then Inr \<lparr>gd_tables = set_latency (int (rw_seq row)) (js_plus_one (rw_latency_ms row)) db, gd_guard = False\<rparr>
     else Inl Query_failed)"
proof -
  let ?alt = "set_latency (int (rw_seq row)) (js_plus_one (rw_latency_ms row)) db"
  have "\<not> (\<exists>r \<in> set (db_events ?alt). int (rw_seq r) = int (rw_seq row) \<and> refuses r)"
    using seq_unique [OF assms(1,2)] assms(3) by (auto simp: set_latency_def altered_row_def)
  then show ?thesis by (auto simp: update_latency_def)
qed

lemma update_restored:
  assumes "distinct (map rw_seq (db_events db))" and "row \<in> set (db_events db)" and "\<not> refuses row"
  shows "update_latency refuses a (int (rw_seq row)) (rw_latency_ms row)
      \<lparr>gd_tables = set_latency (int (rw_seq row)) (js_plus_one (rw_latency_ms row)) db, gd_guard = False\<rparr> =
    (if a then Inr \<lparr>gd_tables = db, gd_guard = False\<rparr> else Inl Query_failed)"
proof -
  have "\<not> (\<exists>r \<in> set (db_events db). int (rw_seq r) = int (rw_seq row) \<and> refuses r)"
    using seq_unique [OF assms(1,2)] assms(3) by auto
  then show ?thesis using set_latency_own [OF assms(1,2) refl] by (auto simp: update_latency_def)
qed

lemma tamper_run:
  assumes dist: "distinct (map rw_seq (db_events db))" and row: "row \<in> set (db_events db)"
    and "\<not> refuses row" and "\<not> refuses (altered_row row)"
    and "verifyTenantChain sha fmt db (rw_tenant_id row) None = Inr cv"
    and "verifyTenantChain sha fmt (set_latency (int (rw_seq row)) (js_plus_one (rw_latency_ms row)) db)
      (rw_tenant_id row) None = Inr cv'"
  shows "runTamperCheck sha fmt refuses answers (int (rw_seq row)) \<lparr>gd_tables = db, gd_guard = True\<rparr> =
    (\<lparr>gd_tables =
        (if answers 0 \<and> answers 1 \<and> answers 2 \<and> answers 3 \<and> \<not> (answers 4 \<and> answers 5)
         then set_latency (int (rw_seq row)) (js_plus_one (rw_latency_ms row)) db else db),
      gd_guard = (\<not> (answers 0 \<and> answers 1 \<and> answers 2) \<or> answers 7)\<rparr>,
     if list_all answers [0..<8]
     then Inr (Tampered \<lparr>tr_before = cv, tr_after = cv', tr_restored = cv\<rparr>) else Inl Query_failed)"
proof -
  have eight: "list_all answers [0..<8] \<longleftrightarrow> answers 0 \<and> answers 1 \<and> answers 2 \<and> answers 3 \<and>
      answers 4 \<and> answers 5 \<and> answers 6 \<and> answers 7"
    by (simp add: upt_rec numeral_eq_Suc)
  show ?thesis
    unfolding runTamperCheck_def tamper_steps_def check_chain_def eight
    by (cases "answers 0"; cases "answers 1"; cases "answers 2"; cases "answers 3"; cases "answers 4")
      (simp_all add: find_seq [OF dist row] update_altered [of db row refuses, OF dist row assms(4)]
        update_restored [of db row refuses, OF dist row assms(3)] assms(5,6))
qed


definition nine_db :: audit_db where
  "nine_db = fst (audit_append len_digest ratio_fmt (\<lambda>_. False) (\<lambda>_. False) False ''e1'' (Some 0)
     (demo_input\<lparr>in_latencyMs := JFin 9\<rparr>) empty_audit_db)"

lemma nine_db_reachable: "audit_reachable len_digest ratio_fmt nine_db"
  unfolding nine_db_def by (intro audit_reachable.intros)

definition demo_guarded :: guarded_db where
  "demo_guarded = \<lparr>gd_tables = nine_db, gd_guard = True\<rparr>"

lemma demo_altered_texts:
  assumes "canonicalRow ratio_fmt (toLink (hd (db_events nine_db))) = Inr c"
    and "canonicalRow ratio_fmt (toLink (altered_row (hd (db_events nine_db)))) = Inr c'"
  shows "inj_on len_digest {lk_prevHash (toLink (hd (db_events nine_db))) @ c,
    lk_prevHash (toLink (hd (db_events nine_db))) @ c'}"
proof -
  let ?r = "hd (db_events nine_db)"
  have "distinct (map len_digest [lk_prevHash (toLink ?r) @ projr (canonicalRow ratio_fmt (toLink ?r)),
      lk_prevHash (toLink ?r) @ projr (canonicalRow ratio_fmt (toLink (altered_row ?r)))])"
    by code_simp
  from inj_on_distinct [OF this] assms show ?thesis by simp
qed


text \<open>The exit code of a check without \<open>--corrupt-row\<close>: nothing is changed, and it is 0 exactly when
  the database answers and every verification that was made reports its chain valid.\<close>

lemma verify_each_valid:
  "(\<And>tn. tn \<in> set tns \<Longrightarrow> \<exists>cv. verifyTenantChain sha fmt db tn batch = Inr cv \<and> cv_valid cv) \<Longrightarrow>
     \<exists>cvs. verify_each sha fmt db batch tns = Inr cvs \<and> list_all cv_valid cvs"
proof (induction tns)
  case (Cons tn tns)
  from Cons.prems [of tn] obtain cv where "verifyTenantChain sha fmt db tn batch = Inr cv" "cv_valid cv"
    by auto
  with Cons show ?case by fastforce
qed simp

lemma check_exit_code:
  assumes "co_corruptRow (parseArgs argv) = None"
  shows "fst (check_main sha fmt refuses answers argv g) = g"
    and "snd (snd (check_main sha fmt refuses answers argv g)) = 0 \<longleftrightarrow>
      (\<exists>cvs. fst (snd (check_main sha fmt refuses answers argv g)) = Chains cvs \<and> list_all cv_valid cvs)"
  using assms by (auto simp: check_main_def Let_def split: sum.split)

lemma check_exit_appended:
  assumes "digest_env (sha, fmt)" "audit_reachable sha fmt (gd_tables g)"
    and "co_corruptRow (parseArgs argv) = None"
  shows "snd (snd (check_main sha fmt refuses answers argv g)) = (if answers 0 then 0 else 1)"
proof -
  have valid: "\<exists>cv. verifyTenantChain sha fmt (gd_tables g) tn None = Inr cv \<and> cv_valid cv" for tn
    using appended_log_report [OF assms(1) audit_reachable_ok [OF assms(2,1)], of None tn]
    by (simp add: Let_def)
  show ?thesis
  proof (cases "answers 0")
    case True
    obtain cv where cv: "verifyTenantChain sha fmt (gd_tables g) (the (co_tenant (parseArgs argv))) None = Inr cv"
      "cv_valid cv" using valid by blast
    obtain cvs where "verifyAllChains sha fmt (gd_tables g) None = Inr cvs" "list_all cv_valid cvs"
      using verify_each_valid valid unfolding verifyAllChains_def by blast
    with True cv assms(3) show ?thesis
      by (simp add: check_main_def verify_chains_def check_chain_def Let_def)
  next
    case False
    with assms(3) show ?thesis
      by (simp add: check_main_def verify_chains_def check_chain_def Let_def)
  qed
qed

end
