(* ===== verification/Demo_Random.thy ===== *)
theory Demo_Random
  imports Js_Value "HOL-Library.Word" "HOL-Library.State_Monad"
begin

unbundle bit_operations_syntax

text \<open>
  The generator of pseudo-random numbers that the demonstration data is drawn from
  (\<open>createRandom\<close> of \<open>scripts/seed.ts\<close> and \<open>apps/mcp-servers/salesforce/fixtures/generate.ts\<close>, the same
  text in both): mulberry32, with the draws built on it.

  The bitwise operations and \<open>Math.imul\<close> of the source are those of 32-bit words. \<open>fl\<close> is the rounding
  of double arithmetic.
\<close>

section \<open>mulberry32\<close>

type_synonym 'a draw = "(32 word, 'a) state"

definition mulberry32 :: "32 word \<Rightarrow> 32 word" where
  "mulberry32 s =
     (let t = (s XOR drop_bit 15 s) * (s OR 1);
          t' = t XOR (t + (t XOR drop_bit 7 t) * (t OR 61))
      in t' XOR drop_bit 14 t')"

definition random :: "rat draw" where
  "random = State (\<lambda>state.
     let s = state + 0x6d2b79f5 in (of_int (uint (mulberry32 s)) / 4294967296, s))"

definition pick :: "'a list \<Rightarrow> 'a draw" where
  "pick items = do { r \<leftarrow> random; State_Monad.return (items ! nat \<lfloor>r * of_nat (length items)\<rfloor>) }"

definition between :: "(rat \<Rightarrow> rat) \<Rightarrow> rat \<Rightarrow> rat \<Rightarrow> rat draw" where
  "between fl lo hi = do { r \<leftarrow> random; State_Monad.return (fl (lo + fl (r * fl (hi - lo)))) }"

definition intBetween :: "(rat \<Rightarrow> rat) \<Rightarrow> int \<Rightarrow> int \<Rightarrow> int draw" where
  "intBetween fl lo hi = do { q \<leftarrow> between fl (of_int lo) (of_int (hi + 1)); State_Monad.return \<lfloor>q\<rfloor> }"

section \<open>Every result of a draw\<close>

text \<open>\<open>pred_state P m\<close>: whatever state \<open>m\<close> is run in, its result satisfies \<open>P\<close>.\<close>

lemma pred_state_iff: "pred_state P m \<longleftrightarrow> (\<forall>s. P (fst (run_state m s)))"
  by (auto dest: pred_state_run_state) (metis fst_conv pred_stateI)

lemma pred_state_return [simp]: "pred_state P (State_Monad.return x) = P x"
  by (simp add: pred_state_iff)

lemma pred_state_bind:
  assumes "pred_state Q m" and "\<And>x. Q x \<Longrightarrow> pred_state P (f x)"
  shows "pred_state P (State_Monad.bind m f)"
  using assms by (simp add: pred_state_iff State_Monad.bind_def split_beta)

lemma pred_state_bind_any:
  assumes "\<And>x. pred_state P (f x)"
  shows "pred_state P (State_Monad.bind m f)"
  using assms by (simp add: pred_state_iff State_Monad.bind_def split_beta)

lemma pred_state_mono: "pred_state P m \<Longrightarrow> (\<And>x. P x \<Longrightarrow> Q x) \<Longrightarrow> pred_state Q m"
  by (simp add: pred_state_iff)

lemma pred_state_traverse:
  assumes "\<And>x. x \<in> set xs \<Longrightarrow> pred_state (R x) (f x)"
  shows "pred_state (list_all2 R xs) (traverse_list f xs)"
  using assms
proof (induction xs)
  case (Cons x xs)
  then show ?case
    by (auto intro!: pred_state_bind [of "R x"] pred_state_bind [of "list_all2 R xs"])
qed simp

text \<open>A loop that carries an accumulator.\<close>

fun draw_each :: "('a \<Rightarrow> 'b \<Rightarrow> 'b draw) \<Rightarrow> 'a list \<Rightarrow> 'b \<Rightarrow> 'b draw" where
  "draw_each f [] acc = State_Monad.return acc"
| "draw_each f (x # xs) acc = do { acc' \<leftarrow> f x acc; draw_each f xs acc' }"

lemma pred_state_draw_each:
  assumes "I acc" and "\<And>x acc. x \<in> set xs \<Longrightarrow> I acc \<Longrightarrow> pred_state I (f x acc)"
  shows "pred_state I (draw_each f xs acc)"
  using assms
proof (induction xs arbitrary: acc)
  case (Cons x xs)
  then show ?case by (auto intro!: pred_state_bind [of I])
qed simp

lemma random_range:
  "pred_state (\<lambda>r. \<exists>u::int. 0 \<le> u \<and> u < 4294967296 \<and> r = of_int u / 4294967296) random"
  unfolding pred_state_iff
proof
  fix s
  let ?u = "uint (mulberry32 (s + 0x6d2b79f5))"
  have "0 \<le> ?u" "?u < 4294967296" using uint_lt2p [of "mulberry32 (s + 0x6d2b79f5)"] by simp_all
  moreover have "fst (run_state random s) = of_int ?u / 4294967296" by (simp add: random_def Let_def)
  ultimately show "\<exists>u::int. 0 \<le> u \<and> u < 4294967296 \<and> fst (run_state random s) = of_int u / 4294967296"
    by blast
qed

text \<open>A draw never reads outside its list.\<close>

lemma pick_member:
  assumes "items \<noteq> []"
  shows "pred_state (\<lambda>x. x \<in> set items) (pick items)"
  unfolding pick_def
proof (rule pred_state_bind [OF random_range], elim exE conjE)
  fix r :: rat and u :: int
  assume u: "0 \<le> u" "u < 4294967296" and r: "r = of_int u / 4294967296"
  let ?n = "int (length items)"
  have "u * ?n < 4294967296 * ?n" using u assms by (intro mult_strict_right_mono) auto
  then have "(of_int (u * ?n) :: rat) < of_int (4294967296 * ?n)" by (simp only: of_int_less_iff)
  then have "of_int u * of_nat (length items) / (4294967296 :: rat) < of_nat (length items)"
    by (simp add: field_simps)
  then have "\<lfloor>of_int u * of_nat (length items) / (4294967296 :: rat)\<rfloor> < ?n"
    by (simp add: floor_less_iff)
  then have "items ! nat \<lfloor>of_int u * of_nat (length items) / (4294967296 :: rat)\<rfloor> \<in> set items"
    using u(1) by (intro nth_mem) (simp add: nat_less_iff)
  then show "pred_state (\<lambda>x. x \<in> set items)
      (State_Monad.return (items ! nat \<lfloor>r * of_nat (length items)\<rfloor>))"
    by (simp add: r)
qed

text \<open>Rounding to a double keeps order, and a double.\<close>

definition double_rounding :: "(rat \<Rightarrow> rat) \<Rightarrow> bool" where
  "double_rounding fl \<longleftrightarrow> (\<forall>p q. p \<le> q \<longrightarrow> fl p \<le> fl q) \<and>
     (\<forall>n e. \<bar>n\<bar> \<le> 2 ^ 53 \<longrightarrow> e \<le> (1000 :: nat) \<longrightarrow> fl (of_int n / 2 ^ e) = of_int n / 2 ^ e)"

lemma between_range:
  assumes "double_rounding fl" and "lo \<le> hi" and "\<bar>lo\<bar> \<le> 2 ^ 53" "\<bar>hi\<bar> \<le> 2 ^ 53" and "hi - lo \<le> 2 ^ 53"
  shows "pred_state (\<lambda>q. of_int lo \<le> q \<and> q \<le> of_int hi) (between fl (of_int lo) (of_int hi))"
  unfolding between_def
proof (rule pred_state_bind [OF random_range], elim exE conjE)
  fix r :: rat and u :: int
  assume u: "0 \<le> u" "u < 4294967296" and r: "r = of_int u / 4294967296"
  have exact: "fl (of_int n) = of_int n" if "\<bar>n\<bar> \<le> 2 ^ 53" for n
    using assms(1) that unfolding double_rounding_def by (metis div_by_1 power_0 zero_le)
  have mono: "p \<le> q \<Longrightarrow> fl p \<le> fl q" for p q using assms(1) by (simp add: double_rounding_def)
  have range: "fl (of_int hi - of_int lo) = of_int hi - of_int lo"
    using exact [of "hi - lo"] assms(2,5) by simp
  let ?x = "of_int u * (of_int hi - of_int lo) / (4294967296 :: rat)"
  have d: "0 \<le> (of_int hi - of_int lo :: rat)" using assms(2) by simp
  have "(of_int u :: rat) \<le> of_int 4294967296" using u(2) by (simp only: of_int_le_iff)
  then have "of_int u * (of_int hi - of_int lo) \<le> (4294967296 :: rat) * (of_int hi - of_int lo)"
    using d by (intro mult_right_mono) simp_all
  then have x: "0 \<le> ?x" "?x \<le> of_int (hi - lo)" using u(1) d by simp_all
  have "fl 0 \<le> fl ?x" "fl ?x \<le> fl (of_int (hi - lo))" using mono x by blast+
  then have y: "0 \<le> fl ?x" "fl ?x \<le> of_int (hi - lo)"
    using exact [of 0] exact [of "hi - lo"] assms(2,5) by simp_all
  have "fl (of_int lo) \<le> fl (of_int lo + fl ?x)" "fl (of_int lo + fl ?x) \<le> fl (of_int hi)"
    using y by (intro mono; simp)+
  then show "pred_state (\<lambda>q. of_int lo \<le> q \<and> q \<le> of_int hi)
      (State_Monad.return (fl (of_int lo + fl (r * fl (of_int hi - of_int lo)))))"
    using exact assms(3,4) by (simp add: r range)
qed

lemma intBetween_range:
  assumes "double_rounding fl" and "lo \<le> hi" and "\<bar>lo\<bar> \<le> 2 ^ 20" "\<bar>hi + 1\<bar> \<le> 2 ^ 20"
  shows "pred_state (\<lambda>k. lo \<le> k \<and> k \<le> hi) (intBetween fl lo hi)"
proof -
  let ?d = "hi + 1 - lo"
  have bounds: "lo \<le> \<lfloor>fl (of_int lo + fl (of_int u / 4294967296 * fl (of_int (hi + 1) - of_int lo)))\<rfloor> \<and>
      \<lfloor>fl (of_int lo + fl (of_int u / 4294967296 * fl (of_int (hi + 1) - of_int lo)))\<rfloor> \<le> hi"
    if u: "0 \<le> u" "u < 4294967296" for u
  proof -
    have exact: "fl (of_int n / 4294967296) = of_int n / 4294967296" if "\<bar>n\<bar> \<le> 2 ^ 53" for n
    proof -
      from assms(1) have "\<And>n e. \<bar>n\<bar> \<le> 2 ^ 53 \<Longrightarrow> e \<le> (1000 :: nat) \<Longrightarrow> fl (of_int n / 2 ^ e) = of_int n / 2 ^ e"
        by (simp add: double_rounding_def)
      from this [OF that, of 32] show ?thesis by simp
    qed
    have d: "0 < ?d" "?d \<le> 2097152" using assms(2-4) by simp_all
    have ud: "0 \<le> u * ?d" "u * ?d < 4294967296 * ?d"
      using mult_strict_right_mono [OF u(2) d(1)] u(1) d(1) by simp_all
    from assms(1) have "\<And>n e. \<bar>n\<bar> \<le> 2 ^ 53 \<Longrightarrow> e \<le> (1000 :: nat) \<Longrightarrow> fl (of_int n / 2 ^ e) = of_int n / 2 ^ e"
      by (simp add: double_rounding_def)
    from this [of ?d 0] d have range: "fl (of_int (hi + 1) - of_int lo) = of_int ?d"
      by (simp only: of_int_diff power_0 div_by_1 zero_le simp_thms) simp
    have "\<bar>u * ?d\<bar> \<le> 2 ^ 53" using ud d by simp
    from exact [OF this] have inner: "fl (of_int u / 4294967296 * fl (of_int (hi + 1) - of_int lo)) =
        of_int (u * ?d) / 4294967296" by (simp only: range) simp
    have "\<bar>lo * 4294967296 + u * ?d\<bar> \<le> 2 ^ 53"
      using ud assms(2-4) unfolding abs_le_iff power_numeral by (simp add: algebra_simps)
    from exact [OF this] have outer: "fl (of_int lo + of_int (u * ?d) / 4294967296) =
        of_int (lo * 4294967296 + u * ?d) / of_int 4294967296"
      by (simp add: add_divide_distrib)
    have "\<lfloor>of_int (lo * 4294967296 + u * ?d) / (of_int 4294967296 :: rat)\<rfloor> =
        (lo * 4294967296 + u * ?d) div 4294967296"
      by (rule floor_divide_of_int_eq)
    also have "\<dots> = lo + u * ?d div 4294967296" by simp
    finally have "\<lfloor>fl (of_int lo + fl (of_int u / 4294967296 * fl (of_int (hi + 1) - of_int lo)))\<rfloor> =
        lo + u * ?d div 4294967296" by (simp only: inner outer)
    moreover have "0 \<le> u * ?d div 4294967296" "u * ?d div 4294967296 < ?d"
      using ud by (simp_all add: div_less_iff_less_mult mult.commute pos_imp_zdiv_nonneg_iff)
    ultimately show ?thesis by linarith
  qed
  show ?thesis
    unfolding intBetween_def between_def State_Monad.bind_assoc State_Monad.bind_left_identity
    by (rule pred_state_bind [OF random_range], elim exE conjE)
      (simp only: pred_state_return bounds)
qed

section \<open>The period\<close>

text \<open>The state returns to the seed after \<open>2^32\<close> draws and not before.\<close>

fun states :: "nat \<Rightarrow> 32 word \<Rightarrow> 32 word" where
  "states 0 s = s"
| "states (Suc n) s = states n (snd (run_state random s))"

lemma states_linear: "states n s = s + of_nat n * 0x6d2b79f5"
  by (induction n arbitrary: s) (simp_all add: random_def Let_def algebra_simps)

lemma states_distinct:
  assumes "m < 2 ^ 32" "n < 2 ^ 32" "states m s = states n s"
  shows "m = n"
proof -
  have inverse: "(0x6d2b79f5 :: 32 word) * 0xdc58aa5d = 1" by simp
  from assms(3) have "of_nat m * (0x6d2b79f5 :: 32 word) = of_nat n * 0x6d2b79f5"
    by (simp add: states_linear)
  then have "of_nat m * ((0x6d2b79f5 :: 32 word) * 0xdc58aa5d) = of_nat n * (0x6d2b79f5 * 0xdc58aa5d)"
    by (simp only: mult.assoc [symmetric])
  then have "(of_nat m :: 32 word) = of_nat n" by (simp only: inverse mult_1_right)
  then have "unat (of_nat m :: 32 word) = unat (of_nat n :: 32 word)" by simp
  with assms(1,2) show ?thesis by (simp add: unat_of_nat)
qed

end
