(* ===== verification/Fixtures.thy ===== *)
theory Fixtures
  imports Crm Iso_Date Demo_Random
begin

text \<open>
  The generator of the CRM data set (\<open>apps/mcp-servers/salesforce/fixtures/generate.ts\<close>), whose output
  is the data that \<open>dataset.ts\<close> loads.

  \<open>fl\<close> is the rounding of double arithmetic, \<open>dash\<close> the em dash in the name of an opportunity (a unit
  outside the model's alphabet). Writing the files is not modelled.
\<close>

section \<open>Plans and vocabulary\<close>

definition SEED :: "32 word" where
  "SEED = 0x5f3a71c9"

record owner =
  ow_id :: string
  ow_territory :: string

record tenant_plan =
  tp_tenantId :: string
  tp_owners :: "owner list"
  tp_accounts :: nat
  tp_contacts :: nat
  tp_opportunities :: nat

definition owner_of :: "string \<Rightarrow> string \<Rightarrow> owner" where
  "owner_of i territory = \<lparr>ow_id = i, ow_territory = territory\<rparr>"

definition TENANTS :: "tenant_plan list" where
  "TENANTS =
     [\<lparr>tp_tenantId = ''acme-corp'',
       tp_owners = [owner_of ''usr_alice'' ''West'', owner_of ''usr_bob'' ''West'',
         owner_of ''usr_priya'' ''East'', owner_of ''usr_evan'' ''East''],
       tp_accounts = 50, tp_contacts = 250, tp_opportunities = 100\<rparr>,
      \<lparr>tp_tenantId = ''globex'',
       tp_owners = [owner_of ''usr_grace'' ''North'', owner_of ''usr_hugo'' ''North'',
         owner_of ''usr_jonah'' ''South''],
       tp_accounts = 30, tp_contacts = 150, tp_opportunities = 60\<rparr>,
      \<lparr>tp_tenantId = ''initech'',
       tp_owners = [owner_of ''usr_karen'' ''Central'', owner_of ''usr_liam'' ''Central'',
         owner_of ''usr_mia'' ''Central''],
       tp_accounts = 20, tp_contacts = 100, tp_opportunities = 40\<rparr>]"

definition INDUSTRIES :: "string list" where
  "INDUSTRIES = [''Manufacturing'', ''Financial Services'', ''Healthcare'', ''Retail'', ''Technology'',
     ''Energy'', ''Logistics'', ''Public Sector'']"

definition ACCOUNT_PREFIXES :: "string list" where
  "ACCOUNT_PREFIXES = [''Northwind'', ''Vertex'', ''Blue Harbor'', ''Ridgeline'', ''Cascade'', ''Ironwood'',
     ''Meridian'', ''Solstice'', ''Kestrel'', ''Foundry'', ''Lantern'', ''Cobalt'', ''Anvil'', ''Harborview'',
     ''Pinnacle'', ''Silverbrook'', ''Fairwater'', ''Greystone'', ''Copperfield'', ''Eastgate'']"

definition ACCOUNT_SUFFIXES :: "string list" where
  "ACCOUNT_SUFFIXES = [''Industries'', ''Group'', ''Holdings'', ''Systems'', ''Partners'', ''Logistics'',
     ''Analytics'', ''Health'', ''Energy'', ''Labs'']"

definition FIRST_NAMES :: "string list" where
  "FIRST_NAMES = [''Amara'', ''Noah'', ''Sofia'', ''Liam'', ''Yuki'', ''Mateo'', ''Ingrid'', ''Omar'', ''Zara'',
     ''Felix'', ''Nadia'', ''Tomas'', ''Leila'', ''Arjun'', ''Elena'', ''Kofi'', ''Maja'', ''Rafael'', ''Anika'',
     ''Dmitri'', ''Clara'', ''Hassan'', ''Beatriz'', ''Jonas'', ''Mei'', ''Owen'', ''Saoirse'', ''Andre'', ''Freya'',
     ''Idris'']"

definition LAST_NAMES :: "string list" where
  "LAST_NAMES = [''Okafor'', ''Lindqvist'', ''Moreau'', ''Tanaka'', ''Rossi'', ''Haddad'', ''Novak'', ''Delgado'',
     ''Fischer'', ''Bergstrom'', ''Kowalski'', ''Ferreira'', ''Nakamura'', ''Alvarez'', ''Petrov'', ''Sinclair'',
     ''Dubois'', ''Vargas'', ''Larsen'', ''Mensah'', ''Castellano'', ''Bianchi'', ''Rahman'', ''Sorensen'',
     ''Whitfield'']"

definition TITLES :: "string list" where
  "TITLES = [''Head of Operations'', ''VP Finance'', ''Procurement Lead'', ''Director of IT'',
     ''Chief Operating Officer'', ''Supply Chain Manager'', ''Plant Manager'', ''Head of Data'',
     ''Commercial Director'', ''Facilities Lead'']"

definition STAGES :: "string list" where
  "STAGES = [''Prospecting'', ''Qualification'', ''Needs Analysis'', ''Proposal'', ''Negotiation'',
     ''Closed Won'', ''Closed Lost'']"

definition STAGE_PROBABILITY :: "(string \<times> int) list" where
  "STAGE_PROBABILITY = [(''Prospecting'', 10), (''Qualification'', 25), (''Needs Analysis'', 40),
     (''Proposal'', 60), (''Negotiation'', 80), (''Closed Won'', 100), (''Closed Lost'', 0)]"

definition SEGMENTS :: "string list" where
  "SEGMENTS = [''Enterprise'', ''Mid-Market'', ''SMB'']"

definition CITIES :: "(string \<times> string list) list" where
  "CITIES =
     [(''West'', [''San Francisco'', ''Seattle'', ''Portland'', ''Denver'', ''Phoenix'']),
      (''East'', [''Boston'', ''New York'', ''Philadelphia'', ''Atlanta'', ''Miami'']),
      (''North'', [''Toronto'', ''Minneapolis'', ''Chicago'', ''Detroit'', ''Montreal'']),
      (''South'', [''Austin'', ''Houston'', ''Nashville'', ''Charlotte'', ''New Orleans'']),
      (''Central'', [''Kansas City'', ''St. Louis'', ''Omaha'', ''Tulsa'', ''Des Moines''])]"

section \<open>Identifiers, days and the season\<close>

text \<open>\<open>index.toString(36).toUpperCase()\<close>.\<close>

definition digit36 :: "nat \<Rightarrow> char" where
  "digit36 d = (if d < 10 then digit_char d else char_of (55 + d))"

fun radix36 :: "nat \<Rightarrow> string" where
  "radix36 n = (if n < 36 then [digit36 n] else radix36 (n div 36) @ [digit36 (n mod 36)])"

definition salesforceId :: "string \<Rightarrow> nat \<Rightarrow> string" where
  "salesforceId p index =
     (let s = radix36 index in p @ replicate (12 - length s) (CHR ''0'') @ s)"

definition isoDay :: "int \<Rightarrow> string" where
  "isoDay offsetDays = take 10 (iso_string (1767225600000 + offsetDays * 86400000))"

definition seasonalMultiplier :: "(rat \<Rightarrow> rat) \<Rightarrow> int \<Rightarrow> rat draw" where
  "seasonalMultiplier fl dayOfYear =
     (let monthIndex = \<lfloor>fl (of_int (dayOfYear mod 365) / fl (304 / 10))\<rfloor>;
          quarterEnd = (monthIndex mod 3 = 2)
      in if quarterEnd then between fl (fl (13 / 10)) (fl (19 / 10))
         else between fl (fl (7 / 10)) (fl (115 / 100)))"

section \<open>The records\<close>

definition gen_account :: "(rat \<Rightarrow> rat) \<Rightarrow> tenant_plan \<Rightarrow> nat \<Rightarrow> nat \<Rightarrow> crm_record draw" where
  "gen_account fl tenant sq i = do {
     let owner = tp_owners tenant ! (i mod length (tp_owners tenant));
     first \<leftarrow> pick ACCOUNT_PREFIXES;
     second \<leftarrow> pick ACCOUNT_SUFFIXES;
     segment \<leftarrow> pick SEGMENTS;
     industry \<leftarrow> pick INDUSTRIES;
     revenue \<leftarrow> (if segment = ''Enterprise'' then between fl 250000000 4000000000
                 else if segment = ''Mid-Market'' then between fl 25000000 250000000
                 else between fl 1000000 25000000);
     employees \<leftarrow> intBetween fl 20 25000;
     city \<leftarrow> pick (or_default (map_of CITIES (ow_territory owner)) [''Springfield'']);
     age \<leftarrow> intBetween fl 200 1400;
     State_Monad.return
       [(''Id'', JStr (salesforceId ''001'' (sq + i))), (''TenantId'', JStr (tp_tenantId tenant)),
        (''Name'', JStr (first @ '' '' @ second)), (''Industry'', JStr industry),
        (''Territory'', JStr (ow_territory owner)), (''OwnerId'', JStr (ow_id owner)),
        (''AnnualRevenue'', jint (js_round revenue)), (''NumberOfEmployees'', jint employees),
        (''Segment'', JStr segment), (''BillingCity'', JStr city), (''CreatedDate'', JStr (isoDay (- age)))]
   }"

text \<open>\<open>name.toLowerCase().replace(/[^a-z]+/g, '') || 'example'\<close>.\<close>

definition mail_domain :: "string \<Rightarrow> string" where
  "mail_domain name =
     (let d = filter (\<lambda>c. 97 \<le> code c \<and> code c \<le> 122) (to_lower name) in if d = [] then ''example'' else d)"

definition gen_contact ::
    "(rat \<Rightarrow> rat) \<Rightarrow> tenant_plan \<Rightarrow> crm_record list \<Rightarrow> nat \<Rightarrow> nat \<Rightarrow> crm_record draw" where
  "gen_contact fl tenant tenantAccounts sq i = do {
     let account = tenantAccounts ! (i mod length tenantAccounts);
     firstName \<leftarrow> pick FIRST_NAMES;
     lastName \<leftarrow> pick LAST_NAMES;
     area \<leftarrow> intBetween fl 200 989;
     exchange \<leftarrow> intBetween fl 200 999;
     line \<leftarrow> intBetween fl 0 9999;
     title \<leftarrow> pick TITLES;
     age \<leftarrow> intBetween fl 30 900;
     State_Monad.return
       [(''Id'', JStr (salesforceId ''003'' (sq + i))), (''TenantId'', JStr (tp_tenantId tenant)),
        (''AccountId'', own_prop account ''Id''), (''FirstName'', JStr firstName),
        (''LastName'', JStr lastName), (''Name'', JStr (firstName @ '' '' @ lastName)),
        (''Email'', JStr (concat [to_lower firstName, ''.'', to_lower lastName, ''@'',
           mail_domain (text_of account ''Name''), ''.example''])),
        (''Phone'', JStr (concat [''+1-'', int_str area, ''-'', int_str exchange, ''-'', pad 4 (nat line)])),
        (''Title'', JStr title), (''Territory'', own_prop account ''Territory''),
        (''OwnerId'', own_prop account ''OwnerId''), (''CreatedDate'', JStr (isoDay (- age)))]
   }"

definition forecast :: "string \<Rightarrow> string" where
  "forecast stage =
     (if stage = ''Closed Won'' then ''Closed''
      else if stage = ''Closed Lost'' then ''Omitted''
      else if 60 \<le> or_default (map_of STAGE_PROBABILITY stage) 0 then ''Commit'' else ''Pipeline'')"

definition gen_opportunity ::
    "(rat \<Rightarrow> rat) \<Rightarrow> string \<Rightarrow> tenant_plan \<Rightarrow> crm_record list \<Rightarrow> nat \<Rightarrow> nat \<Rightarrow> crm_record draw" where
  "gen_opportunity fl dash tenant tenantAccounts sq i = do {
     let account = tenantAccounts ! (i mod length tenantAccounts);
     stage \<leftarrow> pick STAGES;
     closeOffset \<leftarrow> intBetween fl (-120) 180;
     value \<leftarrow> between fl 15000
       (if own_prop account ''Segment'' = JStr ''Enterprise'' then 1200000 else 220000);
     season \<leftarrow> seasonalMultiplier fl \<bar>closeOffset\<bar>;
     kind \<leftarrow> pick [''Renewal'', ''Expansion'', ''New Business'', ''Upgrade'', ''Pilot''];
     lead \<leftarrow> intBetween fl 30 210;
     State_Monad.return
       [(''Id'', JStr (salesforceId ''006'' (sq + i))), (''TenantId'', JStr (tp_tenantId tenant)),
        (''AccountId'', own_prop account ''Id''),
        (''Name'', JStr (concat [text_of account ''Name'', '' '', dash, '' '', kind, '' '',
           int_str (2026 + closeOffset div 365)])),
        (''StageName'', JStr stage), (''Amount'', jint (js_round (fl (value * season)))),
        (''Probability'', jint (or_default (map_of STAGE_PROBABILITY stage) 50)),
        (''CloseDate'', JStr (isoDay closeOffset)), (''Territory'', own_prop account ''Territory''),
        (''OwnerId'', own_prop account ''OwnerId''), (''ForecastCategory'', JStr (forecast stage)),
        (''CreatedDate'', JStr (isoDay (closeOffset - lead)))]
   }"

text \<open>The loop over the tenants; the counters of the source are one more than the records so far.\<close>

definition gen_tenant :: "(rat \<Rightarrow> rat) \<Rightarrow> string \<Rightarrow> tenant_plan \<Rightarrow> crm \<Rightarrow> crm draw" where
  "gen_tenant fl dash tenant d = do {
     tenantAccounts \<leftarrow> traverse_list (gen_account fl tenant (length (cr_accounts d) + 1))
       [0..<tp_accounts tenant];
     contacts \<leftarrow> traverse_list (gen_contact fl tenant tenantAccounts (length (cr_contacts d) + 1))
       [0..<tp_contacts tenant];
     opportunities \<leftarrow> traverse_list
       (gen_opportunity fl dash tenant tenantAccounts (length (cr_opportunities d) + 1))
       [0..<tp_opportunities tenant];
     State_Monad.return (d\<lparr>cr_accounts := cr_accounts d @ tenantAccounts,
       cr_contacts := cr_contacts d @ contacts,
       cr_opportunities := cr_opportunities d @ opportunities\<rparr>)
   }"

definition generate :: "(rat \<Rightarrow> rat) \<Rightarrow> string \<Rightarrow> crm draw" where
  "generate fl dash = draw_each (gen_tenant fl dash) TENANTS
     \<lparr>cr_accounts = [], cr_contacts = [], cr_opportunities = [], cr_tasks = []\<rparr>"

text \<open>The data set that \<open>main\<close> writes.\<close>

definition fixtures :: "(rat \<Rightarrow> rat) \<Rightarrow> string \<Rightarrow> crm" where
  "fixtures fl dash = fst (run_state (generate fl dash) SEED)"

section \<open>Identifiers differ\<close>

declare radix36.simps [simp del]

definition value36 :: "string \<Rightarrow> nat" where
  "value36 s = foldl (\<lambda>n c. 36 * n + (if is_digit c then code c - 48 else code c - 55)) 0 s"

lemma value36_radix36: "value36 (replicate k (CHR ''0'') @ radix36 n) = n"
proof (induction n rule: radix36.induct)
  case (1 n)
  have zeros: "value36 (replicate k (CHR ''0'') @ s) = value36 s" for s
    by (induction k) (simp_all add: value36_def is_digit_def code_def)
  have digit: "(if is_digit (digit36 d) then code (digit36 d) - 48 else code (digit36 d) - 55) = d"
    if "d < 36" for d
    using that by (auto simp: digit36_def digit_char_def is_digit_def code_def)
  show ?case
  proof (cases "n < 36")
    case True
    then show ?thesis using digit [of n] unfolding zeros by (subst radix36.simps) (simp add: value36_def)
  next
    case False
    then have "value36 (radix36 (n div 36)) = n div 36" using 1 unfolding zeros by simp
    then show ?thesis
      unfolding zeros using False digit [of "n mod 36"] by (subst radix36.simps) (simp add: value36_def)
  qed
qed

lemma salesforceId_inject [simp]: "salesforceId p m = salesforceId p n \<longleftrightarrow> m = n"
proof
  assume "salesforceId p m = salesforceId p n"
  then have "replicate (12 - length (radix36 m)) (CHR ''0'') @ radix36 m =
      replicate (12 - length (radix36 n)) (CHR ''0'') @ radix36 n"
    by (simp add: salesforceId_def Let_def)
  then show "m = n" by (metis value36_radix36)
qed simp

section \<open>What every record carries\<close>

lemma own_prop_simps:
  "own_prop [] k = JUndef" "own_prop ((k', v) # r) k = (if k' = k then v else own_prop r k)"
  by (simp_all add: own_prop_def)

lemma gen_account_fields:
  "pred_state (\<lambda>r. own_prop r ''Id'' = JStr (salesforceId ''001'' (sq + i)) \<and>
     own_prop r ''TenantId'' = JStr (tp_tenantId tenant) \<and>
     own_prop r ''Territory'' = JStr (ow_territory (tp_owners tenant ! (i mod length (tp_owners tenant)))) \<and>
     own_prop r ''OwnerId'' = JStr (ow_id (tp_owners tenant ! (i mod length (tp_owners tenant)))))
   (gen_account fl tenant sq i)"
  unfolding gen_account_def Let_def
  by (intro pred_state_bind_any) (simp add: own_prop_simps)

definition follows :: "crm_record \<Rightarrow> crm_record \<Rightarrow> bool" where
  "follows a r \<longleftrightarrow> own_prop r ''AccountId'' = own_prop a ''Id'' \<and>
     own_prop r ''Territory'' = own_prop a ''Territory'' \<and> own_prop r ''OwnerId'' = own_prop a ''OwnerId''"

lemma gen_contact_fields:
  "pred_state (\<lambda>r. own_prop r ''Id'' = JStr (salesforceId ''003'' (sq + i)) \<and>
     own_prop r ''TenantId'' = JStr (tp_tenantId tenant) \<and> follows (accts ! (i mod length accts)) r)
   (gen_contact fl tenant accts sq i)"
  unfolding gen_contact_def Let_def
  by (intro pred_state_bind_any) (simp add: own_prop_simps follows_def)

lemma gen_opportunity_fields:
  "pred_state (\<lambda>r. own_prop r ''Id'' = JStr (salesforceId ''006'' (sq + i)) \<and>
     own_prop r ''TenantId'' = JStr (tp_tenantId tenant) \<and> follows (accts ! (i mod length accts)) r)
   (gen_opportunity fl dash tenant accts sq i)"
  unfolding gen_opportunity_def Let_def
  by (intro pred_state_bind_any) (simp add: own_prop_simps follows_def)

section \<open>The data set is consistent\<close>

definition numbered :: "string \<Rightarrow> crm_record list \<Rightarrow> bool" where
  "numbered p rs \<longleftrightarrow>
     map (\<lambda>r. own_prop r ''Id'') rs = map (\<lambda>i. JStr (salesforceId p i)) [1..<Suc (length rs)]"

definition has_owner :: "crm_record \<Rightarrow> bool" where
  "has_owner r \<longleftrightarrow> (\<exists>plan \<in> set TENANTS. \<exists>w \<in> set (tp_owners plan).
     own_prop r ''TenantId'' = JStr (tp_tenantId plan) \<and> own_prop r ''OwnerId'' = JStr (ow_id w) \<and>
     own_prop r ''Territory'' = JStr (ow_territory w))"

definition belongs :: "crm_record list \<Rightarrow> crm_record \<Rightarrow> bool" where
  "belongs accts r \<longleftrightarrow> (\<exists>a \<in> set accts. own_prop r ''TenantId'' = own_prop a ''TenantId'' \<and> follows a r)"

definition consistent :: "crm \<Rightarrow> bool" where
  "consistent d \<longleftrightarrow>
     numbered ''001'' (cr_accounts d) \<and> numbered ''003'' (cr_contacts d) \<and>
     numbered ''006'' (cr_opportunities d) \<and> list_all has_owner (cr_accounts d) \<and>
     list_all (belongs (cr_accounts d)) (cr_contacts d) \<and>
     list_all (belongs (cr_accounts d)) (cr_opportunities d)"

lemma numbered_append:
  assumes "numbered p rs"
    and "list_all2 (\<lambda>i r. own_prop r ''Id'' = JStr (salesforceId p (length rs + 1 + i)) \<and> P i r) [0..<n] new"
  shows "numbered p (rs @ new)"
proof -
  have new: "length new = n" "\<And>i. i < n \<Longrightarrow> own_prop (new ! i) ''Id'' = JStr (salesforceId p (length rs + 1 + i))"
    using assms(2) by (auto simp: list_all2_conv_all_nth)
  then have "map (\<lambda>r. own_prop r ''Id'') new =
      map (\<lambda>i. JStr (salesforceId p i)) [Suc (length rs)..<Suc (length rs) + n]"
    by (intro nth_equalityI) (simp_all del: upt_Suc)
  moreover have "[1..<Suc (length (rs @ new))] = [1..<Suc (length rs)] @ [Suc (length rs)..<Suc (length rs) + n]"
    using upt_add_eq_append [of 1 "Suc (length rs)" n] new(1) by simp
  ultimately show ?thesis using assms(1) by (simp only: numbered_def map_append)
qed

lemma belongs_mono: "belongs accts r \<Longrightarrow> belongs (accts @ others) r"
  by (auto simp: belongs_def)

lemma all_belong:
  assumes "list_all2 (\<lambda>i r. Q i r \<and> own_prop r ''TenantId'' = JStr tn \<and> follows (own ! (i mod length own)) r) ixs rs"
    and "own \<noteq> []" and "\<And>a. a \<in> set own \<Longrightarrow> own_prop a ''TenantId'' = JStr tn"
  shows "list_all (belongs (accts @ own)) rs"
proof -
  have "belongs (accts @ own) r" if "r \<in> set rs" for r
  proof -
    from assms(1) that obtain i where "own_prop r ''TenantId'' = JStr tn" "follows (own ! (i mod length own)) r"
      by (auto simp: list_all2_conv_all_nth in_set_conv_nth)
    moreover have "own ! (i mod length own) \<in> set own" using assms(2) by (intro nth_mem) simp
    ultimately show ?thesis using assms(3) unfolding belongs_def by (metis UnCI set_append)
  qed
  then show ?thesis by (simp add: list_all_iff)
qed

lemma gen_tenant_consistent:
  assumes "consistent d" and "tenant \<in> set TENANTS"
  shows "pred_state consistent (gen_tenant fl dash tenant d)"
proof -
  from assms(2) have plan: "tp_owners tenant \<noteq> []" "0 < tp_accounts tenant"
    by (auto simp: TENANTS_def)
  let ?acc = "\<lambda>i r. own_prop r ''Id'' = JStr (salesforceId ''001'' (length (cr_accounts d) + 1 + i)) \<and>
     own_prop r ''TenantId'' = JStr (tp_tenantId tenant) \<and>
     own_prop r ''Territory'' = JStr (ow_territory (tp_owners tenant ! (i mod length (tp_owners tenant)))) \<and>
     own_prop r ''OwnerId'' = JStr (ow_id (tp_owners tenant ! (i mod length (tp_owners tenant))))"
  show ?thesis
    unfolding gen_tenant_def
  proof (intro pred_state_bind [OF pred_state_traverse [OF gen_account_fields]]
      pred_state_bind [OF pred_state_traverse [OF gen_contact_fields]]
      pred_state_bind [OF pred_state_traverse [OF gen_opportunity_fields]], unfold pred_state_return)
    fix accts cons opps
    assume accts: "list_all2 ?acc [0..<tp_accounts tenant] accts"
      and cons: "list_all2 (\<lambda>i r. own_prop r ''Id'' = JStr (salesforceId ''003'' (length (cr_contacts d) + 1 + i)) \<and>
        own_prop r ''TenantId'' = JStr (tp_tenantId tenant) \<and> follows (accts ! (i mod length accts)) r)
        [0..<tp_contacts tenant] cons"
      and opps: "list_all2 (\<lambda>i r. own_prop r ''Id'' = JStr (salesforceId ''006'' (length (cr_opportunities d) + 1 + i)) \<and>
        own_prop r ''TenantId'' = JStr (tp_tenantId tenant) \<and> follows (accts ! (i mod length accts)) r)
        [0..<tp_opportunities tenant] opps"
    have ne: "accts \<noteq> []" using accts plan(2) by (auto dest: list_all2_lengthD)
    have each: "\<exists>i. ?acc i a" if "a \<in> set accts" for a
      using accts that by (auto simp: list_all2_conv_all_nth in_set_conv_nth)
    then have tn: "own_prop a ''TenantId'' = JStr (tp_tenantId tenant)" if "a \<in> set accts" for a
      using that by blast
    have "has_owner a" if "a \<in> set accts" for a
    proof -
      from each [OF that] obtain i where "?acc i a" by blast
      moreover have "tp_owners tenant ! (i mod length (tp_owners tenant)) \<in> set (tp_owners tenant)"
        using plan(1) by (intro nth_mem) simp
      ultimately show ?thesis using assms(2) unfolding has_owner_def by blast
    qed
    then have "list_all has_owner accts" by (simp add: list_all_iff)
    moreover have "list_all (belongs (cr_accounts d @ accts)) (cr_contacts d @ cons)"
      "list_all (belongs (cr_accounts d @ accts)) (cr_opportunities d @ opps)"
      using assms(1) all_belong [OF cons ne tn, of "cr_accounts d"] all_belong [OF opps ne tn, of "cr_accounts d"]
      by (auto simp: consistent_def list_all_iff intro: belongs_mono)
    ultimately show "consistent (d\<lparr>cr_accounts := cr_accounts d @ accts,
        cr_contacts := cr_contacts d @ cons, cr_opportunities := cr_opportunities d @ opps\<rparr>)"
      using assms(1) numbered_append [OF _ accts] numbered_append [OF _ cons] numbered_append [OF _ opps]
      by (simp add: consistent_def)
  qed
qed

lemma generate_consistent: "pred_state consistent (generate fl dash)"
  unfolding generate_def
  by (rule pred_state_draw_each) (auto simp: consistent_def numbered_def intro: gen_tenant_consistent)

lemma fixtures_consistent: "consistent (fixtures fl dash)"
  unfolding fixtures_def by (rule pred_state_run_state [OF generate_consistent])

section \<open>Properties\<close>

lemma consistent_find:
  assumes "consistent d" "r \<in> set (cr_contacts d)"
  shows "\<exists>a. List.find (\<lambda>x. strict_eq False (own_prop x ''Id'') (own_prop r ''AccountId'')) (cr_accounts d) = Some a \<and>
    own_prop r ''TenantId'' = own_prop a ''TenantId'' \<and> follows a r"
proof -
  from assms obtain a where a: "a \<in> set (cr_accounts d)" "own_prop r ''TenantId'' = own_prop a ''TenantId''"
    "follows a r"
    by (auto simp: consistent_def list_all_iff belongs_def)
  have nums: "numbered ''001'' (cr_accounts d)" using assms(1) by (simp add: consistent_def)
  have "distinct (map (\<lambda>r. own_prop r ''Id'') (cr_accounts d))"
    using nums unfolding numbered_def by (simp add: distinct_map inj_on_def del: upt_Suc)
  then have same: "x = a" if "x \<in> set (cr_accounts d)" "own_prop x ''Id'' = own_prop a ''Id''" for x
    using a(1) that by (auto simp: distinct_map inj_on_def)
  have "own_prop a ''Id'' \<in> set (map (\<lambda>r. own_prop r ''Id'') (cr_accounts d))" using a(1) by simp
  then obtain i where i: "own_prop a ''Id'' = JStr (salesforceId ''001'' i)"
    using nums unfolding numbered_def by auto
  have eq: "strict_eq False (own_prop x ''Id'') (own_prop r ''AccountId'') \<longleftrightarrow> own_prop x ''Id'' = own_prop a ''Id''" for x
    using a(3) i by (cases "own_prop x ''Id''") (auto simp: follows_def strict_eq_def)
  obtain a' where a': "List.find (\<lambda>x. strict_eq False (own_prop x ''Id'') (own_prop r ''AccountId'')) (cr_accounts d) = Some a'"
    using a(1) eq by (cases "List.find (\<lambda>x. strict_eq False (own_prop x ''Id'') (own_prop r ''AccountId'')) (cr_accounts d)")
      (auto simp: find_None_iff)
  with find_Some_in_set [OF a'] eq same have "a' = a" by simp
  with a a' show ?thesis by blast
qed

text \<open>On the generated data a contact comes with its account. Whatever the rounding of doubles, whoever
  asks and whatever identifier is given, the CRM server either does not find the contact or answers
  with an account that carries the contact's account identifier and that the caller may see too:
  the generator gives every contact the tenant, owner and territory of exactly one account.\<close>

theorem contact_with_account:
  "case crm_get_contact (fixtures fl dash) p contactId of
     Inl e \<Rightarrow> e = not_found (''Contact '' @ contactId)
   | Inr answer \<Rightarrow> \<exists>contact account. answer = JObj [(''contact'', JObj contact),
         (''account'', JObj account), (''visibility'', JStr (describeVisibility p))] \<and>
       contact \<in> set (cr_contacts (fixtures fl dash)) \<and> account \<in> set (cr_accounts (fixtures fl dash)) \<and>
       own_prop contact ''AccountId'' = own_prop account ''Id'' \<and>
       isVisible p contact \<and> isVisible p account"
proof (cases "find_id contactId (cr_contacts (fixtures fl dash))")
  case None
  then show ?thesis by (simp add: crm_get_contact_def)
next
  case (Some contact)
  let ?d = "fixtures fl dash"
  have contact: "contact \<in> set (cr_contacts ?d)"
    using find_Some_in_set [OF Some [unfolded find_id_def]] by simp
  from consistent_find [OF fixtures_consistent this] obtain a where
    a: "List.find (\<lambda>x. strict_eq False (own_prop x ''Id'') (own_prop contact ''AccountId'')) (cr_accounts ?d) = Some a"
      "own_prop contact ''TenantId'' = own_prop a ''TenantId''" "follows a contact" by blast
  then have "isVisible p a \<longleftrightarrow> isVisible p contact" 
    by (simp add: isVisible_def follows_def split: visibility.split option.split)
  with a Some contact find_Some_in_set [OF a(1)] show ?thesis
    by (auto simp: crm_get_contact_def follows_def)
qed

end
