(* ===== verification/Seed_Control.thy ===== *)
theory Seed_Control
  imports Chain_Check Rate_Limit Gw_Stages
begin

text \<open>
  Seeding and resetting the control plane (\<open>scripts/seed.ts\<close>, \<open>scripts/reset-demo.ts\<close>): the rows of
  tenants, users, clients and rate limits with the statements that put them in place, and the reset
  that empties the audit log, the limits and the gateway's keys in Redis.

  Creation and update times and the random identifiers of limit rows are left out. A statement may go
  unanswered, which ends the command; the database itself refuses a second user with one address.
\<close>

section \<open>The rows\<close>

record tenant_rec =
  tn_id :: string
  tn_name :: string
  tn_plan :: plan
  tn_region :: string

record settings_rec =
  ts_tenant_id :: string
  ts_audit_payload_capture :: bool
  ts_policy_bundle :: string

record user_rec =
  us_id :: string
  us_tenant_id :: string
  us_email :: string
  us_name :: string
  us_role :: role
  us_title :: string
  us_territory :: "string option"
  us_manager_id :: "string option"

record client_rec =
  oc_client_id :: string
  oc_name :: string
  oc_confidential :: bool
  oc_redirect_uris :: "string list"
  oc_allowed_scopes :: "string list"
  oc_allowed_grants :: "string list"

record tenant_seed =
  se_tenant :: tenant_rec
  se_territories :: "string list"

definition tenant_seed_of :: "string \<Rightarrow> string \<Rightarrow> plan \<Rightarrow> string \<Rightarrow> string list \<Rightarrow> tenant_seed" where
  "tenant_seed_of i n p r ts =
     \<lparr>se_tenant = \<lparr>tn_id = i, tn_name = n, tn_plan = p, tn_region = r\<rparr>, se_territories = ts\<rparr>"

definition SEED_TENANTS :: "tenant_seed list" where
  "SEED_TENANTS =
     [tenant_seed_of ''acme-corp'' ''Acme Corp'' Enterprise ''us-east-1'' [''West'', ''East''],
      tenant_seed_of ''globex'' ''Globex'' Pro ''eu-west-1'' [''North'', ''South''],
      tenant_seed_of ''initech'' ''Initech'' Restricted ''us-west-2'' [''Central'']]"

definition user_rec_of ::
    "string \<Rightarrow> string \<Rightarrow> string \<Rightarrow> string \<Rightarrow> role \<Rightarrow> string \<Rightarrow> string option \<Rightarrow> string option \<Rightarrow> user_rec" where
  "user_rec_of i t e n r ti te m = \<lparr>us_id = i, us_tenant_id = t, us_email = e, us_name = n, us_role = r,
     us_title = ti, us_territory = te, us_manager_id = m\<rparr>"

definition SEED_USERS :: "user_rec list" where
  "SEED_USERS =
     [
      user_rec_of ''usr_alice'' ''acme-corp'' ''alice.chen@acme-corp.com'' ''Alice Chen'' Analyst
        ''Revenue Analyst'' (Some ''West'') (Some ''usr_bob''),
      user_rec_of ''usr_bob'' ''acme-corp'' ''bob.martinez@acme-corp.com'' ''Bob Martinez'' Manager
        ''Director, West Region'' (Some ''West'') None,
      user_rec_of ''usr_dana'' ''acme-corp'' ''dana.olsen@acme-corp.com'' ''Dana Olsen'' Admin
        ''Platform Administrator'' None None,
      user_rec_of ''usr_evan'' ''acme-corp'' ''evan.reyes@acme-corp.com'' ''Evan Reyes'' Viewer
        ''Account Executive'' (Some ''East'') (Some ''usr_priya''),
      user_rec_of ''usr_priya'' ''acme-corp'' ''priya.nair@acme-corp.com'' ''Priya Nair'' Analyst
        ''Revenue Analyst'' (Some ''East'') (Some ''usr_bob''),
      user_rec_of ''usr_grace'' ''globex'' ''grace.kim@globex.io'' ''Grace Kim'' Manager
        ''Head of Sales Operations'' (Some ''North'') None,
      user_rec_of ''usr_hugo'' ''globex'' ''hugo.silva@globex.io'' ''Hugo Silva'' Analyst
        ''Sales Analyst'' (Some ''North'') (Some ''usr_grace''),
      user_rec_of ''usr_ines'' ''globex'' ''ines.dubois@globex.io'' ''Ines Dubois'' Admin
        ''Platform Administrator'' None None,
      user_rec_of ''usr_jonah'' ''globex'' ''jonah.wright@globex.io'' ''Jonah Wright'' Viewer
        ''Account Executive'' (Some ''South'') (Some ''usr_grace''),
      user_rec_of ''usr_karen'' ''initech'' ''karen.blake@initech.dev'' ''Karen Blake'' Manager
        ''Commercial Lead'' (Some ''Central'') None,
      user_rec_of ''usr_liam'' ''initech'' ''liam.novak@initech.dev'' ''Liam Novak'' Analyst
        ''Business Analyst'' (Some ''Central'') (Some ''usr_karen''),
      user_rec_of ''usr_mia'' ''initech'' ''mia.torres@initech.dev'' ''Mia Torres'' Viewer
        ''Support Specialist'' (Some ''Central'') (Some ''usr_karen'')]"

definition client_rec_of ::
    "string \<Rightarrow> string \<Rightarrow> bool \<Rightarrow> string list \<Rightarrow> string list \<Rightarrow> string list \<Rightarrow> client_rec" where
  "client_rec_of i n c uris scopes grants = \<lparr>oc_client_id = i, oc_name = n, oc_confidential = c,
     oc_redirect_uris = uris, oc_allowed_scopes = scopes, oc_allowed_grants = grants\<rparr>"

definition SEED_CLIENTS :: "client_rec list" where
  "SEED_CLIENTS =
     [
      client_rec_of ''dashboard-bff'' ''Operations Console'' True
        [''http://localhost:3000/auth/callback'', ''http://localhost:8080/auth/callback'']
        [''openid'', ''profile'', ''email'', ''offline_access'', ''salesforce:read'',
          ''salesforce:read.team'', ''salesforce:read.all'', ''salesforce:write'',
          ''postgres:read'', ''postgres:query'', ''postgres:admin'',
          ''policy:evaluate'', ''policy:read'', ''gateway:admin'']
        [''authorization_code'', ''refresh_token''],
      client_rec_of ''mcp-gateway'' ''MCP Gateway'' True
        []
        [''salesforce:read'', ''salesforce:read.team'', ''salesforce:read.all'',
          ''salesforce:write'', ''postgres:read'', ''postgres:query'',
          ''postgres:admin'', ''policy:evaluate'', ''policy:read'']
        [''client_credentials'', ''urn:ietf:params:oauth:grant-type:token-exchange''],
      client_rec_of ''claude-desktop'' ''Claude Desktop'' False
        [''http://127.0.0.1:33418/callback'']
        [''openid'', ''profile'', ''email'', ''offline_access'', ''salesforce:read'',
          ''salesforce:read.team'', ''postgres:read'', ''postgres:query'',
          ''policy:evaluate'', ''policy:read'']
        [''authorization_code'', ''refresh_token''],
      client_rec_of ''internal-agent'' ''Internal Automation Agent'' True
        []
        [''postgres:read'', ''postgres:query'']
        [''client_credentials'']]"

text \<open>Per plan: the tenant's limit, the user's, and the burst tier's.\<close>

definition RATE_LIMITS :: "plan \<Rightarrow> int \<times> int \<times> int option" where
  "RATE_LIMITS p = (case p of
     Enterprise \<Rightarrow> (12000, 600, Some 1800) | Pro \<Rightarrow> (3000, 180, None) | Restricted \<Rightarrow> (600, 30, None))"

section \<open>The statements\<close>

record control_db =
  cd_tenants :: "tenant_rec list"
  cd_settings :: "settings_rec list"
  cd_users :: "user_rec list"
  cd_clients :: "client_rec list"
  cd_limits :: "limit_record list"

datatype seed_stmt =
    Put_tenant tenant_rec
  | Put_settings string
  | Put_user user_rec
  | Put_client client_rec
  | Put_limit limit_record

text \<open>\<open>INSERT ... ON CONFLICT (key) DO UPDATE SET ...\<close>: the row that has the key is changed by \<open>f\<close>; without
  one \<open>v\<close> is inserted.\<close>

definition upsert :: "('v \<Rightarrow> bool) \<Rightarrow> ('v \<Rightarrow> 'v) \<Rightarrow> 'v \<Rightarrow> 'v list \<Rightarrow> 'v list" where
  "upsert same f v rows =
     (if list_ex same rows then map (\<lambda>x. if same x then f x else x) rows else rows @ [v])"

definition same_limit :: "limit_record \<Rightarrow> limit_record \<Rightarrow> bool" where
  "same_limit r x \<longleftrightarrow> lr_tenantId x = lr_tenantId r \<and> lr_scopeType x = lr_scopeType r \<and>
     lr_toolName x = lr_toolName r \<and> lr_tier x = lr_tier r"

fun exec_stmt :: "seed_stmt \<Rightarrow> control_db \<Rightarrow> control_db option" where
  "exec_stmt (Put_tenant r) db = Some (db\<lparr>cd_tenants := upsert (\<lambda>x. tn_id x = tn_id r)
     (\<lambda>x. x\<lparr>tn_name := tn_name r, tn_plan := tn_plan r, tn_region := tn_region r\<rparr>) r (cd_tenants db)\<rparr>)"
| "exec_stmt (Put_settings t) db = Some (db\<lparr>cd_settings := upsert (\<lambda>x. ts_tenant_id x = t) (\<lambda>x. x)
     \<lparr>ts_tenant_id = t, ts_audit_payload_capture = False, ts_policy_bundle = ''baseline''\<rparr>
     (cd_settings db)\<rparr>)"
| "exec_stmt (Put_user r) db =
     (if list_ex (\<lambda>x. us_email x = us_email r \<and> us_id x \<noteq> us_id r) (cd_users db) then None
      else Some (db\<lparr>cd_users := upsert (\<lambda>x. us_id x = us_id r)
        (\<lambda>x. x\<lparr>us_email := us_email r, us_name := us_name r, us_role := us_role r, us_title := us_title r,
               us_territory := us_territory r, us_manager_id := us_manager_id r\<rparr>) r (cd_users db)\<rparr>))"
| "exec_stmt (Put_client r) db = Some (db\<lparr>cd_clients := upsert (\<lambda>x. oc_client_id x = oc_client_id r)
     (\<lambda>x. x\<lparr>oc_name := oc_name r, oc_allowed_scopes := oc_allowed_scopes r,
            oc_allowed_grants := oc_allowed_grants r, oc_redirect_uris := oc_redirect_uris r\<rparr>)
     r (cd_clients db)\<rparr>)"
| "exec_stmt (Put_limit r) db = Some (db\<lparr>cd_limits := upsert (same_limit r)
     (\<lambda>x. x\<lparr>lr_capacity := lr_capacity r, lr_refillTokens := lr_refillTokens r,
            lr_refillIntervalMs := lr_refillIntervalMs r\<rparr>) r (cd_limits db)\<rparr>)"

text \<open>The arguments of \<open>upsertRateLimit\<close>.\<close>

definition upsertRateLimit ::
    "string \<Rightarrow> limit_scope_type \<Rightarrow> string \<Rightarrow> string \<Rightarrow> int \<Rightarrow> int \<Rightarrow> seed_stmt" where
  "upsertRateLimit tenantId scopeType toolName tier capacity intervalMs =
     Put_limit \<lparr>lr_tenantId = tenantId, lr_scopeType = scopeType, lr_toolName = toolName, lr_tier = tier,
       lr_capacity = capacity, lr_refillTokens = capacity, lr_refillIntervalMs = intervalMs\<rparr>"

definition limit_statements :: "tenant_rec \<Rightarrow> seed_stmt list" where
  "limit_statements tenant =
     (let (t, u, burst) = RATE_LIMITS (tn_plan tenant); i = tn_id tenant;
          quarter = (\<lambda>n d. \<lfloor>of_int n / of_int d + 1 / 2 :: rat\<rfloor>)
      in [upsertRateLimit i Tenant_scope ''*'' ''default'' t 60000,
          upsertRateLimit i User_tool_scope ''*'' ''default'' u 60000]
       @ (case burst of None \<Rightarrow> []
          | Some b \<Rightarrow>
              [upsertRateLimit i Tenant_scope ''*'' ''burst'' (t * 2) 60000,
               upsertRateLimit i User_tool_scope ''*'' ''burst'' b 60000])
       @ [upsertRateLimit i Tenant_scope ''*'' ''throttled'' (max 60 (quarter t 4)) 60000,
          upsertRateLimit i User_tool_scope ''*'' ''throttled'' (max 10 (quarter u 4)) 60000,
          upsertRateLimit i User_tool_scope ''pg.query'' ''default'' (max 10 (quarter u 6)) 60000])"

definition seed_statements :: "seed_stmt list" where
  "seed_statements =
     concat (map (\<lambda>s. [Put_tenant (se_tenant s), Put_settings (tn_id (se_tenant s))]) SEED_TENANTS)
     @ map Put_user SEED_USERS @ map Put_client SEED_CLIENTS
     @ concat (map (limit_statements \<circ> se_tenant) SEED_TENANTS)"

text \<open>The statements in turn, of which the database answers the first \<open>n\<close>.\<close>

fun run_statements :: "seed_stmt list \<Rightarrow> nat \<Rightarrow> control_db \<Rightarrow> control_db \<times> bool" where
  "run_statements [] n db = (db, True)"
| "run_statements (s # ss) 0 db = (db, False)"
| "run_statements (s # ss) (Suc n) db =
     (case exec_stmt s db of None \<Rightarrow> (db, False) | Some db' \<Rightarrow> run_statements ss n db')"

definition seedControlPlane :: "nat \<Rightarrow> control_db \<Rightarrow> control_db \<times> bool" where
  "seedControlPlane n db = run_statements seed_statements n db"

section \<open>Resetting\<close>

record demo_state =
  dm_audit :: guarded_db
  dm_control :: control_db
  dm_redis :: "string set"

definition truncate_events :: "audit_db \<Rightarrow> audit_db" where
  "truncate_events db = db\<lparr>db_events := [], db_payloads := [], db_next_seq := 1\<rparr>"

definition truncate_heads :: "audit_db \<Rightarrow> audit_db" where
  "truncate_heads db = db\<lparr>db_heads := (\<lambda>_. None)\<rparr>"

definition clear_statements :: "(demo_state \<Rightarrow> demo_state) list" where
  "clear_statements =
     [\<lambda>s. s\<lparr>dm_audit := (dm_audit s)\<lparr>gd_guard := False\<rparr>\<rparr>,
      \<lambda>s. s\<lparr>dm_audit := (dm_audit s)\<lparr>gd_tables := truncate_events (gd_tables (dm_audit s))\<rparr>\<rparr>,
      \<lambda>s. s\<lparr>dm_audit := (dm_audit s)\<lparr>gd_tables := truncate_heads (gd_tables (dm_audit s))\<rparr>\<rparr>,
      \<lambda>s. s\<lparr>dm_audit := (dm_audit s)\<lparr>gd_guard := True\<rparr>\<rparr>,
      \<lambda>s. s\<lparr>dm_control := (dm_control s)\<lparr>cd_limits := []\<rparr>\<rparr>]"

definition clearControlPlane :: "nat \<Rightarrow> demo_state \<Rightarrow> demo_state \<times> bool" where
  "clearControlPlane n s = (fold (\<lambda>f. f) (take n clear_statements) s, length clear_statements \<le> n)"

definition cleared_patterns :: "string list" where
  "cleared_patterns = [''rl:'', ''tex:'', ''sess:'', ''login:'']"

definition clearRedis :: "string set \<Rightarrow> string set" where
  "clearRedis ks = {k \<in> ks. \<not> list_ex (\<lambda>p. starts_with k p) cleared_patterns}"

section \<open>A statement that has run changes nothing\<close>

definition upserted :: "('v \<Rightarrow> bool) \<Rightarrow> ('v \<Rightarrow> 'v) \<Rightarrow> 'v list \<Rightarrow> bool" where
  "upserted same f rows \<longleftrightarrow> list_ex same rows \<and> list_all (\<lambda>x. same x \<longrightarrow> f x = x) rows"

lemma upsert_upserted: "upserted same f rows \<Longrightarrow> upsert same f v rows = rows"
  by (auto simp: upserted_def upsert_def list_all_iff intro!: map_idI)

lemma upserted_upsert:
  assumes "same v" "f v = v" "\<And>x. same x \<Longrightarrow> same (f x)" "\<And>x. f (f x) = f x"
  shows "upserted same f (upsert same f v rows)"
  using assms by (fastforce simp: upserted_def upsert_def list_ex_iff list_all_iff)

lemma upserted_kept:
  assumes "upserted same f rows" "\<And>x. same' x \<Longrightarrow> \<not> same x \<and> \<not> same (f' x)" "\<not> same v'"
  shows "upserted same f (upsert same' f' v' rows)"
  using assms by (fastforce simp: upserted_def upsert_def list_ex_iff list_all_iff)

fun has_run :: "seed_stmt \<Rightarrow> control_db \<Rightarrow> bool" where
  "has_run (Put_tenant r) db \<longleftrightarrow> upserted (\<lambda>x. tn_id x = tn_id r)
     (\<lambda>x. x\<lparr>tn_name := tn_name r, tn_plan := tn_plan r, tn_region := tn_region r\<rparr>) (cd_tenants db)"
| "has_run (Put_settings t) db \<longleftrightarrow> upserted (\<lambda>x. ts_tenant_id x = t) (\<lambda>x. x) (cd_settings db)"
| "has_run (Put_user r) db \<longleftrightarrow>
     \<not> list_ex (\<lambda>x. us_email x = us_email r \<and> us_id x \<noteq> us_id r) (cd_users db) \<and>
     upserted (\<lambda>x. us_id x = us_id r)
        (\<lambda>x. x\<lparr>us_email := us_email r, us_name := us_name r, us_role := us_role r, us_title := us_title r,
               us_territory := us_territory r, us_manager_id := us_manager_id r\<rparr>) (cd_users db)"
| "has_run (Put_client r) db \<longleftrightarrow> upserted (\<lambda>x. oc_client_id x = oc_client_id r)
     (\<lambda>x. x\<lparr>oc_name := oc_name r, oc_allowed_scopes := oc_allowed_scopes r,
            oc_allowed_grants := oc_allowed_grants r, oc_redirect_uris := oc_redirect_uris r\<rparr>)
     (cd_clients db)"
| "has_run (Put_limit r) db \<longleftrightarrow> upserted (same_limit r)
     (\<lambda>x. x\<lparr>lr_capacity := lr_capacity r, lr_refillTokens := lr_refillTokens r,
            lr_refillIntervalMs := lr_refillIntervalMs r\<rparr>) (cd_limits db)"

text \<open>Statements on the same row, or that contend for one address.\<close>

fun clash :: "seed_stmt \<Rightarrow> seed_stmt \<Rightarrow> bool" where
  "clash (Put_tenant r) (Put_tenant r') \<longleftrightarrow> tn_id r = tn_id r'"
| "clash (Put_settings t) (Put_settings t') \<longleftrightarrow> t = t'"
| "clash (Put_user r) (Put_user r') \<longleftrightarrow> us_id r = us_id r' \<or> us_email r = us_email r'"
| "clash (Put_client r) (Put_client r') \<longleftrightarrow> oc_client_id r = oc_client_id r'"
| "clash (Put_limit r) (Put_limit r') \<longleftrightarrow> same_limit r r'"
| "clash s s' \<longleftrightarrow> False"

lemma exec_has_run: "has_run s db \<Longrightarrow> exec_stmt s db = Some db"
  by (cases s) (simp_all add: upsert_upserted)

lemma has_run_exec: "exec_stmt s db = Some db' \<Longrightarrow> has_run s db'"
proof (cases s)
  case (Put_user r)
  assume ex: "exec_stmt s db = Some db'"
  then have "list_ex (\<lambda>x. us_email x = us_email r \<and> us_id x \<noteq> us_id r) (cd_users db') = False"
    by (auto simp: Put_user upsert_def list_ex_iff split: if_split_asm)
  with ex Put_user show ?thesis by (auto intro!: upserted_upsert split: if_split_asm)
qed (auto intro!: upserted_upsert simp: same_limit_def)

lemma user_kept:
  assumes "has_run (Put_user r) db" "exec_stmt (Put_user r') db = Some db'" "us_id r \<noteq> us_id r'"
    "us_email r \<noteq> us_email r'"
  shows "has_run (Put_user r) db'"
proof -
  let ?set = "\<lambda>r x. x\<lparr>us_email := us_email r, us_name := us_name r, us_role := us_role r, us_title := us_title r,
               us_territory := us_territory r, us_manager_id := us_manager_id r\<rparr>"
  have users: "cd_users db' = upsert (\<lambda>x. us_id x = us_id r') (?set r') r' (cd_users db)"
    using assms(2) by (auto split: if_split_asm)
  have "upserted (\<lambda>x. us_id x = us_id r) (?set r) (cd_users db')"
    unfolding users using assms(1,3) by (intro upserted_kept) simp_all
  moreover have "\<not> (us_email x = us_email r \<and> us_id x \<noteq> us_id r)" if "x \<in> set (cd_users db')" for x
    using that assms(1,4) unfolding users upsert_def by (auto simp: list_ex_iff split: if_split_asm)
  ultimately show ?thesis by (simp add: list_ex_iff)
qed

lemma has_run_kept:
  assumes "has_run s db" "exec_stmt s' db = Some db'" "\<not> clash s s'"
  shows "has_run s db'"
proof (cases s)
  case (Put_user r)
  show ?thesis
  proof (cases s')
    case (Put_user r')
    with assms \<open>s = Put_user r\<close> show ?thesis using user_kept [of r db r' db'] by simp
  qed (use assms \<open>s = Put_user r\<close> in auto)
next
  case (Put_tenant r)
  with assms show ?thesis by (cases s') (auto split: if_split_asm intro!: upserted_kept)
next
  case (Put_settings r)
  with assms show ?thesis by (cases s') (auto split: if_split_asm intro!: upserted_kept)
next
  case (Put_client r)
  with assms show ?thesis by (cases s') (auto split: if_split_asm intro!: upserted_kept)
next
  case (Put_limit r)
  with assms show ?thesis
    by (cases s') (auto split: if_split_asm intro!: upserted_kept simp: same_limit_def)
qed

fun exec_all :: "seed_stmt list \<Rightarrow> control_db \<Rightarrow> control_db option" where
  "exec_all [] db = Some db"
| "exec_all (s # ss) db = (case exec_stmt s db of None \<Rightarrow> None | Some db' \<Rightarrow> exec_all ss db')"

lemma exec_all_append:
  "exec_all (xs @ ys) db = (case exec_all xs db of None \<Rightarrow> None | Some db' \<Rightarrow> exec_all ys db')"
  by (induction xs arbitrary: db) (auto split: option.split)

lemma run_statements_all: "run_statements ss (length ss) db = (db', True) \<longleftrightarrow> exec_all ss db = Some db'"
  by (induction ss arbitrary: db) (auto split: option.split)

lemma run_statements_take:
  "exec_all ss db \<noteq> None \<Longrightarrow> exec_all (take n ss) db = Some (fst (run_statements ss n db))"
proof (induction ss arbitrary: n db)
  case (Cons s ss)
  then show ?case by (cases n) (auto split: option.splits)
qed simp

lemma exec_all_keeps:
  "has_run s db \<Longrightarrow> list_all (\<lambda>s'. \<not> clash s s') ss \<Longrightarrow> exec_all ss db = Some db' \<Longrightarrow> has_run s db'"
  by (induction ss arbitrary: db) (auto split: option.splits intro: has_run_kept)

lemma exec_all_has_run:
  "exec_all ss db = Some db' \<Longrightarrow> sorted_wrt (\<lambda>s s'. \<not> clash s s') ss \<Longrightarrow>
     list_all (\<lambda>s. has_run s db') ss"
proof (induction ss arbitrary: db)
  case (Cons s ss)
  from Cons.prems(1) obtain db1 where db1: "exec_stmt s db = Some db1" "exec_all ss db1 = Some db'"
    by (auto split: option.splits)
  with Cons.IH [OF db1(2)] Cons.prems(2) exec_all_keeps [OF has_run_exec [OF db1(1)] _ db1(2)]
  show ?case by (simp add: list_all_iff)
qed simp

lemma exec_all_again: "list_all (\<lambda>s. has_run s db) ss \<Longrightarrow> exec_all ss db = Some db"
  by (induction ss) (simp_all add: exec_has_run)

lemma run_again:
  assumes "sorted_wrt (\<lambda>s s'. \<not> clash s s') ss"
    and "run_statements ss (length ss) db = (db', True)"
  shows "run_statements ss (length ss) (fst (run_statements ss n db)) = (db', True)"
proof -
  let ?mid = "fst (run_statements ss n db)"
  from assms(2) have all: "exec_all ss db = Some db'" by (simp add: run_statements_all)
  then have "exec_all (take n ss) db = Some ?mid" by (simp add: run_statements_take)
  moreover have "sorted_wrt (\<lambda>s s'. \<not> clash s s') (take n ss)"
    using assms(1) by (simp add: sorted_wrt_take)
  ultimately have "exec_all (take n ss) ?mid = Some ?mid"
    using exec_all_has_run exec_all_again by blast
  moreover have "exec_all (drop n ss) ?mid = Some db'"
    using all \<open>exec_all (take n ss) db = Some ?mid\<close> exec_all_append [of "take n ss" "drop n ss" db] by simp
  ultimately have "exec_all ss ?mid = Some db'"
    using exec_all_append [of "take n ss" "drop n ss" ?mid] by simp
  then show ?thesis by (simp add: run_statements_all)
qed

lemma seed_statements_apart: "sorted_wrt (\<lambda>s s'. \<not> clash s s') seed_statements"
  by code_simp

section \<open>The seeded limits\<close>

text \<open>What the statements make of the limits does not depend on the other tables.\<close>

fun limits_after :: "seed_stmt list \<Rightarrow> limit_record list \<Rightarrow> limit_record list" where
  "limits_after [] rows = rows"
| "limits_after (Put_limit r # ss) rows = limits_after ss (upsert (same_limit r)
     (\<lambda>x. x\<lparr>lr_capacity := lr_capacity r, lr_refillTokens := lr_refillTokens r,
            lr_refillIntervalMs := lr_refillIntervalMs r\<rparr>) r rows)"
| "limits_after (_ # ss) rows = limits_after ss rows"

lemma exec_all_limits: "exec_all ss db = Some db' \<Longrightarrow> cd_limits db' = limits_after ss (cd_limits db)"
proof (induction ss arbitrary: db)
  case (Cons s ss)
  then show ?case by (cases s) (auto split: if_split_asm)
qed simp

definition limit_rec :: "string \<Rightarrow> limit_scope_type \<Rightarrow> string \<Rightarrow> string \<Rightarrow> int \<Rightarrow> limit_record" where
  "limit_rec i s tool tier c = \<lparr>lr_tenantId = i, lr_scopeType = s, lr_toolName = tool, lr_tier = tier,
     lr_capacity = c, lr_refillTokens = c, lr_refillIntervalMs = 60000\<rparr>"

lemma seeded_rows:
  "limits_after seed_statements [] =
     [limit_rec ''acme-corp'' Tenant_scope ''*'' ''default'' 12000,
      limit_rec ''acme-corp'' User_tool_scope ''*'' ''default'' 600,
      limit_rec ''acme-corp'' Tenant_scope ''*'' ''burst'' 24000,
      limit_rec ''acme-corp'' User_tool_scope ''*'' ''burst'' 1800,
      limit_rec ''acme-corp'' Tenant_scope ''*'' ''throttled'' 3000,
      limit_rec ''acme-corp'' User_tool_scope ''*'' ''throttled'' 150,
      limit_rec ''acme-corp'' User_tool_scope ''pg.query'' ''default'' 100,
      limit_rec ''globex'' Tenant_scope ''*'' ''default'' 3000,
      limit_rec ''globex'' User_tool_scope ''*'' ''default'' 180,
      limit_rec ''globex'' Tenant_scope ''*'' ''throttled'' 750,
      limit_rec ''globex'' User_tool_scope ''*'' ''throttled'' 45,
      limit_rec ''globex'' User_tool_scope ''pg.query'' ''default'' 30,
      limit_rec ''initech'' Tenant_scope ''*'' ''default'' 600,
      limit_rec ''initech'' User_tool_scope ''*'' ''default'' 30,
      limit_rec ''initech'' Tenant_scope ''*'' ''throttled'' 150,
      limit_rec ''initech'' User_tool_scope ''*'' ''throttled'' 10,
      limit_rec ''initech'' User_tool_scope ''pg.query'' ''default'' 10]"
  by code_simp

definition minute_bucket :: "string \<Rightarrow> int \<Rightarrow> bucket_config" where
  "minute_bucket tier c = \<lparr>bc_capacity = c, bc_refillTokens = c, bc_refillIntervalMs = 60000, bc_tier = Some tier\<rparr>"

lemma record_config_limit [simp]: "record_config (limit_rec i s tool tier c) = minute_bucket tier c"
  by (simp add: record_config_def limit_rec_def minute_bucket_def)

lemma seeded_plain: "list_all plain_record (limits_after seed_statements [])"
  unfolding seeded_rows by (simp add: plain_record_def plain_def limit_rec_def)

lemma plain_tenants: "plain ''acme-corp''" "plain ''globex''" "plain ''initech''" "plain ''*''"
  by (simp_all add: plain_def)

lemma configured_limit:
  "configured (rs @ [limit_rec i s tool tier c]) i' s' tool' tier' =
     (if i = i' \<and> s = s' \<and> tool = tool' \<and> tier = tier' then Some (limit_rec i s tool tier c)
      else configured rs i' s' tool' tier')"
  "configured [] i' s' tool' tier' = None"
  by (simp_all add: configured_def limit_rec_def)

lemma first_some_simps:
  "first_some [] = None" "first_some (None # xs) = first_some xs" "first_some (Some x # xs) = Some x"
  by (simp_all add: first_some_def)

text \<open>The limits a seeded tenant's calls are resolved to, per plan, tool and tier.\<close>

definition tier_bucket :: "string \<Rightarrow> int \<Rightarrow> int option \<Rightarrow> int \<Rightarrow> bucket_config" where
  "tier_bucket tier plain_limit burst_limit throttled_limit =
     (case burst_limit of
        Some b \<Rightarrow> if tier = ''burst'' then minute_bucket ''burst'' b
                 else if tier = ''throttled'' then minute_bucket ''throttled'' throttled_limit
                 else minute_bucket ''default'' plain_limit
      | None \<Rightarrow> if tier = ''throttled'' then minute_bucket ''throttled'' throttled_limit
                else minute_bucket ''default'' plain_limit)"

lemma seeded_lookups:
  assumes "plain toolName"
  shows "lookup_limit (config_reload (limits_after seed_statements []) now cs) ''acme-corp'' Tenant_scope ''*'' tier =
      Some (tier_bucket tier 12000 (Some 24000) 3000)"
    and "lookup_limit (config_reload (limits_after seed_statements []) now cs) ''globex'' Tenant_scope ''*'' tier =
      Some (tier_bucket tier 3000 None 750)"
    and "lookup_limit (config_reload (limits_after seed_statements []) now cs) ''initech'' Tenant_scope ''*'' tier =
      Some (tier_bucket tier 600 None 150)"
    and "lookup_limit (config_reload (limits_after seed_statements []) now cs) ''acme-corp'' User_tool_scope toolName tier =
      Some (if toolName = ''pg.query'' then minute_bucket ''default'' 100 else tier_bucket tier 600 (Some 1800) 150)"
    and "lookup_limit (config_reload (limits_after seed_statements []) now cs) ''globex'' User_tool_scope toolName tier =
      Some (if toolName = ''pg.query'' then minute_bucket ''default'' 30 else tier_bucket tier 180 None 45)"
    and "lookup_limit (config_reload (limits_after seed_statements []) now cs) ''initech'' User_tool_scope toolName tier =
      Some (if toolName = ''pg.query'' then minute_bucket ''default'' 10 else tier_bucket tier 30 None 10)"
  unfolding lookup_limit_configured [OF seeded_plain plain_tenants(1) assms]
    lookup_limit_configured [OF seeded_plain plain_tenants(2) assms]
    lookup_limit_configured [OF seeded_plain plain_tenants(3) assms]
    lookup_limit_configured [OF seeded_plain plain_tenants(1) plain_tenants(4)]
    lookup_limit_configured [OF seeded_plain plain_tenants(2) plain_tenants(4)]
    lookup_limit_configured [OF seeded_plain plain_tenants(3) plain_tenants(4)]
  unfolding seeded_rows
  by (simp_all add: configured_def limit_rec_def first_some_simps tier_bucket_def record_config_def
      minute_bucket_def)

section \<open>A reset that is cut short\<close>

lemma clear_result:
  "gd_tables (dm_audit (fst (clearControlPlane n s))) =
     (if n < 2 then gd_tables (dm_audit s)
      else if n = 2 then truncate_events (gd_tables (dm_audit s)) else empty_audit_db) \<and>
   gd_guard (dm_audit (fst (clearControlPlane n s))) = (if n = 0 then gd_guard (dm_audit s) else 4 \<le> n) \<and>
   dm_control (fst (clearControlPlane n s)) =
     (if n < 5 then dm_control s else (dm_control s)\<lparr>cd_limits := []\<rparr>) \<and>
   snd (clearControlPlane n s) = (5 \<le> n)"
proof -
  have take_all: "take n clear_statements = clear_statements" if "5 \<le> n" for n
    using that by (simp add: clear_statements_def)
  consider "n = 0" | "n = 1" | "n = 2" | "n = 3" | "n = 4" | "5 \<le> n" by linarith
  then show ?thesis
    by cases (simp_all add: clearControlPlane_def clear_statements_def truncate_events_def
        truncate_heads_def empty_audit_db_def numeral_eq_Suc take_all)
qed

text \<open>With the events gone and the heads kept, a tenant that had rows no longer verifies.\<close>

lemma heads_go_with_events:
  assumes "db_heads db tn = Some (h, n)" and "trim h \<noteq> genesisHash sha tn"
  shows "\<exists>cv. verifyTenantChain sha fmt (truncate_events db) tn None = Inr cv \<and> \<not> cv_valid cv"
proof -
  have rows: "rows_after (truncate_events db) tn 0 = []"
    by (simp add: rows_after_def truncate_events_def)
  have heads: "db_heads (truncate_events db) tn = Some (h, n)"
    using assms(1) by (simp add: truncate_events_def)
  have "verifyTenantChain sha fmt (truncate_events db) tn None =
      Inr (tenant_report sha (truncate_events db) tn \<lparr>res_valid = True, res_checked = 0, res_break = None\<rparr>)"
    using verifyTenantChain_walk [of "truncate_events db" tn None sha fmt] rows
    by (simp add: verifyChain_def)
  with assms(2) heads rows show ?thesis by (simp add: tenant_report_def Let_def)
qed

lemma cleared_keys:
  "''rl:'' @ k \<notin> clearRedis ks" "''tex:'' @ k \<notin> clearRedis ks" "''sess:'' @ k \<notin> clearRedis ks"
  "''login:'' @ k \<notin> clearRedis ks"
  by (simp_all add: clearRedis_def cleared_patterns_def starts_with_def)

lemma bucketKey_start: "\<exists>k. bucketKey sc = ''rl:'' @ k"
  by (auto simp: bucketKey_def split: limit_scope_type.split)

section \<open>Properties\<close>


definition empty_control :: control_db where
  "empty_control = \<lparr>cd_tenants = [], cd_settings = [], cd_users = [], cd_clients = [], cd_limits = []\<rparr>"

lemma seed_empty: "\<exists>db. seedControlPlane (length seed_statements) empty_control = (db, True)"
proof -
  have "snd (seedControlPlane (length seed_statements) empty_control)" by code_simp
  then show ?thesis by (metis prod.collapse)
qed


text \<open>The seeded limits are in force. After seeding an empty table of limits and reloading the
  gateway's configuration, every call of a seeded tenant is limited by a seeded row, never by the
  fallback: the tenant by the tier the policy chose where its plan has that tier and by the default
  otherwise, the user likewise, except that a warehouse query is always held to its own bucket.\<close>

theorem seeded_limits:
  assumes "seedControlPlane (length seed_statements) db = (db', True)" and "cd_limits db = []"
    and "plain toolName"
  shows "map (\<lambda>i. resolve_limits (config_reload (cd_limits db') now cs) i toolName tier)
      [''acme-corp'', ''globex'', ''initech''] =
    (let t = or_default tier ''default''; q = (toolName = ''pg.query'') in
     [\<lparr>rl_tenant = tier_bucket t 12000 (Some 24000) 3000,
       rl_userTool = (if q then minute_bucket ''default'' 100 else tier_bucket t 600 (Some 1800) 150)\<rparr>,
      \<lparr>rl_tenant = tier_bucket t 3000 None 750,
       rl_userTool = (if q then minute_bucket ''default'' 30 else tier_bucket t 180 None 45)\<rparr>,
      \<lparr>rl_tenant = tier_bucket t 600 None 150,
       rl_userTool = (if q then minute_bucket ''default'' 10 else tier_bucket t 30 None 10)\<rparr>])"
proof -
  have "exec_all seed_statements db = Some db'"
    using assms(1) by (simp add: seedControlPlane_def run_statements_all)
  from exec_all_limits [OF this] assms(2) have "cd_limits db' = limits_after seed_statements []" by simp
  then show ?thesis
    by (simp only: resolve_limits_def Let_def list.map seeded_lookups [OF assms(3)] or_default_simps)
qed

theorem seeded_limits_witness:
  "\<exists>db. seedControlPlane (length seed_statements) empty_control = (db, True) \<and>
     rl_userTool (resolve_limits (config_reload (cd_limits db) 0 cs) ''initech'' ''pg.query'' (Some ''burst'')) =
       minute_bucket ''default'' 10"
proof -
  obtain db where db: "seedControlPlane (length seed_statements) empty_control = (db, True)"
    using seed_empty by blast
  have "plain ''pg.query''" "cd_limits empty_control = []" by (simp_all add: plain_def empty_control_def)
  from seeded_limits [OF db this(2,1), of 0 cs "Some ''burst''"] db show ?thesis by (auto simp: Let_def)
qed

end
