(* ===== verification/Seed_Data.thy ===== *)
theory Seed_Data
  imports Seed_Control Demo_Random
begin

text \<open>
  The data that \<open>scripts/seed.ts\<close> draws: the warehouse tables and a week of audit history, and the
  whole of \<open>scripts/reset-demo.ts\<close>.

  \<open>fl\<close> is the rounding of double arithmetic and \<open>to_fixed\<close> that of \<open>Number(x.toFixed(2))\<close>; the clock is
  read as one instant, in milliseconds. The texts of the \<open>INSERT\<close> statements are left out: their rows are
  the model's. Appends go through the writer of \<open>Audit_Log\<close>.
\<close>

section \<open>The season\<close>

text \<open>\<open>getUTCDay\<close>, \<open>getUTCDate\<close> and \<open>getUTCMonth\<close> of a time in milliseconds.\<close>

definition utc_day :: "int \<Rightarrow> int" where
  "utc_day t = (t div 86400000 + 4) mod 7"

definition volumeMultiplier :: "(rat \<Rightarrow> rat) \<Rightarrow> int \<Rightarrow> rat" where
  "volumeMultiplier fl t =
     (let weekday = utc_day t;
          weekly = (if weekday = 0 \<or> weekday = 6 then fl (35 / 100) else 1);
          (y, month, dayOfMonth) = civil_of_days (t div 86400000);
          quarterEnd = (if (month - 1) mod 3 = 2 \<and> 20 < dayOfMonth then fl (18 / 10) else 1)
      in fl (weekly * quarterEnd))"

section \<open>The warehouse\<close>

definition PRODUCT_CATEGORIES :: "string list" where
  "PRODUCT_CATEGORIES = [''Hardware'', ''Software'', ''Services'', ''Support'', ''Training'']"

definition CHANNELS :: "string list" where
  "CHANNELS = [''direct'', ''partner'', ''self-serve'', ''marketplace'']"

definition ORDER_STATUS :: "string list" where
  "ORDER_STATUS = [''completed'', ''completed'', ''completed'', ''shipped'', ''pending'', ''cancelled'']"

definition SEED_SEGMENTS :: "string list" where
  "SEED_SEGMENTS = [''Enterprise'', ''Mid-Market'', ''SMB'']"

definition COUNTRIES :: "string list" where
  "COUNTRIES = [''US'', ''US'', ''US'', ''CA'', ''GB'', ''DE'', ''FR'', ''AU'']"

record product_row =
  pd_id :: nat
  pd_tenant_id :: string
  pd_sku :: string
  pd_name :: string
  pd_category :: string
  pd_unit_price :: rat

record customer_row =
  cu_id :: nat
  cu_tenant_id :: string
  cu_territory :: string
  cu_name :: string
  cu_email :: string
  cu_phone :: string
  cu_city :: string
  cu_country :: string
  cu_segment :: string
  cu_created_at :: string

record item_row =
  it_id :: nat
  it_order_id :: nat
  it_product_id :: nat
  it_quantity :: int
  it_unit_price :: rat
  it_line_total :: rat

record order_row =
  or_id :: nat
  or_tenant_id :: string
  or_territory :: string
  or_customer_id :: nat
  or_order_date :: string
  or_status :: string
  or_channel :: string
  or_total_amount :: rat

record warehouse_db =
  wh_products :: "product_row list"
  wh_customers :: "customer_row list"
  wh_orders :: "order_row list"
  wh_items :: "item_row list"

definition seed_product :: "(rat \<Rightarrow> rat) \<Rightarrow> (rat \<Rightarrow> rat) \<Rightarrow> string \<Rightarrow> nat \<Rightarrow> nat \<Rightarrow> product_row draw" where
  "seed_product fl to_fixed tenantId productId i = do {
     price \<leftarrow> between fl 19 4800;
     category \<leftarrow> pick PRODUCT_CATEGORIES;
     State_Monad.return \<lparr>pd_id = productId + i, pd_tenant_id = tenantId,
       pd_sku = ''SKU-'' @ pad 5 (productId + i), pd_name = category @ '' Package '' @ nat_str (i + 1),
       pd_category = category, pd_unit_price = to_fixed price\<rparr>
   }"

definition seed_customer :: "(rat \<Rightarrow> rat) \<Rightarrow> int \<Rightarrow> tenant_seed \<Rightarrow> nat \<Rightarrow> nat \<Rightarrow> customer_row draw" where
  "seed_customer fl now tenant customerId i = do {
     territory \<leftarrow> pick (se_territories tenant);
     segment \<leftarrow> pick SEED_SEGMENTS;
     age \<leftarrow> intBetween fl 30 900;
     phone \<leftarrow> intBetween fl 1000 9999;
     city \<leftarrow> pick [''Springfield'', ''Riverton'', ''Fairview'', ''Lakeside'', ''Ashford''];
     country \<leftarrow> pick COUNTRIES;
     let n = nat_str (customerId + i);
     State_Monad.return \<lparr>cu_id = customerId + i, cu_tenant_id = tn_id (se_tenant tenant),
       cu_territory = territory, cu_name = ''Customer '' @ n,
       cu_email = concat [''customer'', n, ''@'', tn_id (se_tenant tenant), ''.example''],
       cu_phone = ''+1-555-'' @ int_str phone, cu_city = city, cu_country = country,
       cu_segment = segment, cu_created_at = iso_string (now - age * 86400000)\<rparr>
   }"

definition customer_count :: "tenant_seed \<Rightarrow> nat" where
  "customer_count tenant =
     (if tn_id (se_tenant tenant) = ''acme-corp'' then 1400
      else if tn_id (se_tenant tenant) = ''globex'' then 900 else 500)"

text \<open>The lines of one order, with the running amount.\<close>

fun seed_lines ::
    "(rat \<Rightarrow> rat) \<Rightarrow> (rat \<Rightarrow> rat) \<Rightarrow> product_row list \<Rightarrow> nat \<Rightarrow> nat \<Rightarrow> nat \<Rightarrow> item_row list \<Rightarrow> rat \<Rightarrow>
       (item_row list \<times> rat) draw" where
  "seed_lines fl to_fixed tenantProducts orderId itemId 0 items amount = State_Monad.return (items, amount)"
| "seed_lines fl to_fixed tenantProducts orderId itemId (Suc n) items amount = do {
     product \<leftarrow> pick tenantProducts;
     quantity \<leftarrow> intBetween fl 1 12;
     let lineTotal = to_fixed (fl (pd_unit_price product * of_int quantity));
     seed_lines fl to_fixed tenantProducts orderId (itemId + 1) n
       (items @ [\<lparr>it_id = itemId, it_order_id = orderId, it_product_id = pd_id product,
          it_quantity = quantity, it_unit_price = pd_unit_price product, it_line_total = lineTotal\<rparr>])
       (fl (amount + lineTotal))
   }"

definition seed_order ::
    "(rat \<Rightarrow> rat) \<Rightarrow> (rat \<Rightarrow> rat) \<Rightarrow> int \<Rightarrow> int \<Rightarrow> warehouse_db \<Rightarrow> warehouse_db draw" where
  "seed_order fl to_fixed now day db = do {
     customer \<leftarrow> pick (wh_customers db);
     second \<leftarrow> intBetween fl 0 86399;
     lineCount \<leftarrow> intBetween fl 1 5;
     let orderId = length (wh_orders db) + 1;
     let tenantProducts = filter (\<lambda>p. pd_tenant_id p = cu_tenant_id customer) (wh_products db);
     (items, amount) \<leftarrow> seed_lines fl to_fixed tenantProducts orderId (length (wh_items db) + 1)
       (nat lineCount) [] 0;
     status \<leftarrow> pick ORDER_STATUS;
     channel \<leftarrow> pick CHANNELS;
     State_Monad.return (db\<lparr>wh_items := wh_items db @ items,
       wh_orders := wh_orders db @ [\<lparr>or_id = orderId, or_tenant_id = cu_tenant_id customer,
         or_territory = cu_territory customer, or_customer_id = cu_id customer,
         or_order_date = iso_string (now - (90 - day) * 86400000 + second * 1000),
         or_status = status, or_channel = channel, or_total_amount = to_fixed amount\<rparr>]\<rparr>)
   }"

definition day_weights :: "(rat \<Rightarrow> rat) \<Rightarrow> int \<Rightarrow> rat list" where
  "day_weights fl now = map (\<lambda>day. volumeMultiplier fl (now - (90 - int day) * 86400000)) [0..<90]"

definition day_orders :: "(rat \<Rightarrow> rat) \<Rightarrow> int \<Rightarrow> nat \<Rightarrow> nat" where
  "day_orders fl now day =
     (let weights = day_weights fl now;
          weightTotal = foldl (\<lambda>sum weight. fl (sum + weight)) 0 weights
      in nat \<lfloor>fl (fl (50000 * weights ! day) / weightTotal) + 1 / 2\<rfloor>)"

definition seed_day :: "(rat \<Rightarrow> rat) \<Rightarrow> (rat \<Rightarrow> rat) \<Rightarrow> int \<Rightarrow> nat \<Rightarrow> warehouse_db \<Rightarrow> warehouse_db draw" where
  "seed_day fl to_fixed now day db =
     draw_each (\<lambda>_. seed_order fl to_fixed now (int day)) [0..<day_orders fl now day] db"

definition seedWarehouse :: "(rat \<Rightarrow> rat) \<Rightarrow> (rat \<Rightarrow> rat) \<Rightarrow> int \<Rightarrow> warehouse_db draw" where
  "seedWarehouse fl to_fixed now = do {
     products \<leftarrow> draw_each (\<lambda>tenant acc. do {
         rows \<leftarrow> traverse_list (seed_product fl to_fixed (tn_id (se_tenant tenant)) (length acc + 1)) [0..<60];
         State_Monad.return (acc @ rows) }) SEED_TENANTS [];
     customers \<leftarrow> draw_each (\<lambda>tenant acc. do {
         rows \<leftarrow> traverse_list (seed_customer fl now tenant (length acc + 1)) [0..<customer_count tenant];
         State_Monad.return (acc @ rows) }) SEED_TENANTS [];
     draw_each (seed_day fl to_fixed now) [0..<90]
       \<lparr>wh_products = products, wh_customers = customers, wh_orders = [], wh_items = []\<rparr>
   }"

section \<open>The audit history\<close>

definition TOOL_NAMES :: "string list" where
  "TOOL_NAMES = [''sf.query'', ''sf.get_contact'', ''sf.list_opportunities'', ''sf.create_task'',
     ''pg.list_tables'', ''pg.describe_table'', ''pg.query'']"

definition SERVER_FOR_TOOL :: "(string \<times> string) list" where
  "SERVER_FOR_TOOL = [(''sf.query'', ''salesforce''), (''sf.get_contact'', ''salesforce''),
     (''sf.list_opportunities'', ''salesforce''), (''sf.create_task'', ''salesforce''),
     (''pg.list_tables'', ''postgres''), (''pg.describe_table'', ''postgres''), (''pg.query'', ''postgres'')]"

definition DENY_REASONS :: "string list" where
  "DENY_REASONS = [''policy:deny-pii-on-restricted-plan'', ''policy:deny-bulk-extraction'',
     ''policy:deny-warehouse-query-for-viewers'', ''scope:salesforce:write'', ''rate_limit:user:tool'',
     ''permission_mirror:no_scopes_for_mcp:salesforce'']"

text \<open>\<open>n.toString(radix)\<close> of a natural number, for a radix of at least two.\<close>

definition radix_digit :: "nat \<Rightarrow> char" where
  "radix_digit d = (if d < 10 then digit_char d else char_of (87 + d))"

fun radix_str :: "nat \<Rightarrow> nat \<Rightarrow> string" where
  "radix_str b n = (if n < b \<or> b < 2 then [radix_digit n] else radix_str b (n div b) @ [radix_digit (n mod b)])"

text \<open>The times of the events: candidates are kept with a chance that follows the season, at most
  twenty per event wanted; \<open>new Date\<close> drops the fraction of a millisecond.\<close>

fun sample_times :: "(rat \<Rightarrow> rat) \<Rightarrow> int \<Rightarrow> nat \<Rightarrow> nat \<Rightarrow> int list \<Rightarrow> int list draw" where
  "sample_times fl now wanted 0 events = State_Monad.return events"
| "sample_times fl now wanted (Suc attempts) events =
     (if wanted \<le> length events then State_Monad.return events
      else do {
        r \<leftarrow> random;
        let instant = \<lfloor>fl (of_int now - fl (r * 604800000))\<rfloor>;
        keep \<leftarrow> random;
        sample_times fl now wanted attempts
          (if keep < volumeMultiplier fl instant then events @ [instant] else events)
      })"

definition draw_input :: "(rat \<Rightarrow> rat) \<Rightarrow> int \<Rightarrow> append_input draw" where
  "draw_input fl instant = do {
     tenant \<leftarrow> pick SEED_TENANTS;
     user \<leftarrow> pick (filter (\<lambda>u. us_tenant_id u = tn_id (se_tenant tenant)) SEED_USERS);
     tool \<leftarrow> pick TOOL_NAMES;
     let denyChance = (if tn_plan (se_tenant tenant) = Restricted then fl (28 / 100)
       else if us_role user = Viewer then fl (12 / 100) else fl (4 / 100));
     r \<leftarrow> random;
     let denied = (r < denyChance);
     base \<leftarrow> (if starts_with tool ''pg.'' then between fl 25 140 else between fl 8 55);
     tail_draw \<leftarrow> random;
     latency \<leftarrow> (if tail_draw < fl (2 / 100)
       then do { factor \<leftarrow> between fl 4 12; State_Monad.return (fl (base * factor)) }
       else State_Monad.return base);
     jti \<leftarrow> random;
     reason \<leftarrow> (if denied then do { x \<leftarrow> pick DENY_REASONS; State_Monad.return (Some x) }
       else State_Monad.return None);
     trace \<leftarrow> random;
     let hex = radix_str 16 (nat \<lfloor>fl (trace * 10000000000000000)\<rfloor>);
     State_Monad.return
       \<lparr>in_tenantId = tn_id (se_tenant tenant), in_userId = us_id user,
        in_actorTokenJti = ''seed_'' @ radix_str 36 (nat \<lfloor>fl (jti * 1000000000)\<rfloor>),
        in_mcpServer = or_default (map_of SERVER_FOR_TOOL tool) ''salesforce'', in_toolName = tool,
        in_arguments = CObj [(''seeded'', CBool True), (''tool'', CStr tool), (''at'', CStr (iso_string instant))],
        in_decision = (if denied then Deny else Allow), in_denyReason = reason,
        in_latencyMs = JFin (of_int \<lfloor>(if denied then fl (latency / 3) else latency) + 1 / 2\<rfloor>),
        in_traceId = Some (replicate (32 - length hex) (CHR ''0'') @ hex),
        in_occurredAt = Some (Some instant), in_capturePayload = None\<rparr>
   }"

text \<open>One append per event; one that throws ends the run.\<close>

fun append_history ::
    "(string \<Rightarrow> string) \<Rightarrow> (rat \<Rightarrow> string) \<Rightarrow> (raw_row \<Rightarrow> bool) \<Rightarrow> (rat \<Rightarrow> rat) \<Rightarrow> (nat \<Rightarrow> string) \<Rightarrow> int \<Rightarrow>
       int list \<Rightarrow> nat \<Rightarrow> audit_db \<Rightarrow> 32 word \<Rightarrow> audit_db \<times> (append_error, nat) result" where
  "append_history sha fmt refuses fl ids now [] written db rng = (db, Inr written)"
| "append_history sha fmt refuses fl ids now (instant # events) written db rng =
     (case run_state (draw_input fl instant) rng of
        (input, rng') \<Rightarrow>
          (case audit_append sha fmt refuses (\<lambda>_. False) False (ids written) (Some now) input db of
             (db', Inl e) \<Rightarrow> (db', Inl e)
           | (db', Inr _) \<Rightarrow> append_history sha fmt refuses fl ids now events (written + 1) db' rng'))"

definition seedAuditHistory ::
    "(string \<Rightarrow> string) \<Rightarrow> (rat \<Rightarrow> string) \<Rightarrow> (raw_row \<Rightarrow> bool) \<Rightarrow> (rat \<Rightarrow> rat) \<Rightarrow> (nat \<Rightarrow> string) \<Rightarrow> int \<Rightarrow>
       nat \<Rightarrow> audit_db \<Rightarrow> 32 word \<Rightarrow> audit_db \<times> (append_error, nat) result" where
  "seedAuditHistory sha fmt refuses fl ids now wanted db rng =
     (case run_state (sample_times fl now wanted (wanted * 20) []) rng of
        (events, rng') \<Rightarrow> append_history sha fmt refuses fl ids now (sort events) 0 db rng')"


section \<open>The commands\<close>

record demo_world =
  dw_state :: demo_state
  dw_warehouse :: warehouse_db
  dw_rng :: "32 word"

datatype seed_error = Statement_unanswered | Append_threw append_error

text \<open>What \<open>seed\<close> is given: the instant, the identifiers of the appended rows, what the database refuses,
  the number of events and whether the warehouse is left alone.\<close>

record seed_run =
  sr_now :: int
  sr_ids :: "nat \<Rightarrow> string"
  sr_refuses :: "raw_row \<Rightarrow> bool"
  sr_events :: nat
  sr_skipWarehouse :: bool

definition seed_demo ::
    "(string \<Rightarrow> string) \<Rightarrow> (rat \<Rightarrow> string) \<Rightarrow> (rat \<Rightarrow> rat) \<Rightarrow> (rat \<Rightarrow> rat) \<Rightarrow> seed_run \<Rightarrow> nat \<Rightarrow>
       demo_world \<Rightarrow> demo_world \<times> (seed_error, nat) result" where
  "seed_demo sha fmt fl to_fixed sr n w =
     (let (control, ok) = seedControlPlane n (dm_control (dw_state w));
          w1 = w\<lparr>dw_state := (dw_state w)\<lparr>dm_control := control\<rparr>\<rparr>
      in if \<not> ok then (w1, Inl Statement_unanswered)
         else
           (let (warehouse, rng) = (if sr_skipWarehouse sr then (dw_warehouse w1, dw_rng w1)
                  else run_state (seedWarehouse fl to_fixed (sr_now sr)) (dw_rng w1));
                (tables, r) = seedAuditHistory sha fmt (sr_refuses sr) fl (sr_ids sr) (sr_now sr)
                  (sr_events sr) (gd_tables (dm_audit (dw_state w1))) rng
            in (w1\<lparr>dw_warehouse := warehouse, dw_state := (dw_state w1)\<lparr>dm_audit :=
                  (dm_audit (dw_state w1))\<lparr>gd_tables := tables\<rparr>\<rparr>\<rparr>,
                case r of Inl e \<Rightarrow> Inl (Append_threw e) | Inr written \<Rightarrow> Inr written)))"

definition reset_demo ::
    "(string \<Rightarrow> string) \<Rightarrow> (rat \<Rightarrow> string) \<Rightarrow> (rat \<Rightarrow> rat) \<Rightarrow> (rat \<Rightarrow> rat) \<Rightarrow> seed_run \<Rightarrow> nat \<Rightarrow> nat \<Rightarrow>
       demo_world \<Rightarrow> demo_world \<times> (seed_error, nat) result" where
  "reset_demo sha fmt fl to_fixed sr cleared n w =
     (case clearControlPlane cleared (dw_state w) of
        (s, False) \<Rightarrow> (w\<lparr>dw_state := s\<rparr>, Inl Statement_unanswered)
      | (s, True) \<Rightarrow> seed_demo sha fmt fl to_fixed sr n
          (w\<lparr>dw_state := s\<lparr>dm_redis := clearRedis (dm_redis s)\<rparr>\<rparr>))"

section \<open>The history is a log of the writer's\<close>

lemma append_history_reachable:
  "audit_reachable sha fmt db \<Longrightarrow>
     audit_reachable sha fmt (fst (append_history sha fmt refuses fl ids now events written db rng))"
proof (induction events arbitrary: written db rng)
  case (Cons instant events)
  obtain input rng' where draw: "run_state (draw_input fl instant) rng = (input, rng')" by (metis surj_pair)
  obtain db' r where step: "audit_append sha fmt refuses (\<lambda>_. False) False (ids written) (Some now) input db = (db', r)"
    by (metis surj_pair)
  from audit_reachable.append [OF Cons.prems] step have "audit_reachable sha fmt db'" by (metis fst_conv)
  with Cons.IH draw step show ?case by (cases r) simp_all
qed simp

lemma append_history_length:
  "append_history sha fmt refuses fl ids now events written db rng = (db', Inr n) \<Longrightarrow>
     n = written + length events \<and> length (db_events db') = length (db_events db) + length events"
proof (induction events arbitrary: written db rng)
  case (Cons instant events)
  obtain input rng' where draw: "run_state (draw_input fl instant) rng = (input, rng')" by (metis surj_pair)
  obtain db1 r where step: "audit_append sha fmt refuses (\<lambda>_. False) False (ids written) (Some now) input db = (db1, r)"
    by (metis surj_pair)
  with draw Cons.prems obtain a where a: "r = Inr a"
    and rest: "append_history sha fmt refuses fl ids now events (written + 1) db1 rng' = (db', Inr n)"
    by (cases r) auto
  have "length (db_events db1) = Suc (length (db_events db))"
    using audit_append_atomic [where sha = sha and fmt = fmt and refuses = refuses and
        refuses_json = "\<lambda>_. False" and capturePayloads = False and newId = "ids written" and
        now = "Some now" and input = input and db = db]
    by (auto simp: step a)
  with Cons.IH [OF rest] show ?case by simp
qed simp

lemma seedAuditHistory_reachable:
  "audit_reachable sha fmt db \<Longrightarrow>
     audit_reachable sha fmt (fst (seedAuditHistory sha fmt refuses fl ids now wanted db rng))"
  by (simp add: seedAuditHistory_def split_beta append_history_reachable)

text \<open>Never more events than asked for.\<close>

lemma sample_times_length:
  "length events \<le> wanted \<Longrightarrow>
     pred_state (\<lambda>ts. length ts \<le> wanted) (sample_times fl now wanted n events)"
proof (induction n arbitrary: events)
  case (Suc n)
  then show ?case
    by (auto simp: Let_def intro!: pred_state_bind_any)
qed simp

lemma seedAuditHistory_length:
  assumes "seedAuditHistory sha fmt refuses fl ids now wanted db rng = (db', Inr n)"
  shows "n \<le> wanted \<and> length (db_events db') = length (db_events db) + n"
proof -
  obtain events rng' where ev: "run_state (sample_times fl now wanted (wanted * 20) []) rng = (events, rng')"
    by (metis surj_pair)
  then have "length events \<le> wanted"
    using pred_state_run_state [OF sample_times_length [of "[]" wanted fl now "wanted * 20"], of rng] by simp
  with assms ev append_history_length show ?thesis by (fastforce simp: seedAuditHistory_def)
qed

section \<open>The warehouse is consistent\<close>

definition counted :: "nat list \<Rightarrow> bool" where
  "counted xs \<longleftrightarrow> xs = [1..<Suc (length xs)]"

lemma counted_Nil [simp]: "counted []"
  by (simp add: counted_def)

lemma counted_append: "counted xs \<Longrightarrow> counted (xs @ [Suc (length xs)..<Suc (length xs) + n])"
proof -
  assume "counted xs"
  moreover have "[1..<Suc (length xs) + n] = [1..<Suc (length xs)] @ [Suc (length xs)..<Suc (length xs) + n]"
    by (rule upt_add_eq_append) simp
  ultimately show ?thesis by (simp add: counted_def del: upt_Suc)
qed

definition order_total :: "(rat \<Rightarrow> rat) \<Rightarrow> rat \<Rightarrow> item_row list \<Rightarrow> rat" where
  "order_total fl start items = foldl (\<lambda>amount i. fl (amount + it_line_total i)) start items"

definition line_ok :: "(rat \<Rightarrow> rat) \<Rightarrow> (rat \<Rightarrow> rat) \<Rightarrow> product_row list \<Rightarrow> item_row \<Rightarrow> bool" where
  "line_ok fl to_fixed products i \<longleftrightarrow> (\<exists>p \<in> set products. it_product_id i = pd_id p \<and>
     it_unit_price i = pd_unit_price p \<and>
     it_line_total i = to_fixed (fl (pd_unit_price p * of_int (it_quantity i))))"

lemma seed_lines_result:
  assumes "products \<noteq> []"
  shows "pred_state (\<lambda>(items', amount'). \<exists>new. items' = items @ new \<and> length new = n \<and>
      map it_id new = [itemId..<itemId + n] \<and> list_all (line_ok fl to_fixed products) new \<and>
      list_all (\<lambda>i. it_order_id i = orderId) new \<and> amount' = order_total fl amount new)
    (seed_lines fl to_fixed products orderId itemId n items amount)"
proof (induction n arbitrary: itemId items amount)
  case 0
  then show ?case by (simp add: order_total_def)
next
  case (Suc n)
  show ?case
    unfolding seed_lines.simps Let_def
  proof (intro pred_state_bind [OF pick_member [OF assms]] pred_state_bind_any, rule pred_state_mono [OF Suc.IH],
      clarify)
    fix product :: product_row and quantity and new :: "item_row list"
    let ?i = "\<lparr>it_id = itemId, it_order_id = orderId, it_product_id = pd_id product,
      it_quantity = quantity, it_unit_price = pd_unit_price product,
      it_line_total = to_fixed (fl (pd_unit_price product * of_int quantity))\<rparr>"
    assume "product \<in> set products" and new: "n = length new" "map it_id new = [itemId + 1..<itemId + 1 + length new]"
      "list_all (line_ok fl to_fixed products) new" "list_all (\<lambda>i. it_order_id i = orderId) new"
    then have "line_ok fl to_fixed products ?i" by (auto simp: line_ok_def)
    with new show "\<exists>new'. (items @ [?i]) @ new = items @ new' \<and> length new' = Suc (length new) \<and>
        map it_id new' = [itemId..<itemId + Suc (length new)] \<and>
        list_all (line_ok fl to_fixed products) new' \<and> list_all (\<lambda>i. it_order_id i = orderId) new' \<and>
        order_total fl (fl (amount + to_fixed (fl (pd_unit_price product * of_int quantity)))) new =
          order_total fl amount new'"
      by (intro exI [of _ "?i # new"]) (simp add: order_total_def upt_conv_Cons del: upt_Suc)
  qed
qed

definition order_ok :: "(rat \<Rightarrow> rat) \<Rightarrow> (rat \<Rightarrow> rat) \<Rightarrow> warehouse_db \<Rightarrow> order_row \<Rightarrow> bool" where
  "order_ok fl to_fixed db r \<longleftrightarrow>
     (\<exists>c \<in> set (wh_customers db). or_customer_id r = cu_id c \<and> or_tenant_id r = cu_tenant_id c \<and>
        or_territory r = cu_territory c) \<and>
     or_total_amount r =
       to_fixed (order_total fl 0 (filter (\<lambda>i. it_order_id i = or_id r) (wh_items db)))"

definition item_ok :: "(rat \<Rightarrow> rat) \<Rightarrow> (rat \<Rightarrow> rat) \<Rightarrow> warehouse_db \<Rightarrow> item_row \<Rightarrow> bool" where
  "item_ok fl to_fixed db i \<longleftrightarrow> (\<exists>r \<in> set (wh_orders db). it_order_id i = or_id r \<and>
     line_ok fl to_fixed (filter (\<lambda>p. pd_tenant_id p = or_tenant_id r) (wh_products db)) i)"

definition warehouse_ok :: "(rat \<Rightarrow> rat) \<Rightarrow> (rat \<Rightarrow> rat) \<Rightarrow> warehouse_db \<Rightarrow> bool" where
  "warehouse_ok fl to_fixed db \<longleftrightarrow>
     counted (map pd_id (wh_products db)) \<and> counted (map cu_id (wh_customers db)) \<and>
     counted (map or_id (wh_orders db)) \<and> counted (map it_id (wh_items db)) \<and>
     wh_customers db \<noteq> [] \<and>
     list_all (\<lambda>c. list_ex (\<lambda>p. pd_tenant_id p = cu_tenant_id c) (wh_products db)) (wh_customers db) \<and>
     list_all (order_ok fl to_fixed db) (wh_orders db) \<and> list_all (item_ok fl to_fixed db) (wh_items db)"

lemma counted_ids: "counted (map f xs) \<Longrightarrow> x \<in> set xs \<Longrightarrow> f x \<le> length xs"
proof -
  assume "counted (map f xs)" "x \<in> set xs"
  then have "f x \<in> set [1..<Suc (length xs)]" unfolding counted_def by (metis image_eqI length_map set_map)
  then show ?thesis by auto
qed

lemma seed_order_ok:
  assumes ok: "warehouse_ok fl to_fixed db"
  shows "pred_state (warehouse_ok fl to_fixed) (seed_order fl to_fixed now day db)"
  unfolding seed_order_def Let_def
proof (rule pred_state_bind [OF pick_member])
  show "wh_customers db \<noteq> []" using ok by (simp add: warehouse_ok_def)
next
  fix customer assume c: "customer \<in> set (wh_customers db)"
  let ?products = "filter (\<lambda>p. pd_tenant_id p = cu_tenant_id customer) (wh_products db)"
  let ?o = "length (wh_orders db) + 1"
  have ne: "?products \<noteq> []"
    using ok c by (auto simp: warehouse_ok_def list_all_iff list_ex_iff filter_empty_conv)
  show "pred_state (warehouse_ok fl to_fixed) (do {
     second \<leftarrow> intBetween fl 0 86399;
     lineCount \<leftarrow> intBetween fl 1 5;
     (items, amount) \<leftarrow> seed_lines fl to_fixed ?products ?o (length (wh_items db) + 1) (nat lineCount) [] 0;
     status \<leftarrow> pick ORDER_STATUS;
     channel \<leftarrow> pick CHANNELS;
     State_Monad.return (db\<lparr>wh_items := wh_items db @ items,
       wh_orders := wh_orders db @ [\<lparr>or_id = ?o, or_tenant_id = cu_tenant_id customer,
         or_territory = cu_territory customer, or_customer_id = cu_id customer,
         or_order_date = iso_string (now - (90 - day) * 86400000 + second * 1000),
         or_status = status, or_channel = channel, or_total_amount = to_fixed amount\<rparr>]\<rparr>) })"
  proof (rule pred_state_bind_any, rule pred_state_bind_any,
      rule pred_state_bind [OF seed_lines_result [OF ne]], clarsimp simp del: upt_Suc,
      (rule pred_state_bind_any)+, unfold pred_state_return)
    fix second :: int and lineCount :: int and new :: "item_row list" and status channel
    assume new: "length new = nat lineCount"
      "map it_id new = [Suc (length (wh_items db))..<Suc (length (wh_items db) + nat lineCount)]"
      "list_all (line_ok fl to_fixed ?products) new" "list_all (\<lambda>i. it_order_id i = Suc (length (wh_orders db))) new"
    let ?r = "\<lparr>or_id = Suc (length (wh_orders db)), or_tenant_id = cu_tenant_id customer,
         or_territory = cu_territory customer, or_customer_id = cu_id customer,
         or_order_date = iso_string (now - (7776000000 - day * 86400000) + second * 1000),
         or_status = status, or_channel = channel, or_total_amount = to_fixed (order_total fl 0 new)\<rparr>"
    let ?db = "db\<lparr>wh_items := wh_items db @ new, wh_orders := wh_orders db @ [?r]\<rparr>"
    have ids: "counted (map or_id (wh_orders db))" "counted (map it_id (wh_items db))"
      and olds: "list_all (order_ok fl to_fixed db) (wh_orders db)" "list_all (item_ok fl to_fixed db) (wh_items db)"
      using ok by (simp_all add: warehouse_ok_def)
    have old_items: "it_order_id i \<le> length (wh_orders db)" if "i \<in> set (wh_items db)" for i
      using olds(2) that counted_ids [OF ids(1)] by (auto simp: list_all_iff item_ok_def)
    have "counted (map or_id (wh_orders ?db))"
      using counted_append [OF ids(1), of 1] by simp
    moreover have "counted (map it_id (wh_items ?db))"
      using counted_append [OF ids(2), of "nat lineCount"] new(2) by simp
    moreover have "order_ok fl to_fixed ?db r" if r: "r \<in> set (wh_orders db)" for r
    proof -
      have "or_id r \<le> length (wh_orders db)" using counted_ids [OF ids(1) r] .
      then have "filter (\<lambda>i. it_order_id i = or_id r) new = []"
        using new(4) by (auto simp: list_all_iff filter_empty_conv)
      moreover have "order_ok fl to_fixed db r" using olds(1) r by (simp add: list_all_iff)
      ultimately show ?thesis by (simp add: order_ok_def)
    qed
    moreover have "order_ok fl to_fixed ?db ?r"
    proof -
      have "filter (\<lambda>i. it_order_id i = Suc (length (wh_orders db))) (wh_items db) = []"
        using old_items by (fastforce simp: filter_empty_conv)
      moreover have "filter (\<lambda>i. it_order_id i = Suc (length (wh_orders db))) new = new"
        using new(4) by (simp add: list_all_iff filter_id_conv)
      ultimately show ?thesis using c by (auto simp: order_ok_def)
    qed
    moreover have "item_ok fl to_fixed ?db i" if "i \<in> set (wh_items db)" for i
      using olds(2) that by (auto simp: list_all_iff item_ok_def)
    moreover have "item_ok fl to_fixed ?db i" if "i \<in> set new" for i
      using new(3,4) that by (auto simp: list_all_iff item_ok_def)
    ultimately show "warehouse_ok fl to_fixed ?db"
      using ok by (auto simp: warehouse_ok_def list_all_iff)
  qed
qed

lemma seed_product_fields:
  "pred_state (\<lambda>p. pd_id p = productId + i \<and> pd_tenant_id p = tn) (seed_product fl to_fixed tn productId i)"
  unfolding seed_product_def by (intro pred_state_bind_any) simp

lemma seed_customer_fields:
  "pred_state (\<lambda>c. cu_id c = customerId + i \<and> cu_tenant_id c = tn_id (se_tenant tenant))
     (seed_customer fl now tenant customerId i)"
  unfolding seed_customer_def Let_def by (intro pred_state_bind_any) simp

lemma counted_rows:
  assumes "counted (map f acc)" and "list_all2 (\<lambda>i x. f x = length acc + 1 + i \<and> Q x) [0..<n] rows"
  shows "counted (map f (acc @ rows)) \<and> list_all Q rows \<and> length rows = n"
proof -
  from assms(2) have len: "length rows = n" and nth: "\<And>i. i < n \<Longrightarrow> f (rows ! i) = length acc + 1 + i \<and> Q (rows ! i)"
    by (auto simp: list_all2_conv_all_nth)
  have "map f rows = [Suc (length (map f acc))..<Suc (length (map f acc)) + n]"
    using len nth by (intro nth_equalityI) (simp_all del: upt_Suc)
  with counted_append [OF assms(1), of n] have "counted (map f (acc @ rows))" by simp
  moreover have "list_all Q rows" using len nth by (simp add: list_all_length)
  ultimately show ?thesis using len by simp
qed

text \<open>The rows of the tenants in turn, numbered through; tenants so far are those of the rows.\<close>

lemma draw_tenants:
  fixes acc :: "'r list" and num :: "'r \<Rightarrow> nat" and own :: "'r \<Rightarrow> string"
  assumes row: "\<And>t k i. pred_state (\<lambda>x. num x = k + i \<and> own x = tn_id (se_tenant t)) (row t k i)"
    and "\<And>t. t \<in> set ts \<Longrightarrow> 0 < n t"
    and "counted (map num acc)"
  shows "pred_state (\<lambda>xs. counted (map num xs) \<and>
      own ` set xs = own ` set acc \<union> (\<lambda>t. tn_id (se_tenant t)) ` set ts)
    (draw_each (\<lambda>t acc. do { rows \<leftarrow> traverse_list (row t (length acc + 1)) [0..<n t];
       State_Monad.return (acc @ rows) }) ts acc)"
  using assms(2,3)
proof (induction ts arbitrary: acc)
  case (Cons t ts)
  let ?tn = "tn_id (se_tenant t)"
  have one: "pred_state (\<lambda>xs. counted (map num xs) \<and> own ` set xs = insert ?tn (own ` set acc))
    (do { rows \<leftarrow> traverse_list (row t (length acc + 1)) [0..<n t]; State_Monad.return (acc @ rows) })"
  proof (rule pred_state_bind [OF pred_state_traverse [OF row]], unfold pred_state_return)
    fix rows assume rows: "list_all2 (\<lambda>i x. num x = length acc + 1 + i \<and> own x = ?tn) [0..<n t] rows"
    from counted_rows [OF Cons.prems(2) rows] have "counted (map num (acc @ rows))"
      "list_all (\<lambda>x. own x = ?tn) rows" "length rows = n t" by blast+
    moreover from this(2,3) Cons.prems(1) [of t] have "own ` set rows = {?tn}"
      by (cases rows) (auto simp: list_all_iff)
    ultimately show "counted (map num (acc @ rows)) \<and> own ` set (acc @ rows) = insert ?tn (own ` set acc)"
      by (simp add: image_Un)
  qed
  show ?case
    unfolding draw_each.simps
  proof (rule pred_state_bind [OF one])
    fix xs assume xs: "counted (map num xs) \<and> own ` set xs = insert ?tn (own ` set acc)"
    have "pred_state (\<lambda>ys. counted (map num ys) \<and>
        own ` set ys = own ` set xs \<union> (\<lambda>t. tn_id (se_tenant t)) ` set ts)
      (draw_each (\<lambda>t acc. do { rows \<leftarrow> traverse_list (row t (length acc + 1)) [0..<n t];
       State_Monad.return (acc @ rows) }) ts xs)"
      using Cons.IH [of xs] Cons.prems(1) xs by simp
    then show "pred_state (\<lambda>ys. counted (map num ys) \<and>
        own ` set ys = own ` set acc \<union> (\<lambda>t. tn_id (se_tenant t)) ` set (t # ts))
      (draw_each (\<lambda>t acc. do { rows \<leftarrow> traverse_list (row t (length acc + 1)) [0..<n t];
       State_Monad.return (acc @ rows) }) ts xs)"
      by (rule pred_state_mono) (use xs in auto)
  qed
qed simp

lemma seedWarehouse_ok: "pred_state (warehouse_ok fl to_fixed) (seedWarehouse fl to_fixed now)"
  unfolding seedWarehouse_def
proof (rule pred_state_bind [OF draw_tenants [where num = pd_id and own = pd_tenant_id]])
  fix products :: "product_row list"
  assume products: "counted (map pd_id products) \<and>
    pd_tenant_id ` set products = pd_tenant_id ` set [] \<union> (\<lambda>t. tn_id (se_tenant t)) ` set SEED_TENANTS"
  show "pred_state (warehouse_ok fl to_fixed) (do {
     customers \<leftarrow> draw_each (\<lambda>tenant acc. do {
         rows \<leftarrow> traverse_list (seed_customer fl now tenant (length acc + 1)) [0..<customer_count tenant];
         State_Monad.return (acc @ rows) }) SEED_TENANTS [];
     draw_each (seed_day fl to_fixed now) [0..<90]
       \<lparr>wh_products = products, wh_customers = customers, wh_orders = [], wh_items = []\<rparr> })"
  proof (rule pred_state_bind [OF draw_tenants [where num = cu_id and own = cu_tenant_id]])
    fix customers :: "customer_row list"
    assume customers: "counted (map cu_id customers) \<and>
      cu_tenant_id ` set customers = cu_tenant_id ` set [] \<union> (\<lambda>t. tn_id (se_tenant t)) ` set SEED_TENANTS"
    have "SEED_TENANTS \<noteq> []" by (simp add: SEED_TENANTS_def)
    with customers have "customers \<noteq> []" by auto
    moreover have "list_all (\<lambda>c. list_ex (\<lambda>p. pd_tenant_id p = cu_tenant_id c) products) customers"
    proof -
      have "cu_tenant_id c \<in> pd_tenant_id ` set products" if "c \<in> set customers" for c
        using that products customers by auto
      then show ?thesis by (fastforce simp: list_all_iff list_ex_iff)
    qed
    ultimately have start: "warehouse_ok fl to_fixed
        \<lparr>wh_products = products, wh_customers = customers, wh_orders = [], wh_items = []\<rparr>"
      using products customers by (simp add: warehouse_ok_def)
    show "pred_state (warehouse_ok fl to_fixed) (draw_each (seed_day fl to_fixed now) [0..<90]
       \<lparr>wh_products = products, wh_customers = customers, wh_orders = [], wh_items = []\<rparr>)"
      by (rule pred_state_draw_each [where I = "warehouse_ok fl to_fixed", OF start])
        (auto simp: seed_day_def intro: pred_state_draw_each seed_order_ok)
  qed (auto simp: counted_def SEED_TENANTS_def customer_count_def seed_customer_fields)
qed (auto simp: counted_def seed_product_fields)

section \<open>Properties\<close>

text \<open>The drawn warehouse is consistent. Whatever the generator's state, the clock and the rounding
  of doubles, rows are numbered from one; every order belongs to a customer of its tenant and
  territory and its amount is the rounded running total of exactly its own lines; and every line
  belongs to an order and prices a product of that order's tenant.\<close>

theorem drawn_warehouse:
  "case fst (run_state (seedWarehouse fl to_fixed now) rng) of db \<Rightarrow>
     map pd_id (wh_products db) = [1..<Suc (length (wh_products db))] \<and>
     map cu_id (wh_customers db) = [1..<Suc (length (wh_customers db))] \<and>
     map or_id (wh_orders db) = [1..<Suc (length (wh_orders db))] \<and>
     map it_id (wh_items db) = [1..<Suc (length (wh_items db))] \<and>
     list_all (order_ok fl to_fixed db) (wh_orders db) \<and> list_all (item_ok fl to_fixed db) (wh_items db)"
  using pred_state_run_state [OF seedWarehouse_ok, of fl to_fixed now rng]
  by (simp add: warehouse_ok_def counted_def)

text \<open>Seeding on an empty trail keeps the guard and Redis and leaves a log of the writer's, of as many rows
  as it says.\<close>

lemma seed_demo_trail:
  assumes "gd_tables (dm_audit (dw_state w)) = empty_audit_db" and "seed_demo sha fmt fl to_fixed sr n w = (w', r)"
  shows "gd_guard (dm_audit (dw_state w')) = gd_guard (dm_audit (dw_state w)) \<and>
    dm_redis (dw_state w') = dm_redis (dw_state w) \<and>
    audit_reachable sha fmt (gd_tables (dm_audit (dw_state w'))) \<and>
    (case r of Inl e \<Rightarrow> True
     | Inr written \<Rightarrow> written = length (db_events (gd_tables (dm_audit (dw_state w')))) \<and> written \<le> sr_events sr)"
proof -
  obtain control ok where seed: "seedControlPlane n (dm_control (dw_state w)) = (control, ok)" by (metis surj_pair)
  show ?thesis
  proof (cases ok)
    case False
    with assms seed show ?thesis by (auto simp: seed_demo_def audit_reachable.start)
  next
    case True
    obtain wh rng where wh: "(if sr_skipWarehouse sr then (dw_warehouse w, dw_rng w)
        else run_state (seedWarehouse fl to_fixed (sr_now sr)) (dw_rng w)) = (wh, rng)" by (metis surj_pair)
    obtain tables h where hist: "seedAuditHistory sha fmt (sr_refuses sr) fl (sr_ids sr) (sr_now sr)
      (sr_events sr) empty_audit_db rng = (tables, h)" by (metis surj_pair)
    have "audit_reachable sha fmt tables"
      using seedAuditHistory_reachable [OF audit_reachable.start] hist by (metis fst_conv)
    moreover have "written = length (db_events tables) \<and> written \<le> sr_events sr" if "h = Inr written" for written
      using seedAuditHistory_length hist that by (fastforce simp: empty_audit_db_def)
    ultimately show ?thesis
      using assms seed True wh hist by (auto simp: seed_demo_def split: if_split_asm sum.splits)
  qed
qed

text \<open>C19: after a reset the chains verify. Once the control plane has been cleared, whatever was in the
  audit log before, whatever is drawn, refused or left unanswered while seeding, the guard is
  enabled, no bucket, exchanged token, session or login is left in Redis, every tenant's chain
  verifies with all its rows checked, and a run that completes reports the number of rows in the log,
  at most the number asked for.\<close>

theorem reset_verifies:
  assumes "digest_env (sha, fmt)" and "length clear_statements \<le> cleared"
    and "reset_demo sha fmt fl to_fixed sr cleared n w = (w', r)"
  shows "gd_guard (dm_audit (dw_state w')) \<and>
    dm_redis (dw_state w') = clearRedis (dm_redis (dw_state w)) \<and>
    (\<exists>cv. verifyTenantChain sha fmt (gd_tables (dm_audit (dw_state w'))) tn None = Inr cv \<and> cv_valid cv \<and>
       cv_rowsChecked cv = length (tenant_rows (gd_tables (dm_audit (dw_state w'))) tn)) \<and>
    (case r of Inl e \<Rightarrow> True
     | Inr written \<Rightarrow> written = length (db_events (gd_tables (dm_audit (dw_state w')))) \<and> written \<le> sr_events sr)"
proof -
  have five: "5 \<le> cleared" using assms(2) by (simp add: clear_statements_def)
  obtain s ok where clear: "clearControlPlane cleared (dw_state w) = (s, ok)" by (metis surj_pair)
  from clear_result [of cleared "dw_state w"] five clear
  have s: "ok" "gd_tables (dm_audit s) = empty_audit_db" "gd_guard (dm_audit s)" by simp_all
  have redis: "dm_redis s = dm_redis (dw_state w)"
    using five clear by (auto simp: clearControlPlane_def clear_statements_def)
  have "seed_demo sha fmt fl to_fixed sr n (w\<lparr>dw_state := s\<lparr>dm_redis := clearRedis (dm_redis s)\<rparr>\<rparr>) = (w', r)"
    using assms(3) clear s(1) by (simp add: reset_demo_def)
  from seed_demo_trail [OF _ this] s redis have "gd_guard (dm_audit (dw_state w'))"
    "dm_redis (dw_state w') = clearRedis (dm_redis (dw_state w))"
    and reach: "audit_reachable sha fmt (gd_tables (dm_audit (dw_state w')))"
    and "case r of Inl e \<Rightarrow> True
     | Inr written \<Rightarrow> written = length (db_events (gd_tables (dm_audit (dw_state w')))) \<and> written \<le> sr_events sr"
    by simp_all
  with appended_log_report [OF assms(1) audit_reachable_ok [OF reach assms(1)], of None tn]
  show ?thesis by (simp add: Let_def)
qed

definition demo_world0 :: demo_world where
  "demo_world0 = \<lparr>dw_state = \<lparr>dm_audit = \<lparr>gd_tables = demo_db, gd_guard = False\<rparr>, dm_control = empty_control,
       dm_redis = {''sess:1'', ''other''}\<rparr>,
     dw_warehouse = \<lparr>wh_products = [], wh_customers = [], wh_orders = [], wh_items = []\<rparr>, dw_rng = 5\<rparr>"

definition demo_seed_run :: seed_run where
  "demo_seed_run = \<lparr>sr_now = 1767225600000, sr_ids = nat_str, sr_refuses = (\<lambda>_. False), sr_events = 3,
     sr_skipWarehouse = True\<rparr>"

theorem reset_verifies_witness:
  "\<exists>w' r cv. reset_demo len_digest ratio_fmt id id demo_seed_run 5 55 demo_world0 = (w', r) \<and>
     gd_guard (dm_audit (dw_state w')) \<and> ''sess:1'' \<notin> dm_redis (dw_state w') \<and>
     verifyTenantChain len_digest ratio_fmt (gd_tables (dm_audit (dw_state w'))) ''acme-corp'' None = Inr cv \<and>
     cv_valid cv"
proof -
  obtain w' r where run: "reset_demo len_digest ratio_fmt id id demo_seed_run 5 55 demo_world0 = (w', r)"
    by (metis surj_pair)
  have "length clear_statements \<le> 5" by (simp add: clear_statements_def)
  from reset_verifies [OF digest_env_example this run, of "''acme-corp''"] run cleared_keys(3) [of "''1''"]
  show ?thesis by auto
qed

end
