(* ===== verification/Gw_App.thy ===== *)
theory Gw_App
  imports Gw_Console Chain_Check
begin

text \<open>
  The outer edge of the processes: the replies of the gateway to unknown routes and to errors outside the
  tool routes (\<open>apps/gateway/src/app.ts\<close>), the listing of limits with their live buckets
  (\<open>GET /api/rate-limits\<close> of \<open>routes/api.ts\<close>), and the validation of the environment that every
  process starts with (\<open>packages/shared/src/config.ts\<close>).

  Whether a text is a URL is Node's (\<open>valid_url\<close>); which keys match a pattern and in what order, and the
  order of the database's collation, are arguments.
\<close>

section \<open>Replies of the application\<close>

record app_reply =
  ar_status :: int
  ar_headers :: "(string \<times> string) list"
  ar_body :: jval

definition notFoundHandler :: "string \<Rightarrow> string \<Rightarrow> app_reply" where
  "notFoundHandler verb url =
     \<lparr>ar_status = 404, ar_headers = [],
      ar_body = JObj [(''error'', JObj [(''code'', JStr ''not_found''),
        (''message'', JStr (''No route for '' @ verb @ '' '' @ url))])]\<rparr>"

definition errorHandler :: "thrown \<Rightarrow> app_reply" where
  "errorHandler e =
     (let failure = toGatewayError e in
      \<lparr>ar_status = ge_status failure,
       ar_headers = (case ge_retryAfterSeconds failure of
         None \<Rightarrow> [] | Some s \<Rightarrow> [(''retry-after'', int_str s)]),
       ar_body = toResponseBody failure\<rparr>)"

section \<open>The limits with their live buckets\<close>

text \<open>\<open>Number.parseFloat\<close>: the longest prefix that is a decimal number.\<close>

definition decimal_text :: "string \<Rightarrow> js_num option" where
  "decimal_text s =
     (let negative = (take 1 s = ''-'');
          body = (if take 1 s \<in> {''-'', ''+''} then drop 1 s else s)
      in if body = ''Infinity'' then Some (if negative then JNegInf else JInf)
         else map_option (\<lambda>q. if negative then (if q = 0 then JNegZero else JFin (- q)) else JFin q)
           (parse_unsigned_decimal body))"

definition parseFloat :: "string \<Rightarrow> js_num" where
  "parseFloat s =
     (let t = trim_start s in
      case List.find (\<lambda>n. decimal_text (take n t) \<noteq> None) (rev [1..<Suc (length t)]) of
        None \<Rightarrow> JNaN | Some n \<Rightarrow> the (decimal_text (take n t)))"

record live_bucket =
  lb_key :: string
  lb_tokens :: "js_num option"
  lb_updatedAt :: "int option option"

text \<open>One bucket from the answer to \<open>HGETALL\<close>, an empty hash when that fails.\<close>

definition live_bucket_of :: "string \<Rightarrow> (string \<times> string) list option \<Rightarrow> live_bucket" where
  "live_bucket_of key answer =
     (let field = (\<lambda>f. or_default (map_of (or_default answer []) f) [])
      in \<lparr>lb_key = key,
          lb_tokens = (if field ''tokens'' = [] then None else Some (parseFloat (field ''tokens''))),
          lb_updatedAt = (if field ''ts'' = [] then None else Some (parse_int10 (field ''ts'')))\<rparr>)"

record limits_listing =
  ll_configs :: "limit_row list"
  ll_buckets :: "live_bucket list"

definition api_limits ::
    "(limit_record \<Rightarrow> limit_record \<Rightarrow> bool) \<Rightarrow> (string \<Rightarrow> string list option) \<Rightarrow>
       (string \<Rightarrow> (string \<times> string) list option) \<Rightarrow> string \<Rightarrow> limit_row list \<Rightarrow> limits_listing" where
  "api_limits le keys hgetall tenantId rows =
     (let found = or_default (keys (''rl:{'' @ tenantId @ ''}:*'')) [];
          buckets = map (\<lambda>k. live_bucket_of k (hgetall k)) (take 100 found)
      in \<lparr>ll_configs = sort_by (\<lambda>a b. le (lw_limit a) (lw_limit b))
            (filter (\<lambda>r. lr_tenantId (lw_limit r) = tenantId) rows),
          ll_buckets = filter (\<lambda>b. lb_tokens b \<noteq> None) buckets\<rparr>)"

section \<open>The environment\<close>

datatype env_type =
    Env_int int "int option"
  | Env_url
  | Env_bool
  | Env_text nat
  | Env_enum "string list"

datatype env_value = Val_int int | Val_bool bool | Val_text string | Val_absent

datatype env_absent = Required | Optional | Default env_value

record env_field =
  ef_name :: string
  ef_type :: env_type
  ef_absent :: env_absent

definition req :: "string \<Rightarrow> env_type \<Rightarrow> env_field" where
  "req n t = \<lparr>ef_name = n, ef_type = t, ef_absent = Required\<rparr>"

definition opt :: "string \<Rightarrow> env_type \<Rightarrow> env_field" where
  "opt n t = \<lparr>ef_name = n, ef_type = t, ef_absent = Optional\<rparr>"

definition dflt :: "string \<Rightarrow> env_type \<Rightarrow> env_value \<Rightarrow> env_field" where
  "dflt n t v = \<lparr>ef_name = n, ef_type = t, ef_absent = Default v\<rparr>"

definition port :: env_type where
  "port = Env_int 1 (Some 65535)"

definition baseSchema :: "env_field list" where
  "baseSchema =
     [dflt ''NODE_ENV'' (Env_enum [''development'', ''test'', ''production'']) (Val_text ''development''),
      dflt ''LOG_LEVEL'' (Env_enum [''fatal'', ''error'', ''warn'', ''info'', ''debug'', ''trace'']) (Val_text ''info''),
      dflt ''OTEL_EXPORTER_OTLP_ENDPOINT'' Env_url (Val_text ''http://localhost:4318''),
      dflt ''OTEL_SDK_DISABLED'' Env_bool (Val_bool False),
      dflt ''SERVICE_VERSION'' (Env_text 0) (Val_text ''0.1.0'')]"

definition gatewayConfigSchema :: "env_field list" where
  "gatewayConfigSchema = baseSchema @
     [dflt ''GATEWAY_PORT'' port (Val_int 8080),
      dflt ''GATEWAY_HOST'' (Env_text 0) (Val_text ''0.0.0.0''),
      dflt ''GATEWAY_PUBLIC_URL'' Env_url (Val_text ''http://localhost:8080''),
      dflt ''DASHBOARD_ORIGIN'' Env_url (Val_text ''http://localhost:3000''),
      req ''DATABASE_URL'' (Env_text 1),
      opt ''AUDIT_DATABASE_URL'' (Env_text 1),
      req ''REDIS_URL'' (Env_text 1),
      req ''OIDC_ISSUER'' Env_url,
      opt ''OIDC_ISSUER_INTERNAL'' Env_url,
      req ''GATEWAY_CLIENT_ID'' (Env_text 1),
      req ''GATEWAY_CLIENT_SECRET'' (Env_text 1),
      dflt ''DASHBOARD_CLIENT_ID'' (Env_text 1) (Val_text ''dashboard-bff''),
      req ''DASHBOARD_CLIENT_SECRET'' (Env_text 1),
      req ''SESSION_COOKIE_SECRET'' (Env_text 32),
      req ''MCP_SALESFORCE_URL'' Env_url,
      req ''MCP_POSTGRES_URL'' Env_url,
      req ''MCP_POLICY_URL'' Env_url,
      dflt ''TOKEN_EXCHANGE_CACHE_MAX_TTL_SECONDS'' (Env_int 10 (Some 3600)) (Val_int 300),
      dflt ''AUDIT_PAYLOAD_CAPTURE'' Env_bool (Val_bool False),
      dflt ''JAEGER_UI_URL'' Env_url (Val_text ''http://localhost:16686''),
      dflt ''GRAFANA_URL'' Env_url (Val_text ''http://localhost:3001'')]"

definition idpConfigSchema :: "env_field list" where
  "idpConfigSchema = baseSchema @
     [dflt ''IDP_PORT'' port (Val_int 9000),
      dflt ''IDP_ISSUER'' Env_url (Val_text ''http://localhost:9000''),
      dflt ''IDP_SIGNING_KEY_SEED'' (Env_text 8) (Val_text ''mcpgateway-local-signing-seed''),
      dflt ''IDP_ACCESS_TOKEN_TTL_SECONDS'' (Env_int 60 (Some 86400)) (Val_int 900)]"

definition mcpServerConfigSchema :: "env_field list" where
  "mcpServerConfigSchema = baseSchema @
     [req ''PORT'' port,
      req ''SERVICE_NAME'' (Env_text 1),
      req ''OIDC_ISSUER'' Env_url,
      opt ''OIDC_ISSUER_INTERNAL'' Env_url,
      req ''EXPECTED_AUDIENCE'' (Env_text 1)]"

definition warehouseConfigSchema :: "env_field list" where
  "warehouseConfigSchema = mcpServerConfigSchema @
     [req ''WAREHOUSE_DATABASE_URL'' (Env_text 1),
      dflt ''PG_STATEMENT_TIMEOUT_MS'' (Env_int 100 (Some 60000)) (Val_int 5000),
      dflt ''PG_MAX_ROWS'' (Env_int 1 (Some 10000)) (Val_int 500)]"

text \<open>One value. Numbers are coerced by \<open>Number\<close>, which turns an absent one into \<open>NaN\<close>.\<close>

definition check_text :: "(string \<Rightarrow> bool) \<Rightarrow> env_type \<Rightarrow> string \<Rightarrow> env_value option" where
  "check_text valid_url t s = (case t of
     Env_int lo hi \<Rightarrow> map_option Val_int (int_between lo hi (js_string_to_num s))
   | Env_url \<Rightarrow> if valid_url s then Some (Val_text s) else None
   | Env_bool \<Rightarrow> if s \<in> {''true'', ''false'', ''1'', ''0''} then Some (Val_bool (s = ''true'' \<or> s = ''1'')) else None
   | Env_text n \<Rightarrow> if n \<le> length s then Some (Val_text s) else None
   | Env_enum members \<Rightarrow> if s \<in> set members then Some (Val_text s) else None)"

definition check_field :: "(string \<Rightarrow> bool) \<Rightarrow> (string \<Rightarrow> string option) \<Rightarrow> env_field \<Rightarrow> env_value option" where
  "check_field valid_url source f =
     (case source (ef_name f) of
        Some s \<Rightarrow> check_text valid_url (ef_type f) s
      | None \<Rightarrow> (case ef_absent f of Required \<Rightarrow> None | Optional \<Rightarrow> Some Val_absent | Default v \<Rightarrow> Some v))"

text \<open>How many issues a variable causes: the three checks of a number are made independently.\<close>

definition int_issues :: "int \<Rightarrow> int option \<Rightarrow> js_num \<Rightarrow> nat" where
  "int_issues lo hi n =
     (let outside = (\<lambda>q::rat. of_bool (q < of_int lo) + of_bool (case hi of None \<Rightarrow> False | Some h \<Rightarrow> of_int h < q))
      in case n of
        JFin q \<Rightarrow> of_bool (\<not> is_int_rat q) + outside q
      | JNegZero \<Rightarrow> outside 0
      | JNaN \<Rightarrow> 1
      | JInf \<Rightarrow> 1 + of_bool (hi \<noteq> None)
      | JNegInf \<Rightarrow> 2)"

definition field_issues :: "(string \<Rightarrow> bool) \<Rightarrow> (string \<Rightarrow> string option) \<Rightarrow> env_field \<Rightarrow> nat" where
  "field_issues valid_url source f =
     (case (source (ef_name f), ef_type f) of
        (Some s, Env_int lo hi) \<Rightarrow> int_issues lo hi (js_string_to_num s)
      | _ \<Rightarrow> of_bool (check_field valid_url source f = None))"

text \<open>The variables of the lines of the error, in the order of the schema, or the configuration.\<close>

definition loadConfig ::
    "(string \<Rightarrow> bool) \<Rightarrow> env_field list \<Rightarrow> (string \<Rightarrow> string option) \<Rightarrow>
       (string list, (string \<times> env_value) list) result" where
  "loadConfig valid_url schema source =
     (let issues = concat (map (\<lambda>f. replicate (field_issues valid_url source f) (ef_name f)) schema)
      in if issues = [] then Inr (map (\<lambda>f. (ef_name f, the (check_field valid_url source f))) schema)
         else Inl issues)"

section \<open>What they guarantee\<close>

lemma api_limits_own:
  assumes "\<And>p k ks. keys p = Some ks \<Longrightarrow> k \<in> set ks \<Longrightarrow> starts_with k (butlast p)"
  shows "list_all (\<lambda>r. lr_tenantId (lw_limit r) = tn) (ll_configs (api_limits le keys hgetall tn rows))"
    and "list_all (\<lambda>b. starts_with (lb_key b) (''rl:{'' @ tn @ ''}:'')) (ll_buckets (api_limits le keys hgetall tn rows))"
proof -
  show "list_all (\<lambda>r. lr_tenantId (lw_limit r) = tn) (ll_configs (api_limits le keys hgetall tn rows))"
    by (simp add: api_limits_def Let_def list_all_iff)
  let ?p = "''rl:{'' @ tn @ ''}:*''"
  have "butlast ?p = ''rl:{'' @ tn @ ''}:''" by (simp add: butlast_append)
  then have "starts_with k (''rl:{'' @ tn @ ''}:'')" if "k \<in> set (or_default (keys ?p) [])" for k
    using that assms [of ?p _ k] by (cases "keys ?p") auto
  then show "list_all (\<lambda>b. starts_with (lb_key b) (''rl:{'' @ tn @ ''}:'')) (ll_buckets (api_limits le keys hgetall tn rows))"
    by (auto simp: api_limits_def Let_def list_all_iff live_bucket_of_def dest: in_set_takeD)
qed

text \<open>The values a field may take once loaded.\<close>

fun has_type :: "(string \<Rightarrow> bool) \<Rightarrow> env_field \<Rightarrow> env_value \<Rightarrow> bool" where
  "has_type valid_url f (Val_int k) \<longleftrightarrow>
     (case ef_type f of Env_int lo hi \<Rightarrow> lo \<le> k \<and> (case hi of None \<Rightarrow> True | Some h \<Rightarrow> k \<le> h) | _ \<Rightarrow> False)"
| "has_type valid_url f (Val_bool b) \<longleftrightarrow> ef_type f = Env_bool"
| "has_type valid_url f (Val_text s) \<longleftrightarrow> (case ef_type f of
     Env_url \<Rightarrow> valid_url s \<or> ef_absent f = Default (Val_text s) | Env_text n \<Rightarrow> n \<le> length s
   | Env_enum members \<Rightarrow> s \<in> set members | _ \<Rightarrow> False)"
| "has_type valid_url f Val_absent \<longleftrightarrow> ef_absent f = Optional"

definition sound_default :: "(string \<Rightarrow> bool) \<Rightarrow> env_field \<Rightarrow> bool" where
  "sound_default valid_url f \<longleftrightarrow> (case ef_absent f of Default v \<Rightarrow> has_type valid_url f v | _ \<Rightarrow> True)"

lemma schemas_sound:
  "list_all (sound_default valid_url) gatewayConfigSchema" "list_all (sound_default valid_url) idpConfigSchema"
  "list_all (sound_default valid_url) warehouseConfigSchema"
  by (simp_all add: gatewayConfigSchema_def idpConfigSchema_def warehouseConfigSchema_def
      mcpServerConfigSchema_def baseSchema_def sound_default_def req_def opt_def dflt_def port_def)

lemma int_between_range:
  "int_between lo hi n = Some k \<Longrightarrow> lo \<le> k \<and> (case hi of None \<Rightarrow> True | Some h \<Rightarrow> k \<le> h)"
proof (cases hi)
  case None
  assume "int_between lo hi n = Some k"
  with None show ?thesis
    by (auto simp: int_between_def le_floor_iff split: js_num.splits if_splits)
next
  case (Some h)
  assume "int_between lo hi n = Some k"
  with Some int_between_bounds [of lo h n k] show ?thesis by simp
qed

lemma check_field_type:
  "sound_default valid_url f \<Longrightarrow> check_field valid_url source f = Some v \<Longrightarrow> has_type valid_url f v"
  by (cases "ef_type f"; cases "ef_absent f"; cases "source (ef_name f)")
    (auto simp: check_field_def check_text_def sound_default_def dest: int_between_range split: if_splits)

lemma int_issues_none: "int_issues lo hi n = 0 \<longleftrightarrow> int_between lo hi n \<noteq> None"
  by (cases n; cases hi) (auto simp: int_issues_def int_between_def Let_def not_less)

lemma field_issues_none: "field_issues valid_url source f = 0 \<longleftrightarrow> check_field valid_url source f \<noteq> None"
  by (cases "ef_type f"; cases "source (ef_name f)")
    (auto simp: field_issues_def int_issues_none check_field_def check_text_def)

text \<open>Loading either names exactly the variables that do not validate, or gives every field a value of its
  type, within its bounds.\<close>

lemma loadConfig_types:
  assumes "list_all (sound_default valid_url) schema"
  shows "case loadConfig valid_url schema source of
     Inl bad \<Rightarrow> bad \<noteq> [] \<and>
       set bad = ef_name ` {f \<in> set schema. check_field valid_url source f = None}
   | Inr cfg \<Rightarrow> list_all2 (\<lambda>f (name, v). name = ef_name f \<and> has_type valid_url f v) schema cfg"
proof (cases "list_all (\<lambda>f. check_field valid_url source f \<noteq> None) schema")
  case True
  then have "has_type valid_url f (the (check_field valid_url source f))" if "f \<in> set schema" for f
    using assms that check_field_type [of valid_url f source] by (auto simp: list_all_iff)
  moreover from True have "field_issues valid_url source f = 0" if "f \<in> set schema" for f
    using that by (simp add: list_all_iff field_issues_none)
  ultimately show ?thesis by (simp add: loadConfig_def list_all2_map2 list_all2_same)
next
  case False
  then show ?thesis
    by (auto simp: loadConfig_def Let_def list_all_iff field_issues_none split: if_splits)
qed

end
