(* ===== verification/Dashboard.thy ===== *)
theory Dashboard
  imports Gw_Console Gw_App
begin

text \<open>
  The operations console (\<open>apps/dashboard/src\<close>): the client of the gateway's API (\<open>lib/api.ts\<close>), the
  formatting of values (\<open>lib/utils.ts\<close>), and the state and decisions of its pages: the paged audit table,
  the live view, the limits form, the policy trial, the headline trends, the dependency panel and the
  navigation. Markup and styling are left out.

  A query string is the list of its pairs, which the gateway's HTTP library reads back. Number formatting
  by locale (\<open>group_digits\<close>), \<open>toFixed\<close> (\<open>fixed\<close>) and \<open>JSON.parse\<close> (\<open>parse\<close>) are arguments; arithmetic is
  exact.
\<close>

section \<open>The client of the gateway\<close>

record api_request =
  cr_method :: string
  cr_path :: string
  cr_query :: "(string \<times> string) list"
  cr_body :: "jval option"

definition get_request :: "string \<Rightarrow> api_request" where
  "get_request path = \<lparr>cr_method = ''GET'', cr_path = path, cr_query = [], cr_body = None\<rparr>"

definition request_headers :: "api_request \<Rightarrow> (string \<times> string) list" where
  "request_headers r = (''accept'', ''application/json'')
     # (if cr_body r = None then [] else [(''content-type'', ''application/json'')])"

text \<open>What came back: the status and the body, \<open>None\<close> when it is not JSON.\<close>

record web_reply =
  wr_status :: int
  wr_body :: "jval option"

record api_error =
  ae_status :: int
  ae_code :: jval
  ae_message :: jval
  ae_details :: jval

datatype client_failure = Unreachable | Api_error api_error

definition nullish :: "jval \<Rightarrow> jval \<Rightarrow> jval" where
  "nullish v d = (if v = JUndef \<or> v = JNull then d else v)"

definition body_error :: "jval \<Rightarrow> jval" where
  "body_error b = (case b of
     JObj kvs \<Rightarrow> (case map_of kvs ''error'' of Some e \<Rightarrow> e | None \<Rightarrow> JNull) | _ \<Rightarrow> JNull)"

definition read_reply :: "web_reply option \<Rightarrow> (client_failure, jval) result" where
  "read_reply answer = (case answer of
     None \<Rightarrow> Inl Unreachable
   | Some r \<Rightarrow>
       if wr_status r = 204 then Inr JUndef
       else (let content = or_default (wr_body r) JNull
         in if 200 \<le> wr_status r \<and> wr_status r \<le> 299 then Inr content
            else (let e = body_error content in Inl (Api_error
              \<lparr>ae_status = wr_status r,
               ae_code = nullish (js_get e ''code'') (JStr ''request_failed''),
               ae_message = nullish (js_get e ''message'')
                 (JStr (''Request failed with status '' @ int_str (wr_status r))),
               ae_details = js_get e ''details''\<rparr>))))"

definition loginUrl :: "string \<Rightarrow> string" where
  "loginUrl redirectTo = ''/auth/login?redirect='' @ encodeURIComponent redirectTo"

definition overview_request :: "string \<Rightarrow> api_request" where
  "overview_request rng = (get_request ''/api/overview'')\<lparr>cr_query := [(''range'', rng)]\<rparr>"

text \<open>The parameters of the audit query that are present and not empty.\<close>

definition audit_request :: "(string \<times> string option) list \<Rightarrow> api_request" where
  "audit_request params = (get_request ''/api/audit'')\<lparr>cr_query :=
     map (\<lambda>(k, v). (k, the v)) (filter (\<lambda>(k, v). given v) params)\<rparr>"

definition update_limit_request :: "string \<Rightarrow> jval \<Rightarrow> api_request" where
  "update_limit_request i content =
     \<lparr>cr_method = ''PUT'', cr_path = ''/api/rate-limits/'' @ i, cr_query = [], cr_body = Some content\<rparr>"

definition post_request :: "string \<Rightarrow> jval option \<Rightarrow> api_request" where
  "post_request path content = \<lparr>cr_method = ''POST'', cr_path = path, cr_query = [], cr_body = content\<rparr>"

definition call_tool_request :: "string \<Rightarrow> string \<Rightarrow> jval \<Rightarrow> api_request" where
  "call_tool_request server tool args =
     post_request (''/v1/servers/'' @ server @ ''/tools/'' @ tool) (Some (JObj [(''arguments'', args)]))"

text \<open>Whether the session query is tried again after it has failed \<open>n\<close> times.\<close>

definition retry_session :: "nat \<Rightarrow> client_failure \<Rightarrow> bool" where
  "retry_session n e \<longleftrightarrow> \<not> (case e of Api_error a \<Rightarrow> ae_status a = 401 | _ \<Rightarrow> False) \<and> n < 2"

section \<open>Formatting\<close>

definition round_half_up :: "rat \<Rightarrow> int" where
  "round_half_up q = \<lfloor>q + 1 / 2\<rfloor>"

definition formatCompact :: "(bool \<Rightarrow> rat \<Rightarrow> string) \<Rightarrow> rat \<Rightarrow> string" where
  "formatCompact group_digits v = group_digits (1000 \<le> v) v"

definition formatPercent :: "(nat \<Rightarrow> rat \<Rightarrow> string) \<Rightarrow> rat \<Rightarrow> nat \<Rightarrow> string" where
  "formatPercent fixed v digits = fixed digits (v * 100) @ ''%''"

definition formatMs :: "(nat \<Rightarrow> rat \<Rightarrow> string) \<Rightarrow> rat \<Rightarrow> string" where
  "formatMs fixed v =
     (if v < 1 then ''<1 ms''
      else if v < 1000 then int_str (round_half_up v) @ '' ms''
      else fixed 2 (v / 1000) @ '' s'')"

text \<open>How long ago an instant was, both in milliseconds; each unit is rounded from the rounded unit before.\<close>

definition formatRelative :: "int \<Rightarrow> int \<Rightarrow> string" where
  "formatRelative now t =
     (let seconds = round_half_up (of_int (now - t) / 1000);
          minutes = round_half_up (of_int seconds / 60);
          hours = round_half_up (of_int minutes / 60)
      in if seconds < 5 then ''just now''
         else if seconds < 60 then int_str seconds @ ''s ago''
         else if minutes < 60 then int_str minutes @ ''m ago''
         else if hours < 24 then int_str hours @ ''h ago''
         else int_str (round_half_up (of_int hours / 24)) @ ''d ago'')"

definition shortHash :: "string \<Rightarrow> nat \<Rightarrow> string" where
  "shortHash hash n = take n hash"

definition splitToolName :: "string \<Rightarrow> string \<times> string" where
  "splitToolName tool = (case index_of (CHR ''.'') tool of
     None \<Rightarrow> ([], tool) | Some i \<Rightarrow> (take i tool, drop (Suc i) tool))"

datatype tone = Plain_tone | Warn_tone | Deny_tone

definition latency_tone :: "rat \<Rightarrow> tone" where
  "latency_tone ms = (if 800 \<le> ms then Deny_tone else if 250 \<le> ms then Warn_tone else Plain_tone)"

section \<open>The audit table\<close>

definition PAGE_SIZE :: nat where
  "PAGE_SIZE = 25"

record audit_ui =
  ui_page :: nat
  ui_decision :: string
  ui_server :: string
  ui_range :: string
  ui_search :: string
  ui_expanded :: "string option"

definition audit_ui_start :: audit_ui where
  "audit_ui_start = \<lparr>ui_page = 0, ui_decision = [], ui_server = [], ui_range = ''7d'', ui_search = [],
     ui_expanded = None\<rparr>"

definition or_undefined :: "string \<Rightarrow> string option" where
  "or_undefined s = (if s = [] then None else Some s)"

definition page_request :: "audit_ui \<Rightarrow> api_request" where
  "page_request ui = audit_request
     [(''limit'', Some (nat_str PAGE_SIZE)), (''offset'', Some (nat_str (ui_page ui * PAGE_SIZE))),
      (''decision'', or_undefined (ui_decision ui)), (''server'', or_undefined (ui_server ui)),
      (''range'', Some (ui_range ui)), (''search'', or_undefined (ui_search ui))]"

definition lastPage :: "nat \<Rightarrow> nat" where
  "lastPage events = nat (max 0 (\<lceil>of_nat events / of_nat PAGE_SIZE :: rat\<rceil> - 1))"

datatype audit_action =
    Type_search string | Choose_decision string | Choose_server string | Choose_range string
  | Previous_page | Next_page | Toggle_row string

text \<open>The buttons stand below the rows: on a page without rows there are none.\<close>

definition has_previous :: "audit_page \<Rightarrow> audit_ui \<Rightarrow> bool" where
  "has_previous shown ui \<longleftrightarrow> pg_rows shown \<noteq> [] \<and> ui_page ui \<noteq> 0"

definition has_next :: "audit_page \<Rightarrow> audit_ui \<Rightarrow> bool" where
  "has_next shown ui \<longleftrightarrow> pg_rows shown \<noteq> [] \<and> ui_page ui < lastPage (pg_total shown)"

fun audit_act :: "audit_page \<Rightarrow> audit_action \<Rightarrow> audit_ui \<Rightarrow> audit_ui" where
  "audit_act shown (Type_search s) ui = ui\<lparr>ui_search := s, ui_page := 0\<rparr>"
| "audit_act shown (Choose_decision s) ui = ui\<lparr>ui_decision := s, ui_page := 0\<rparr>"
| "audit_act shown (Choose_server s) ui = ui\<lparr>ui_server := s, ui_page := 0\<rparr>"
| "audit_act shown (Choose_range s) ui = ui\<lparr>ui_range := s, ui_page := 0\<rparr>"
| "audit_act shown Previous_page ui = (if has_previous shown ui then ui\<lparr>ui_page := ui_page ui - 1\<rparr> else ui)"
| "audit_act shown Next_page ui = (if has_next shown ui then ui\<lparr>ui_page := ui_page ui + 1\<rparr> else ui)"
| "audit_act shown (Toggle_row i) ui =
     ui\<lparr>ui_expanded := (if ui_expanded ui = Some i then None else Some i)\<rparr>"

text \<open>The fields the gateway's schema reads from a query string, and the answer to a page's request.\<close>

definition audit_params_of :: "(string \<times> string) list \<Rightarrow> audit_params" where
  "audit_params_of q = \<lparr>ap_user = map_of q ''user'', ap_tool = map_of q ''tool'', ap_server = map_of q ''server'',
     ap_decision = map_of q ''decision'', ap_search = map_of q ''search'', ap_range = map_of q ''range'',
     ap_limit = map_of q ''limit'', ap_offset = map_of q ''offset''\<rparr>"

definition browse ::
    "audit_db \<Rightarrow> (string \<Rightarrow> string option) \<Rightarrow> principal \<Rightarrow> int \<Rightarrow> audit_ui \<Rightarrow> (thrown, audit_page) result" where
  "browse db userName p now ui = api_audit db userName p now (audit_params_of (cr_query (page_request ui)))"

text \<open>Reading on: the pages shown while the button to the next one is pressed as long as there is one, at
  most \<open>n\<close> of them.\<close>

fun read_on ::
    "(audit_ui \<Rightarrow> (thrown, audit_page) result) \<Rightarrow> nat \<Rightarrow> audit_ui \<Rightarrow> (thrown, audit_page list) result" where
  "read_on fetch 0 ui = Inr []"
| "read_on fetch (Suc n) ui =
     bind_result (fetch ui) (\<lambda>shown.
       if has_next shown ui
       then bind_result (read_on fetch n (audit_act shown Next_page ui)) (\<lambda>pages. Inr (shown # pages))
       else Inr [shown])"

section \<open>The live view\<close>

definition MAX_EVENTS :: nat where
  "MAX_EVENTS = 200"

record live_view =
  lv_events :: "invocation_event list"
  lv_connected :: bool

datatype live_event = Stream_opened | Stream_failed | Stream_message "invocation_event option"

fun live_step :: "live_view \<Rightarrow> live_event \<Rightarrow> live_view" where
  "live_step v Stream_opened = v\<lparr>lv_connected := True\<rparr>"
| "live_step v Stream_failed = v\<lparr>lv_connected := False\<rparr>"
| "live_step v (Stream_message m) =
     (case m of None \<Rightarrow> v | Some e \<Rightarrow> v\<lparr>lv_events := take MAX_EVENTS (e # lv_events v)\<rparr>)"

definition live_start :: live_view where
  "live_start = \<lparr>lv_events = [], lv_connected = False\<rparr>"

section \<open>The limits form\<close>

definition typed_digits :: "string \<Rightarrow> string" where
  "typed_digits s = filter is_digit s"

definition is_dirty :: "limit_record \<Rightarrow> string \<Rightarrow> bool" where
  "is_dirty r text \<longleftrightarrow> \<not> num_eq (js_string_to_num text) (JFin (of_int (lr_capacity r))) \<and> text \<noteq> []"

definition can_edit :: "string list \<Rightarrow> bool" where
  "can_edit scopes \<longleftrightarrow> ''gateway:admin'' \<in> set scopes"

definition describeRate :: "(bool \<Rightarrow> rat \<Rightarrow> string) \<Rightarrow> limit_record \<Rightarrow> string" where
  "describeRate group_digits r =
     (if lr_refillTokens r = 0 \<or> lr_refillIntervalMs r = 0
      then group_digits False (of_int (lr_capacity r)) @ '' then no refill''
      else group_digits False (of_int (round_half_up
        (of_int (lr_refillTokens r) / of_int (lr_refillIntervalMs r) * 1000 * 60))) @ '' / min'')"

definition save_limit :: "limit_row list \<Rightarrow> string \<Rightarrow> js_num \<Rightarrow> api_request" where
  "save_limit configs i capacity = update_limit_request i
     (JObj [(''capacity'', JNum capacity), (''refillTokens'', JNum capacity),
            (''refillIntervalMs'', jint (case List.find (\<lambda>r. lw_id r = i) configs of
               None \<Rightarrow> 60000 | Some r \<Rightarrow> lr_refillIntervalMs (lw_limit r)))])"

definition press_save :: "bool \<Rightarrow> string list \<Rightarrow> limit_row list \<Rightarrow> limit_row \<Rightarrow> string \<Rightarrow> api_request option" where
  "press_save saving scopes configs row text =
     (if can_edit scopes \<and> is_dirty (lw_limit row) text \<and> \<not> saving
      then Some (save_limit configs (lw_id row) (js_string_to_num text)) else None)"

section \<open>The policy trial\<close>

definition trial_request ::
    "(string \<Rightarrow> jval option) \<Rightarrow> string \<Rightarrow> string \<Rightarrow> string \<Rightarrow> string \<Rightarrow> string \<Rightarrow> (string, api_request) result" where
  "trial_request parse tool server role scopes args = (case parse args of
     None \<Rightarrow> Inl ''Arguments must be valid JSON''
   | Some parsed \<Rightarrow> Inr (post_request ''/api/policies/evaluate'' (Some (JObj
       [(''tool'', JStr tool), (''server'', JStr server), (''role'', JStr role),
        (''scopes'', JArr (map JStr (words_by js_space scopes))), (''arguments'', parsed)]))))"

section \<open>The overview\<close>

definition mean :: "rat list \<Rightarrow> rat" where
  "mean xs = (if xs = [] then 0 else sum_list xs / of_nat (length xs))"

record trend =
  td_meaningful :: bool
  td_capped :: bool
  td_shown :: rat
  td_rising :: bool
  td_good :: bool

definition kpi_trend :: "bool \<Rightarrow> rat list \<Rightarrow> trend" where
  "kpi_trend invertDelta xs =
     (let half = length xs div 2; earlier = mean (take half xs); later = mean (drop half xs);
          delta = (if earlier = 0 then 0 else (later - earlier) / earlier)
      in \<lparr>td_meaningful = (4 \<le> length xs \<and> 1 \<le> earlier \<and> 5 / 100 \<le> \<bar>delta\<bar>),
          td_capped = (999 / 100 < \<bar>delta\<bar>), td_shown = min \<bar>delta\<bar> (999 / 100),
          td_rising = (0 < delta), td_good = (if invertDelta then \<not> 0 < delta else 0 < delta)\<rparr>)"

definition by_server :: "(string \<times> nat) list \<Rightarrow> (string \<times> nat) list" where
  "by_server topTools = foldl (\<lambda>acc (tool, n).
     let server = hd (split_on (CHR ''.'') tool)
     in alist_set server (or_default (map_of acc server) 0 + n) acc) [] topTools"

definition server_rows :: "(string \<times> nat) list \<Rightarrow> (string \<times> nat) list" where
  "server_rows topTools = sort_key (\<lambda>(k, n). - int n) (by_server topTools)"

section \<open>The dependency panel\<close>

definition DEPENDENCY_META :: "(string \<times> string) list" where
  "DEPENDENCY_META =
     [(''database'', ''PostgreSQL''), (''redis'', ''Redis''), (''identity'', ''Identity''),
      (''mcp:salesforce'', ''CRM server''), (''mcp:postgres'', ''Warehouse''),
      (''mcp:policy-engine'', ''Policy engine'')]"

datatype panel_summary = Checking | All_systems_normal | Panel_degraded | Dependency_down

definition health_str :: "health \<Rightarrow> string" where
  "health_str h = (case h of Health_ok \<Rightarrow> ''ok'' | Health_degraded \<Rightarrow> ''degraded'' | Health_down \<Rightarrow> ''down'')"

text \<open>The reply of \<open>/readyz\<close>, without the counters the panel does not read.\<close>

definition readiness_reply :: "readiness \<Rightarrow> web_reply" where
  "readiness_reply r = \<lparr>wr_status = rd_status r, wr_body = Some (JObj
     [(''ready'', JBool (rd_status r = 200)),
      (''checks'', JObj (map (\<lambda>(k, h). (k, JStr (health_str h))) (rd_checks r)))])\<rparr>"

text \<open>The data the panel holds after a poll: that of the last poll that succeeded.\<close>

definition poll_readiness :: "jval option \<Rightarrow> web_reply option \<Rightarrow> jval option" where
  "poll_readiness kept answer = (case read_reply answer of Inr v \<Rightarrow> Some v | Inl _ \<Rightarrow> kept)"

definition panel_entries :: "jval option \<Rightarrow> (string \<times> jval) list" where
  "panel_entries held = (case held of
     None \<Rightarrow> []
   | Some v \<Rightarrow> (case js_get v ''checks'' of
        JObj kvs \<Rightarrow> filter (\<lambda>(k, s). k \<in> set (map fst DEPENDENCY_META) \<or> object_proto_get k \<noteq> JUndef) kvs
      | _ \<Rightarrow> []))"

definition panel_summary_of :: "jval option \<Rightarrow> panel_summary" where
  "panel_summary_of held =
     (let states = map snd (panel_entries held)
      in if states = [] then Checking
         else if JStr ''down'' \<in> set states then Dependency_down
         else if JStr ''degraded'' \<in> set states then Panel_degraded
         else All_systems_normal)"

section \<open>The frame\<close>

text \<open>\<open>s.split(/\s+/)\<close>: white space at either end leaves an empty part there.\<close>

definition split_spaces :: "string \<Rightarrow> string list" where
  "split_spaces s = (if s = [] \<or> js_space (hd s) then [[]] else []) @ words_by js_space s
     @ (if s \<noteq> [] \<and> js_space (last s) then [[]] else [])"

definition initials :: "string \<Rightarrow> string" where
  "initials name = to_upper (concat (map (take 1) (take 2 (split_spaces name))))"

record nav_item =
  nv_to :: string
  nv_label :: string
  nv_caption :: string
  nv_end :: bool

definition nav :: "string \<Rightarrow> string \<Rightarrow> string \<Rightarrow> nav_item" where
  "nav to label caption = \<lparr>nv_to = to, nv_label = label, nv_caption = caption, nv_end = False\<rparr>"

definition ALL_ITEMS :: "nav_item list" where
  "ALL_ITEMS =
     [(nav ''/'' ''Overview'' ''Traffic, latency and denials across the tenant'')\<lparr>nv_end := True\<rparr>,
      nav ''/live'' ''Live requests'' ''Every call as it reaches the gateway'',
      nav ''/traces'' ''Traces'' ''One trace per request, across every service it touches'',
      nav ''/policies'' ''Policies'' ''Rules evaluated before any credential is minted'',
      nav ''/rate-limits'' ''Rate limits'' ''Token buckets, and what the limiter currently holds'',
      nav ''/audit'' ''Audit log'' ''Append-only, hash-chained, verifiable on demand'',
      nav ''/settings'' ''Settings'' ''Tenant, people and registered OAuth clients'']"

definition current_item :: "string \<Rightarrow> nav_item" where
  "current_item path = or_default
     (List.find (\<lambda>i. if nv_end i then path = nv_to i else starts_with path (nv_to i)) ALL_ITEMS) (hd ALL_ITEMS)"

text \<open>The rows of the trace list, and the label of a grant on the settings page.\<close>

definition with_traces :: "audit_view list \<Rightarrow> audit_view list" where
  "with_traces rows = filter (\<lambda>v. given (av_traceId v)) rows"

definition grant_label :: "string \<Rightarrow> string" where
  "grant_label g = (if starts_with g ''urn:'' then ''token-exchange'' else g)"

section \<open>Facts\<close>

lemma nat_str_plain: "c \<in> set (nat_str n) \<Longrightarrow> \<not> js_space c \<and> lower_char c = c \<and> c \<noteq> CHR ''x'' \<and> c \<noteq> CHR ''o'' \<and> c \<noteq> CHR ''b''"
  by (drule nat_str_digits) (auto simp: is_digit_def js_space_def lower_char_def code_def)

lemma js_string_to_num_nat_str: "js_string_to_num (nat_str n) = JFin (of_nat n)"
proof -
  let ?s = "nat_str n"
  have digits: "list_all is_digit ?s" by (auto simp: list_all_iff dest: nat_str_digits)
  have hd: "is_digit (hd ?s)" by (rule nat_str_digits [of _ n]) simp
  have "trim ?s = ?s" by (rule trim_id) (simp add: nat_str_plain)
  moreover have lower: "to_lower ?s = ?s"
    using nat_str_plain by (auto simp: to_lower_def intro: map_idI)
  moreover have "\<not> starts_with ?s [CHR ''0'', x]" if "\<not> is_digit x" for x
  proof
    assume "starts_with ?s [CHR ''0'', x]"
    then have "x \<in> set ?s" unfolding starts_with_def by (metis in_set_takeD list.set_intros)
    with nat_str_digits that show False by blast
  qed
  moreover have run: "takeWhile is_digit ?s = ?s" "dropWhile is_digit ?s = []"
    using digits by (simp_all add: list_all_iff)
  have "parse_unsigned_decimal ?s = Some (of_nat n)"
    by (simp add: parse_unsigned_decimal_def parse_exponent_def ten_power_def run)
  moreover have "hd ?s \<noteq> CHR ''-''" "hd ?s \<noteq> CHR ''+''" "hd ?s \<noteq> CHR ''I''"
    using hd by (auto simp: is_digit_def code_def)
  moreover have "?s \<noteq> ''Infinity''" "?s \<noteq> ''+Infinity''" "?s \<noteq> ''-Infinity''"
    using hd by (auto simp: is_digit_def code_def)
  moreover have "\<not> is_digit (CHR ''x'')" "\<not> is_digit (CHR ''o'')" "\<not> is_digit (CHR ''b'')"
    by (simp_all add: is_digit_def code_def)
  ultimately show ?thesis by (simp add: js_string_to_num_def Let_def)
qed

lemma lastPage_less: "k < lastPage n \<longleftrightarrow> PAGE_SIZE * (k + 1) < n"
proof -
  have "k < lastPage n \<longleftrightarrow> int k + 1 < \<lceil>of_nat n / 25 :: rat\<rceil>"
    by (auto simp: lastPage_def PAGE_SIZE_def)
  also have "\<dots> \<longleftrightarrow> of_nat (k + 1) < (of_nat n / 25 :: rat)"
    by (simp only: less_ceiling_iff of_int_add of_int_of_nat_eq of_int_1 of_nat_add of_nat_1)
  also have "\<dots> \<longleftrightarrow> of_nat (k + 1) * 25 < (of_nat n :: rat)"
    by (rule pos_less_divide_eq) simp
  also have "\<dots> \<longleftrightarrow> (of_nat ((k + 1) * 25) :: rat) < of_nat n"
    by (simp only: of_nat_mult of_nat_numeral)
  finally show ?thesis by (simp only: of_nat_less_iff PAGE_SIZE_def mult.commute)
qed

text \<open>Reading on from page \<open>k\<close> of a table that answers with slices of \<open>views\<close> gives the rest of them.\<close>

definition slices :: "audit_view list \<Rightarrow> nat \<Rightarrow> audit_page" where
  "slices views k = \<lparr>pg_rows = take PAGE_SIZE (drop (PAGE_SIZE * k) views), pg_total = length views\<rparr>"

lemma has_next_slices: "has_next (slices views k) (ui\<lparr>ui_page := k\<rparr>) \<longleftrightarrow> PAGE_SIZE * (k + 1) < length views"
  by (auto simp: has_next_def slices_def lastPage_less PAGE_SIZE_def)

lemma read_on_slices:
  assumes "\<And>k. fetch (ui\<lparr>ui_page := k\<rparr>) = Inr (slices views k)" and "length views < n + PAGE_SIZE * k"
  shows "\<exists>pages. read_on fetch n (ui\<lparr>ui_page := k\<rparr>) = Inr pages \<and>
    concat (map pg_rows pages) = drop (PAGE_SIZE * k) views \<and> list_all (\<lambda>pg. pg \<in> range (slices views)) pages"
  using assms(2)
proof (induction n arbitrary: k)
  case (Suc n)
  have split: "drop (PAGE_SIZE * k) views = pg_rows (slices views k) @ drop (PAGE_SIZE * Suc k) views"
    by (simp add: slices_def PAGE_SIZE_def add.commute flip: drop_drop)
  show ?case
  proof (cases "PAGE_SIZE * (k + 1) < length views")
    case True
    from Suc have "length views < n + PAGE_SIZE * Suc k" by (simp add: PAGE_SIZE_def)
    from Suc.IH [OF this] obtain pages where
      "read_on fetch n (ui\<lparr>ui_page := Suc k\<rparr>) = Inr pages"
      "concat (map pg_rows pages) = drop (PAGE_SIZE * Suc k) views" "list_all (\<lambda>pg. pg \<in> range (slices views)) pages"
      by blast
    with True split assms(1) [of k] show ?thesis by (simp add: has_next_slices)
  next
    case False
    with split assms(1) [of k] show ?thesis by (simp add: has_next_slices)
  qed
qed simp

text \<open>What the gateway makes of a page's request: the filter of that page's query.\<close>

definition shown_query :: "principal \<Rightarrow> int \<Rightarrow> audit_ui \<Rightarrow> audit_query" where
  "shown_query p now ui =
     \<lparr>aq_tenantId = Some (pn_tenantId p), aq_userId = None, aq_toolName = None,
      aq_mcpServer = or_undefined (ui_server ui),
      aq_decision = (if ui_decision ui = [] then None
        else if ui_decision ui = ''deny'' then Some Deny else Some Allow),
      aq_from = Some (sinceFor now (Some (ui_range ui))), aq_to = None,
      aq_search = or_undefined (ui_search ui), aq_limit = Some (int PAGE_SIZE),
      aq_offset = Some (int (ui_page ui * PAGE_SIZE))\<rparr>"

lemma int_between_of_nat:
  "lo \<le> int n \<Longrightarrow> (case hi of None \<Rightarrow> True | Some h \<Rightarrow> int n \<le> h) \<Longrightarrow> int_between lo hi (JFin (of_nat n)) = Some (int n)"
  by (auto simp: int_between_def is_int_rat_def split: option.splits)

lemma audit_filter_page:
  assumes "ui_decision ui \<in> {[], ''allow'', ''deny''}" and "ui_range ui \<noteq> []"
  shows "audit_filter p now (audit_params_of (cr_query (page_request ui))) = Some (shown_query p now ui)"
proof -
  have limit: "coerce_int 1 (Some 200) 50 (Some (nat_str PAGE_SIZE)) = Some (int PAGE_SIZE)"
    using int_between_of_nat [of 1 25 "Some 200"]
    by (simp add: coerce_int_def js_string_to_num_nat_str PAGE_SIZE_def)
  have off: "coerce_int 0 None 0 (Some (nat_str n)) = Some (int n)" for n
    by (simp add: coerce_int_def js_string_to_num_nat_str int_between_of_nat)
  have q: "audit_params_of (cr_query (page_request ui)) =
    \<lparr>ap_user = None, ap_tool = None, ap_server = or_undefined (ui_server ui),
     ap_decision = or_undefined (ui_decision ui), ap_search = or_undefined (ui_search ui),
     ap_range = Some (ui_range ui), ap_limit = Some (nat_str PAGE_SIZE),
     ap_offset = Some (nat_str (ui_page ui * PAGE_SIZE))\<rparr>"
    using assms(2) by (simp add: audit_params_of_def page_request_def audit_request_def get_request_def
        or_undefined_def given_def)
  show ?thesis
    unfolding q using assms
    by (auto simp: audit_filter_def limit off shown_query_def or_undefined_def given_def)
qed

lemma browse_slices:
  assumes "ui_decision ui \<in> {[], ''allow'', ''deny''}" and "ui_range ui \<noteq> []"
    and "bound_iso (Some (sinceFor now (Some (ui_range ui)))) = Inr ()"
    and views: "map_result (toView userName) (newest_first
      (filter (buildFilters (shown_query p now ui) userName) (db_events db))) = Inr views"
  shows "browse db userName p now (ui\<lparr>ui_page := k\<rparr>) = Inr (slices views k)"
proof -
  let ?q = "shown_query p now (ui\<lparr>ui_page := k\<rparr>)"
  have same: "buildFilters ?q = buildFilters (shown_query p now ui)"
    by (simp add: fun_eq_iff buildFilters_def shown_query_def)
  let ?rows = "newest_first (filter (buildFilters (shown_query p now ui) userName) (db_events db))"
  have all: "list_all2 (\<lambda>x y. toView userName x = Inr y) ?rows views"
    using views by (simp add: map_result_Inr)
  then have "list_all2 (\<lambda>x y. toView userName x = Inr y)
      (take PAGE_SIZE (drop (PAGE_SIZE * k) ?rows)) (take PAGE_SIZE (drop (PAGE_SIZE * k) views))"
    by (intro list_all2_takeI list_all2_dropI)
  then have page: "map_result (toView userName) (take PAGE_SIZE (drop (PAGE_SIZE * k) ?rows)) =
      Inr (take PAGE_SIZE (drop (PAGE_SIZE * k) views))"
    by (simp add: map_result_Inr)
  have "page_limit (aq_limit ?q) = PAGE_SIZE" "page_offset (aq_offset ?q) = PAGE_SIZE * k"
    by (simp_all add: shown_query_def page_limit_def page_offset_def PAGE_SIZE_def mult.commute)
  moreover have "bound_iso (aq_from ?q) = Inr ()" "bound_iso (aq_to ?q) = Inr ()"
    using assms(3) by (simp_all add: shown_query_def bound_iso_def)
  moreover have "length views = length (filter (buildFilters (shown_query p now ui) userName) (db_events db))"
    using list_all2_lengthD [OF all] by simp
  ultimately have "queryAuditEvents db userName ?q = Inr (slices views k)"
    by (simp add: queryAuditEvents_def same Let_def page slices_def)
  moreover have "audit_filter p now (audit_params_of (cr_query (page_request (ui\<lparr>ui_page := k\<rparr>)))) = Some ?q"
    by (rule audit_filter_page) (use assms in simp_all)
  ultimately show ?thesis by (simp add: browse_def api_audit_def map_error_def)
qed

text \<open>The dependency panel over a run of polls, each unanswered or answered from the probes of the gateway.\<close>

record probes =
  pr_database :: bool
  pr_redis :: bool
  pr_identity :: "bool option"
  pr_keys :: nat
  pr_reachable :: "server_id \<Rightarrow> bool"

definition probed :: "probes \<Rightarrow> readiness" where
  "probed p = readyz (pr_database p) (pr_redis p) (pr_identity p) (pr_keys p) (pr_reachable p)"

definition panel_after :: "probes option list \<Rightarrow> jval option" where
  "panel_after polls =
     foldl (\<lambda>kept a. poll_readiness kept (map_option (readiness_reply \<circ> probed) a)) None polls"

definition answered_ready :: "probes option \<Rightarrow> bool" where
  "answered_ready a = (case a of None \<Rightarrow> False
     | Some p \<Rightarrow> pr_database p \<and> pr_redis p \<and> (pr_identity p \<noteq> None \<or> pr_keys p \<noteq> 0))"

lemma poll_not_ready:
  "\<not> answered_ready a \<Longrightarrow> poll_readiness kept (map_option (readiness_reply \<circ> probed) a) = kept"
  by (auto simp: answered_ready_def poll_readiness_def read_reply_def readiness_reply_def probed_def readyz_def
      Let_def split: option.splits)

lemma poll_ready:
  assumes "answered_ready (Some p)"
  shows "panel_summary_of (poll_readiness kept (map_option (readiness_reply \<circ> probed) (Some p))) =
    (if list_all (pr_reachable p) [Salesforce, Postgres, Policy_engine] then All_systems_normal else Panel_degraded)"
proof -
  have "probed p = \<lparr>rd_status = 200, rd_checks =
    [(''database'', Health_ok), (''redis'', Health_ok), (''identity'', Health_ok)] @
    map (\<lambda>t. (''mcp:'' @ server_str t, if pr_reachable p t then Health_ok else Health_degraded))
      [Salesforce, Postgres, Policy_engine]\<rparr>" (is "_ = ?r")
    using assms by (auto simp: answered_ready_def probed_def readyz_def Let_def)
  then have "poll_readiness kept (map_option (readiness_reply \<circ> probed) (Some p)) =
    Some (the (wr_body (readiness_reply ?r)))"
    by (simp add: poll_readiness_def read_reply_def readiness_reply_def)
  moreover have "panel_entries (Some (the (wr_body (readiness_reply ?r)))) =
    [(''database'', JStr ''ok''), (''redis'', JStr ''ok''), (''identity'', JStr ''ok'')] @
    map (\<lambda>t. (''mcp:'' @ server_str t, JStr (if pr_reachable p t then ''ok'' else ''degraded'')))
      [Salesforce, Postgres, Policy_engine]"
    by (simp add: panel_entries_def readiness_reply_def js_get_def DEPENDENCY_META_def server_str_def
        health_str_def)
  ultimately show ?thesis by (auto simp: panel_summary_of_def Let_def)
qed

text \<open>The live view keeps the last messages that could be parsed, the newest first.\<close>

fun received :: "live_event list \<Rightarrow> invocation_event list" where
  "received [] = []"
| "received (Stream_message (Some e) # ms) = e # received ms"
| "received (m # ms) = received ms"

lemma take_Cons_take: "n \<le> Suc m \<Longrightarrow> take n (x # take m xs) = take n (x # xs)"
  by (cases n) (simp_all add: min_def)

lemma live_shows:
  "length (lv_events v) \<le> MAX_EVENTS \<Longrightarrow>
     lv_events (foldl live_step v ms) = take MAX_EVENTS (rev (received ms) @ lv_events v)"
proof (induction ms arbitrary: v rule: received.induct)
  case (2 e ms)
  have "length (lv_events (live_step v (Stream_message (Some e)))) \<le> MAX_EVENTS" by simp
  from 2(1) [OF this] show ?case by (simp add: take_Cons_take [of _ 199] MAX_EVENTS_def)
qed simp_all

lemma received_messages: "received (map (Stream_message \<circ> Some) es @ ms) = es @ received ms"
  by (induction es) simp_all

text \<open>A stream that drops and reopens with nothing published in between is replayed, and the view then
  lists every replayed event twice.\<close>

lemma reconnect_repeats:
  assumes "console_connect l tn s = (first, s1)" and "console_connect l' tn (stream_unsubscribe l s1) = (again, s2)"
  shows "again = first \<and> lv_events (foldl live_step live_start
      (Stream_opened # map (Stream_message \<circ> Some) first @
       Stream_failed # Stream_opened # map (Stream_message \<circ> Some) again)) = rev first @ rev first"
proof -
  have "again = first"
    using assms by (auto simp: console_connect_def stream_recent_def stream_subscribe_def stream_unsubscribe_def)
  moreover have "length first \<le> 30"
    using assms(1) by (auto simp: console_connect_def stream_recent_def length_slice_last)
  ultimately show ?thesis
    using live_shows [of "live_start\<lparr>lv_connected := True\<rparr>" "map (Stream_message \<circ> Some) first @
       Stream_failed # Stream_opened # map (Stream_message \<circ> Some) again"]
      received_messages [of again "[]"]
    by (simp add: received_messages live_start_def MAX_EVENTS_def)
qed

text \<open>Whoever can edit on the page is let by the gateway; the gateway also lets who holds all scopes of its
  own, whom the page shows a form that is read only.\<close>

lemma can_edit_admin: "can_edit (pn_scopes p) \<Longrightarrow> requireAdmin p = Inr ()"
  by (simp add: can_edit_def requireAdmin_def hasScope_def)

text \<open>Saving sets the refill to the capacity, whatever it was.\<close>

lemma saved_limit:
  "press_save saving scopes configs row text = Some r \<Longrightarrow> parse_limit_update (the (cr_body r)) = Some u \<Longrightarrow>
     lu_refillTokens u = lu_capacity u"
  by (auto simp: press_save_def save_limit_def update_limit_request_def parse_limit_update_def Let_def js_get_def
      split: if_split_asm option.splits)

text \<open>A path of no page is headed as the overview.\<close>

lemma current_item_listed: "current_item path \<in> set ALL_ITEMS"
proof -
  have "or_default (List.find P xs) (hd xs) \<in> set xs" if "xs \<noteq> []" for P and xs :: "nav_item list"
    using that by (cases "List.find P xs") (simp_all add: find_Some_in_set)
  moreover have "ALL_ITEMS \<noteq> []" by (simp add: ALL_ITEMS_def)
  ultimately show ?thesis unfolding current_item_def by blast
qed

text \<open>What the client reads of an error reply of the gateway is the error's own code and message.\<close>

lemma client_reads_error:
  assumes "ge_status e \<noteq> 204" and "\<not> (200 \<le> ge_status e \<and> ge_status e \<le> 299)"
  shows "read_reply (Some \<lparr>wr_status = ge_status e, wr_body = Some (toResponseBody e)\<rparr>) =
    Inl (Api_error \<lparr>ae_status = ge_status e, ae_code = JStr (code_str (ge_code e)), ae_message = JStr (ge_message e),
      ae_details = (if ge_details e = [] then JUndef else JObj (ge_details e))\<rparr>)"
  using assms by (auto simp: read_reply_def toResponseBody_def body_error_def js_get_def nullish_def
      object_proto_get_def object_methods_def Let_def)

text \<open>The split by server accounts for every call of the tools it is given.\<close>

lemma sum_alist_set:
  "distinct (map fst m) \<Longrightarrow> sum_list (map snd (alist_set k (or_default (map_of m k) 0 + n) m)) = sum_list (map snd m) + (n::nat)"
  by (induction m) (auto simp: or_default_def)

lemma by_server_total: "sum_list (map snd (by_server topTools)) = sum_list (map snd topTools)"
proof -
  have "distinct (map fst acc) \<Longrightarrow> sum_list (map snd (foldl (\<lambda>acc (tool, n).
     let server = hd (split_on (CHR ''.'') tool)
     in alist_set server (or_default (map_of acc server) 0 + n) acc) acc topTools)) =
     sum_list (map snd acc) + sum_list (map snd topTools)" for acc
    by (induction topTools arbitrary: acc)
      (auto simp: Let_def sum_alist_set distinct_alist_set split: prod.splits)
  from this [of "[]"] show ?thesis by (simp add: by_server_def)
qed

section \<open>Properties\<close>


definition thirty_rows :: audit_db where
  "thirty_rows = empty_audit_db\<lparr>db_events := map (\<lambda>i. \<lparr>rw_seq = i, rw_id = nat_str i, rw_ts = Some (int i),
     rw_tenant_id = ''acme'', rw_user_id = ''u'', rw_actor_token_jti = ''j'', rw_mcp_server = ''postgres'',
     rw_tool_name = ''pg.query'', rw_arguments_hash = ''h'', rw_decision = ''allow'', rw_deny_reason = None,
     rw_latency_ms = JFin 1, rw_trace_id = None, rw_prev_hash = ''p'', rw_row_hash = ''r''\<rparr>) [1..<31]\<rparr>"


text \<open>C24: the panel for dependencies never shows one that is down. Whatever the probes of the gateway find
  and however polls fail, the panel says what the last poll said that found the database, Redis and the
  identity provider working, and that it is still checking when there was none: an outage of one of
  them leaves it at the last good state.\<close>

theorem panel_misses_outages:
  "panel_summary_of (panel_after polls) =
     (case rev (filter answered_ready polls) of
        Some p # _ \<Rightarrow> if list_all (pr_reachable p) [Salesforce, Postgres, Policy_engine]
          then All_systems_normal else Panel_degraded
      | _ \<Rightarrow> Checking)"
proof (induction polls rule: rev_induct)
  case Nil
  show ?case by (simp add: panel_after_def panel_summary_of_def panel_entries_def)
next
  case (snoc a polls)
  have step: "panel_after (polls @ [a]) =
      poll_readiness (panel_after polls) (map_option (readiness_reply \<circ> probed) a)"
    by (simp add: panel_after_def)
  show ?case
  proof (cases "answered_ready a")
    case False
    with snoc poll_not_ready [OF False] show ?thesis by (simp add: step)
  next
    case True
    then obtain p where "a = Some p" by (cases a) (auto simp: answered_ready_def)
    with True poll_ready [of p "panel_after polls"] step show ?thesis by simp
  qed
qed

end
