(* ===== verification/Spec2Isabelle.thy ===== *)
theory Spec2Isabelle
  imports Audit_Log Audit_Reader Rate_Limit Policy_Engine Token_Exchange Jwks_Cache Idp_Properties Client_Pool Gw_Properties Gw_Console Warehouse Crm Migrations Chain_Check Fixtures Seed_Data Gw_App Dashboard
begin

text \<open>
  A verification development of the MCP gateway.

  \<^bold>\<open>The program.\<close> Agents call tools of MCP servers through a gateway (\<open>apps/gateway\<close>). A call passes
  nine stages: telemetry gives it an identifier, the bearer token or console session is
  authenticated, the tenant is looked up, two token buckets are charged, the policy server is asked,
  the caller's token is exchanged at the identity provider for one meant for the target server with
  no more scopes than the caller has, the tool is called over a pooled connection, the outcome is
  appended to a hash-chained audit log, and the reply goes out; a refusal at any stage is audited by
  the error handler. Around it stand the identity provider (\<open>apps/mock-idp\<close>), three MCP servers
  (\<open>apps/mcp-servers\<close>: policy engine, warehouse, CRM) built on a common runtime
  (\<open>packages/mcp-runtime\<close>), the console (\<open>apps/dashboard\<close>), which reads what the gateway serves it, and
  the operators' commands (\<open>scripts\<close>).

  \<^bold>\<open>Language and library\<close> (no component of their own).
    \<^item> \<open>Gw_Prelude\<close>: results of operations that throw (\<open>Inl\<close> the error), lists and maps as JavaScript's
      library treats them, the sort of \<open>Array.prototype.sort\<close>.
    \<^item> \<open>Js_Text\<close>, \<open>Js_Value\<close>, \<open>Js_Encoding\<close>, \<open>Iso_Date\<close>: strings, values with inherited members, URL and
      base64 encodings with their round trips, \<open>toISOString\<close> with its injectivity.
    \<^item> \<open>Js_Regex\<close>: the backtracking matcher of ECMA-262, proved sound and complete for a match relation;
      a round of a repetition is bounded by the length of the remaining text, which is enough
      because a round that consumes nothing is refused.
    \<^item> \<open>Zod_Values\<close>: what the request schemas check of single values.

  \<^bold>\<open>Shared packages.\<close>
    \<^item> \<open>Gw_Domain\<close>: errors, their HTTP form, roles, plans, scopes
      (\<open>packages/shared/src/errors.ts\<close>, \<open>domain.ts\<close>).
    \<^item> \<open>Canonical\<close>: \<open>packages/shared/src/canonical.ts\<close>; the encoder is the canonical printer of the JSON
      document a value denotes, and that printer is injective.
    \<^item> \<open>Audit_Chain\<close>, \<open>Audit_Log\<close>, \<open>Audit_Reader\<close>: \<open>packages/audit/src\<close> (\<open>hash.ts\<close>; \<open>writer.ts\<close> and
      \<open>verifier.ts\<close> over the tables of \<open>packages/shared/src/db/schema.ts\<close>; \<open>reader.ts\<close>). The locale
      \<open>hash_chain\<close> holds the collision argument over any rows and any digest, interpreted on the code's
      canonical rows. The lemmas give: what the writer appends verifies, in batches or not; two
      verified logs with the same head are the same log; the recorded head pins the log.
    \<^item> \<open>Rate_Limit\<close>: \<open>packages/rate-limit\<close> with the Lua script as one step on a bucket, in exact rationals.
      The locale \<open>token_bucket\<close> states what a run of calls may be granted, interpreted on the script.
    \<^item> \<open>Auth_Verify\<close>, \<open>Oauth_Client\<close>, \<open>Token_Exchange\<close>, \<open>Jwks_Cache\<close>: \<open>packages/auth/src\<close>. Token exchange is
      a transition system of several gateways over one shared cache with calls in flight; the locale
      \<open>owned_keys\<close> states that what is filed under a subject's key belongs to the subject.
    \<^item> \<open>Client_Pool\<close>, \<open>Mcp_Runtime\<close>: \<open>packages/mcp-runtime/src\<close>; the pool is a transition system of
      calls that begin, end, fail and close in any order.

  \<^bold>\<open>The gateway.\<close>
    \<^item> \<open>Gw_Stream\<close>: \<open>stream.ts\<close> and what a connected console receives.
    \<^item> \<open>Gw_Stages\<close>, \<open>Gw_Pipeline\<close>, \<open>Gw_Properties\<close>: \<open>plugins/*.ts\<close>, \<open>routes/tools.ts\<close>, \<open>context.ts\<close>,
      \<open>catalog.ts\<close>. A request is a record with a phase; each stage is a function of its answers, and
      \<open>gw_step\<close> interleaves the stages of any number of requests over the shared audit tables,
      buckets, token cache, connections and live view. The locale \<open>token_mirror\<close> is what the stages
      need of the mirroring service, interpreted on the model of \<open>Token_Exchange\<close>.
    \<^item> \<open>Gw_Console\<close>: sessions and login (\<open>session.ts\<close>, \<open>routes/bff.ts\<close>), the read API (\<open>routes/api.ts\<close>),
      health and request identifiers.
    \<^item> \<open>Gw_App\<close>: the replies outside the tool routes (\<open>app.ts\<close>), the listing of limits with their live
      buckets (\<open>routes/api.ts\<close>), and the validation of the environment by the four schemas of
      \<open>packages/shared/src/config.ts\<close>.
    \<^item> \<open>Dashboard\<close>: the console (\<open>apps/dashboard/src\<close>) as its client of the gateway (\<open>lib/api.ts\<close>), its
      formats (\<open>lib/utils.ts\<close>) and the state and decisions of its pages and frame. Its properties run
      through the gateway: the table's requests are answered by the model of \<open>/api/audit\<close>, the panel by
      that of \<open>/readyz\<close>, the live view by the stream.

  \<^bold>\<open>The servers around it.\<close>
    \<^item> \<open>Idp_Tokens\<close>, \<open>Idp\<close>, \<open>Idp_Grants\<close>, \<open>Idp_Properties\<close>: \<open>apps/mock-idp/src\<close>, every endpoint and grant as
      a function of the server's state; reachability over requests, the locale \<open>single_use\<close> for codes
      and refresh tokens, and the agreement with the gateway's OAuth client.
    \<^item> \<open>Policy_Engine\<close>: \<open>apps/mcp-servers/policy-engine\<close> and its shipped bundle.
    \<^item> \<open>Sql_Guard\<close>, \<open>Warehouse\<close>: \<open>apps/mcp-servers/postgres\<close>; the statement guard on the source's own
      regular expressions, and the transaction around a caller's statements over any driver.
    \<^item> \<open>Soql\<close>, \<open>Crm\<close>: \<open>apps/mcp-servers/salesforce\<close>; the query parser and evaluator, visibility and tools.

  \<^bold>\<open>The operators' commands.\<close>
    \<^item> \<open>Migrations\<close>: \<open>scripts/migrate.ts\<close>; every query, commit and rollback may fail or go unanswered, and
      reachability alternates runs and edits of the files.
    \<^item> \<open>Chain_Check\<close>: \<open>scripts/verify-audit-chain.ts\<close>, with the tamper check over the guarded tables and the
      exit codes.
    \<^item> \<open>Demo_Random\<close>, \<open>Fixtures\<close>: the generator both programs share (a state monad over a 32-bit word,
      proved of full period) and \<open>apps/mcp-servers/salesforce/fixtures/generate.ts\<close>.
    \<^item> \<open>Seed_Control\<close>, \<open>Seed_Data\<close>: \<open>scripts/seed.ts\<close> and \<open>scripts/reset-demo.ts\<close>; the control plane as
      statements of which any prefix may have run, the warehouse as drawn rows, the history through the
      audit writer.

  \<^bold>\<open>Parameters.\<close> Code outside the repository is an argument of the definitions that use it, with what
  is documented of it as a hypothesis where a property needs it: SHA-256 (64 lowercase hexadecimal
  characters; freedom from collisions is assumed only among the texts of the logs at hand), the
  digits of a number that is not a short integer (\<open>fmt_ok\<close>: injective and without delimiters),
  rounding of a quotient, in the demo data the rounding of every double operation and of \<open>toFixed\<close>, the
  effect of a migration's SQL, locale formatting, whether a text is a URL, the policy engine's regular expressions and \<open>localeCompare\<close>, \<open>Date.parse\<close>,
  the JWT library, the network, Redis and Postgres outcomes, YAML, clocks and fresh identifiers. Each
  property with such a hypothesis has a witness at a concrete instance.

  \<^bold>\<open>Bounds and conventions.\<close> Strings are lists of code units 0 to 255. Numbers are exact rationals
  with JavaScript's non-finite members; rounding of double arithmetic is left out, except where the
  source rounds. Loops are structural or have a proved measure (the batched verifier: the rows still
  ahead). Counts bound the matcher, proved enough; the comparison of \<open>ILIKE\<close>, one step for each
  character of pattern and text; the sampling of the demo history, by the source's own limit of attempts;
  and the reading of the console's pages, for which one more than the number of events is proved
  enough. A database transaction is one step.

  \<^bold>\<open>Not modelled.\<close> Logging, metrics and spans (\<open>packages/telemetry\<close>) only observe. Of the console the
  markup, charts, styling and the query library's scheduling are left out, and of the identity provider
  the login page's HTML. Process start-up and wiring (\<open>main.ts\<close>, \<open>services.ts\<close>, \<open>instrumentation.ts\<close>),
  random identifiers (\<open>ids.ts\<close>) and the database client construct what the model takes as given. The
  load test, the login demonstration and the screenshots (\<open>scripts\<close>) drive a running system from
  outside. Infrastructure, SQL schema files and tests are configuration and evidence, not operations; the
  row-level-security policies of the warehouse are Postgres's to enforce and appear as the context under
  which statements run.
\<close>

end
